(* ===== verification/Prelude.thy ===== *)
theory Prelude
  imports Main
begin

text \<open>
  Shared vocabulary of the development: JavaScript strings as lists of UTF-16 code
  units, the JavaScript whitespace class used by \<open>trim\<close> and by the regular
  expression class \<open>\s\<close>, the string builtins the sources call
  (\<open>trim\<close>, \<open>split\<close>, \<open>toLowerCase\<close>, \<open>join\<close>), the scanners that model the
  regular-expression replacements of the slug functions, and the generic list lemmas the
  component theories share.
\<close>

named_theorems js_string_simps "evaluation rules of the JavaScript string builtins"

section \<open>Strings\<close>

text \<open>
  A JavaScript string is a sequence of UTF-16 code units; \<open>length\<close>, \<open>slice\<close> and the
  regular expressions without the \<open>u\<close> flag all work on code units. HOL's \<open>char\<close> has
  only 256 values, so a string is a \<open>nat list\<close> of code units, and \<open>U ''abc''\<close>
  writes an ASCII/Latin-1 literal.
\<close>

type_synonym ustr = "nat list"

definition U :: "string \<Rightarrow> ustr" where
  "U s = map of_char s"

lemma U_Nil [simp]: "U [] = []"
  and U_Cons [simp]: "U (c # s) = of_char c # U s"
  and U_append [simp]: "U (s @ t) = U s @ U t"
  by (simp_all add: U_def)

definition is_js_ws :: "nat \<Rightarrow> bool" where
  \<comment> \<open>WhiteSpace and LineTerminator of ECMA-262: the class \<open>\s\<close> and what \<open>trim\<close> removes\<close>
  "is_js_ws c \<longleftrightarrow>
     c \<in> {9, 10, 11, 12, 13, 32, 160, 5760, 8232, 8233, 8239, 8287, 12288, 65279}
     \<or> (8192 \<le> c \<and> c \<le> 8202)"

definition is_line_term :: "nat \<Rightarrow> bool" where
  \<comment> \<open>the code units the regular-expression dot does not match\<close>
  "is_line_term c \<longleftrightarrow> c \<in> {10, 13, 8232, 8233}"

definition is_digit :: "nat \<Rightarrow> bool" where
  \<comment> \<open>\<open>\d\<close> without the \<open>u\<close> flag\<close>
  "is_digit c \<longleftrightarrow> 48 \<le> c \<and> c \<le> 57"

definition is_hyphen :: "nat \<Rightarrow> bool" where
  "is_hyphen c \<longleftrightarrow> c = 45"

lemma is_js_ws_ascii [js_string_simps]:
  "is_js_ws 32" "is_js_ws 9" "is_js_ws 10" "is_js_ws 13"
  "c \<noteq> 9 \<Longrightarrow> c \<noteq> 10 \<Longrightarrow> c \<noteq> 11 \<Longrightarrow> c \<noteq> 12 \<Longrightarrow> c \<noteq> 13 \<Longrightarrow> c \<noteq> 32 \<Longrightarrow> c < 160 \<Longrightarrow>
     \<not> is_js_ws c"
  by (auto simp: is_js_ws_def)

lemma line_term_is_js_ws: "is_line_term c \<Longrightarrow> is_js_ws c"
  by (auto simp: is_line_term_def is_js_ws_def)

definition js_trim :: "ustr \<Rightarrow> ustr" where
  \<comment> \<open>\<open>String.prototype.trim\<close>\<close>
  "js_trim s = rev (dropWhile is_js_ws (rev (dropWhile is_js_ws s)))"

fun js_split :: "nat \<Rightarrow> ustr \<Rightarrow> ustr list" where
  \<comment> \<open>\<open>String.prototype.split\<close> with a one-unit separator: never an empty list\<close>
  "js_split sep [] = [[]]"
| "js_split sep (c # cs) =
     (let r = js_split sep cs in if c = sep then [] # r else (c # hd r) # tl r)"

definition js_join :: "ustr \<Rightarrow> ustr list \<Rightarrow> ustr" where
  \<comment> \<open>\<open>Array.prototype.join\<close> of strings\<close>
  "js_join sep xs = (case xs of [] \<Rightarrow> [] | x # ys \<Rightarrow> x @ concat (map (\<lambda>y. sep @ y) ys))"

function js_words :: "ustr \<Rightarrow> ustr list" where
  \<comment> \<open>\<open>s.split(/\s+/).filter(Boolean)\<close>: the maximal runs of non-whitespace\<close>
  "js_words [] = []"
| "js_words (c # cs) =
     (if is_js_ws c then js_words cs
      else (c # takeWhile (Not \<circ> is_js_ws) cs) # js_words (dropWhile (Not \<circ> is_js_ws) cs))"
  by pat_completeness auto
termination
  by (relation "measure length") (auto simp: le_imp_less_Suc length_dropWhile_le)

text \<open>
  \<open>toLowerCase\<close> needs the Unicode case tables. The model maps the ASCII and Latin-1
  capitals, the Kelvin and Angstrom signs and the dotted capital I (which lowers to two
  code units); every other code unit is kept. Where the sources call it, the result is
  filtered to a set of caseless or ASCII characters right after, which the code units it
  keeps do not reach.
\<close>

definition js_lower_unit :: "nat \<Rightarrow> ustr" where
  "js_lower_unit c =
     (if 65 \<le> c \<and> c \<le> 90 then [c + 32]
      else if 192 \<le> c \<and> c \<le> 222 \<and> c \<noteq> 215 then [c + 32]
      else if c = 304 then [105, 775]
      else if c = 8490 then [107]
      else if c = 8491 then [229]
      else [c])"

definition js_lower :: "ustr \<Rightarrow> ustr" where
  "js_lower s = concat (map js_lower_unit s)"

section \<open>Regular-expression replacements\<close>

text \<open>
  \<open>s.replace(/[P]+/g, r)\<close> replaces every maximal run of code units satisfying \<open>P\<close> by
  the single unit \<open>r\<close>. The flag records whether the previous unit was inside a run.
\<close>

fun collapse_runs :: "(nat \<Rightarrow> bool) \<Rightarrow> nat \<Rightarrow> bool \<Rightarrow> ustr \<Rightarrow> ustr" where
  "collapse_runs p r prev [] = []"
| "collapse_runs p r prev (c # cs) =
     (if p c then (if prev then collapse_runs p r True cs else r # collapse_runs p r True cs)
      else c # collapse_runs p r False cs)"

definition replace_runs :: "(nat \<Rightarrow> bool) \<Rightarrow> nat \<Rightarrow> ustr \<Rightarrow> ustr" where
  "replace_runs p r s = collapse_runs p r False s"

definition strip_hyphens :: "ustr \<Rightarrow> ustr" where
  \<comment> \<open>\<open>s.replace(/^-+|-+$/g, "")\<close>\<close>
  "strip_hyphens s = rev (dropWhile is_hyphen (rev (dropWhile is_hyphen s)))"

definition strip_one_hyphen :: "ustr \<Rightarrow> ustr" where
  \<comment> \<open>\<open>s.replace(/^-|-$/g, "")\<close>: one hyphen at each end, the two matches not overlapping\<close>
  "strip_one_hyphen s =
     (let s1 = (case s of [] \<Rightarrow> [] | c # cs \<Rightarrow> if c = 45 then cs else s)
      in if s1 \<noteq> [] \<and> last s1 = 45 then butlast s1 else s1)"

fun no_double :: "nat \<Rightarrow> ustr \<Rightarrow> bool" where
  \<comment> \<open>no two adjacent occurrences of the unit\<close>
  "no_double r (x # y # xs) = (\<not> (x = r \<and> y = r) \<and> no_double r (y # xs))"
| "no_double r _ = True"

section \<open>Lemmas on the string operations\<close>

lemma set_collapse_runs:
  "set (collapse_runs p r b s) \<subseteq> insert r {c \<in> set s. \<not> p c}"
  by (induction p r b s rule: collapse_runs.induct) auto

lemma collapse_runs_id:
  "\<forall>c \<in> set s. \<not> p c \<Longrightarrow> collapse_runs p r b s = s"
  by (induction p r b s rule: collapse_runs.induct) auto

lemma collapse_runs_no_double:
  assumes "p r"
  shows "no_double r (collapse_runs p r b s) \<and> (b \<longrightarrow> take 1 (collapse_runs p r b s) \<noteq> [r])"
  using assms
proof (induction p r b s rule: collapse_runs.induct)
  case (1 p r prev)
  then show ?case by simp
next
  case (2 p r prev c cs)
  then show ?case
    by (cases "collapse_runs p r True cs"; cases "collapse_runs p r False cs") auto
qed

lemma collapse_runs_no_double_id:
  "no_double r s \<Longrightarrow> \<not> b \<or> take 1 s \<noteq> [r] \<Longrightarrow> collapse_runs (\<lambda>c. c = r) r b s = s"
proof (induction "\<lambda>c::nat. c = r" r b s rule: collapse_runs.induct)
  case (2 r prev c cs)
  then show ?case by (cases cs) auto
qed simp

lemma set_strip_hyphens: "set (strip_hyphens s) \<subseteq> set s"
  unfolding strip_hyphens_def by (auto dest!: set_dropWhileD)

lemma rev_dropWhile_rev_Cons:
  "\<not> P x \<Longrightarrow> rev (dropWhile P (rev (x # xs))) = x # rev (dropWhile P (rev xs))"
  by (simp add: dropWhile_append)

lemma strip_hyphens_ends:
  assumes ne: "strip_hyphens s \<noteq> []"
  shows "hd (strip_hyphens s) \<noteq> 45 \<and> last (strip_hyphens s) \<noteq> 45"
proof (cases "dropWhile is_hyphen s")
  case Nil
  with ne show ?thesis by (simp add: strip_hyphens_def)
next
  case (Cons x xs)
  then have x: "\<not> is_hyphen x"
    using hd_dropWhile[of is_hyphen s] by auto
  then have hd: "hd (strip_hyphens s) = x"
    unfolding strip_hyphens_def Cons rev_dropWhile_rev_Cons[where P = is_hyphen, OF x] by simp
  have ne': "dropWhile is_hyphen (rev (dropWhile is_hyphen s)) \<noteq> []"
    using ne by (simp add: strip_hyphens_def)
  have "last (strip_hyphens s) = hd (dropWhile is_hyphen (rev (dropWhile is_hyphen s)))"
    using ne' by (simp add: strip_hyphens_def last_rev)
  then have "\<not> is_hyphen (last (strip_hyphens s))"
    using hd_dropWhile[OF ne'] by simp
  with x hd show ?thesis by (simp add: is_hyphen_def)
qed

lemma no_double_append:
  "no_double r (xs @ ys) \<longleftrightarrow>
     no_double r xs \<and> no_double r ys \<and> \<not> (xs \<noteq> [] \<and> ys \<noteq> [] \<and> last xs = r \<and> hd ys = r)"
proof (induction xs)
  case Nil
  then show ?case by simp
next
  case (Cons x xs)
  then show ?case by (cases xs; cases ys) auto
qed

lemma no_double_rev [simp]: "no_double r (rev xs) = no_double r xs"
proof (induction xs)
  case (Cons x xs)
  then show ?case
    by (cases xs) (auto simp: no_double_append last_rev)
qed simp

lemma no_double_tl: "no_double r xs \<Longrightarrow> no_double r (tl xs)"
  by (induction r xs rule: no_double.induct) auto

lemma no_double_dropWhile: "no_double r xs \<Longrightarrow> no_double r (dropWhile P xs)"
proof (induction xs)
  case (Cons x xs)
  then show ?case using no_double_tl[of r "x # xs"] by simp
qed simp

lemma no_double_strip_hyphens: "no_double 45 s \<Longrightarrow> no_double 45 (strip_hyphens s)"
  by (simp add: strip_hyphens_def no_double_dropWhile)

lemma dropWhile_hyphen_no_double:
  "no_double 45 t \<Longrightarrow> dropWhile is_hyphen t = (if t \<noteq> [] \<and> hd t = 45 then tl t else t)"
proof (cases t)
  case (Cons a t')
  then show "no_double 45 t \<Longrightarrow> ?thesis"
    by (cases t') (auto simp: is_hyphen_def)
qed (simp)

lemma strip_one_hyphen_eq_strip_hyphens:
  assumes "no_double 45 s"
  shows "strip_one_hyphen s = strip_hyphens s"
proof -
  let ?t = "dropWhile is_hyphen s"
  have t: "?t = (if s \<noteq> [] \<and> hd s = 45 then tl s else s)"
    using assms by (rule dropWhile_hyphen_no_double)
  have nd: "no_double 45 (rev ?t)"
    using assms t by (auto intro: no_double_tl)
  have s1: "(case s of [] \<Rightarrow> [] | c # cs \<Rightarrow> if c = 45 then cs else s) = ?t"
    unfolding t by (cases s) auto
  have "strip_one_hyphen s = (if ?t \<noteq> [] \<and> last ?t = 45 then butlast ?t else ?t)"
    unfolding strip_one_hyphen_def Let_def s1 ..
  also have "\<dots> = rev (dropWhile is_hyphen (rev ?t))"
  proof -
    have bl: "butlast ?t = rev (tl (rev ?t))"
      using butlast_rev[of "rev ?t"] by simp
    have "rev (dropWhile is_hyphen (rev ?t)) =
        (if ?t \<noteq> [] \<and> last ?t = 45 then rev (tl (rev ?t)) else ?t)"
      unfolding dropWhile_hyphen_no_double[OF nd] by (simp add: hd_rev)
    then show ?thesis by (simp only: bl)
  qed
  finally show ?thesis by (simp add: strip_hyphens_def)
qed

section \<open>Numbers printed in a radix\<close>

text \<open>\<open>Number.prototype.toString(radix)\<close> on a non-negative integer.\<close>

fun radix_digits :: "nat \<Rightarrow> nat \<Rightarrow> nat list" where
  "radix_digits b n = (if b < 2 \<or> n < b then [n] else radix_digits b (n div b) @ [n mod b])"

declare radix_digits.simps [simp del]

definition digit_unit :: "nat \<Rightarrow> nat" where
  "digit_unit d = (if d < 10 then 48 + d else 87 + d)"

definition to_radix :: "nat \<Rightarrow> nat \<Rightarrow> ustr" where
  "to_radix b n = map digit_unit (radix_digits b n)"

definition pad2 :: "ustr \<Rightarrow> ustr" where
  \<comment> \<open>\<open>padStart(2, "0")\<close>\<close>
  "pad2 s = replicate (2 - length s) 48 @ s"

lemma js_trim_idem [simp]: "js_trim (js_trim s) = js_trim s"
proof -
  define a where "a = dropWhile is_js_ws s"
  define b where "b = dropWhile is_js_ws (rev a)"
  have t: "js_trim s = rev b" by (simp add: js_trim_def a_def b_def)
  have "dropWhile is_js_ws (rev b) = rev b"
  proof (cases "b = []")
    case False
    have "rev a = takeWhile is_js_ws (rev a) @ b" by (simp add: b_def)
    then obtain c where "a = rev b @ c" by (metis rev_append rev_rev_ident)
    then have "hd a = last b" and "a \<noteq> []" using False by (simp_all add: hd_append hd_rev)
    moreover have "\<not> is_js_ws (hd a)" using \<open>a \<noteq> []\<close> unfolding a_def by (metis hd_dropWhile)
    ultimately show ?thesis using False by (simp add: dropWhile_eq_self_iff hd_rev)
  qed simp
  moreover have "dropWhile is_js_ws b = b" by (simp add: b_def dropWhile_eq_self_iff hd_dropWhile)
  ultimately have "js_trim (rev b) = rev b" by (simp add: js_trim_def)
  then show ?thesis by (simp only: t)
qed


lemma length_js_trim: "length (js_trim s) \<le> length s"
  unfolding js_trim_def by (metis length_dropWhile_le length_rev order_trans)

lemma js_trim_space: "js_trim (32 # x) = js_trim x"
  by (simp add: js_trim_def is_js_ws_def)

lemma js_split_ne: "js_split sep z \<noteq> []"
  by (cases z) (simp_all add: Let_def)

lemma js_split_no_sep: "sep \<notin> set x \<Longrightarrow> js_split sep x = [x]"
  by (induction x) (auto simp: Let_def)

lemma js_split_append_sep: "sep \<notin> set x \<Longrightarrow> js_split sep (x @ sep # y) = x # js_split sep y"
  by (induction x) (auto simp: Let_def)

lemma js_split_prepend:
  "sep \<notin> set p \<Longrightarrow> js_split sep (p @ z) = (p @ hd (js_split sep z)) # tl (js_split sep z)"
  by (induction p) (auto simp: Let_def js_split_ne)

lemma js_join_Cons2: "js_join sep (x # y # ys) = x @ sep @ js_join sep (y # ys)"
  by (simp add: js_join_def)

text \<open>Splitting a join undoes it when no piece holds the separator.\<close>

lemma js_split_join:
  "\<forall>y \<in> set (x # ys). sep \<notin> set y \<Longrightarrow> sep \<notin> set p \<Longrightarrow>
   js_split sep (js_join (sep # p) (x # ys)) = x # map (\<lambda>y. p @ y) ys"
proof (induction ys arbitrary: x)
  case Nil
  then show ?case by (simp add: js_join_def js_split_no_sep)
next
  case (Cons y ys)
  then have "js_split sep (js_join (sep # p) (y # ys)) = y # map (\<lambda>y. p @ y) ys" by simp
  then have "js_split sep (p @ js_join (sep # p) (y # ys)) = (p @ y) # map (\<lambda>y. p @ y) ys"
    using Cons.prems js_split_prepend[of sep p "js_join (sep # p) (y # ys)"] by simp
  then show ?case using Cons.prems
    by (simp add: js_join_Cons2 js_split_append_sep)
qed

lemma js_trim_hd_last:
  "x \<noteq> [] \<Longrightarrow> \<not> is_js_ws (hd x) \<Longrightarrow> \<not> is_js_ws (last x) \<Longrightarrow> js_trim x = x"
proof -
  assume x: "x \<noteq> []" "\<not> is_js_ws (hd x)" "\<not> is_js_ws (last x)"
  then have "dropWhile is_js_ws x = x" by (cases x) simp_all
  moreover have "dropWhile is_js_ws (rev x) = rev x"
    using x by (cases "rev x") (simp_all add: hd_rev[symmetric])
  ultimately show ?thesis by (simp add: js_trim_def)
qed

lemma js_trim_ends:
  assumes "js_trim x \<noteq> []"
  shows "\<not> is_js_ws (hd (js_trim x)) \<and> \<not> is_js_ws (last (js_trim x))"
proof -
  define a where "a = dropWhile is_js_ws x"
  define b where "b = dropWhile is_js_ws (rev a)"
  have t: "js_trim x = rev b" by (simp add: js_trim_def a_def b_def)
  then have "b \<noteq> []" using assms by simp
  have "rev a = takeWhile is_js_ws (rev a) @ b" by (simp add: b_def)
  then have "last b = last (rev a)" using \<open>b \<noteq> []\<close> by (metis last_appendR)
  moreover have "a \<noteq> []" using \<open>b \<noteq> []\<close> by (auto simp: b_def)
  ultimately have "last b = hd a" by (simp add: last_rev)
  moreover have "\<not> is_js_ws (hd a)" using \<open>a \<noteq> []\<close> unfolding a_def by (metis hd_dropWhile)
  moreover have "\<not> is_js_ws (hd b)" using \<open>b \<noteq> []\<close> unfolding b_def by (metis hd_dropWhile)
  ultimately show ?thesis using \<open>b \<noteq> []\<close> by (simp add: t hd_rev last_rev)
qed

lemma js_words_words: "w \<in> set (js_words s) \<Longrightarrow> w \<noteq> [] \<and> (\<forall>c \<in> set w. \<not> is_js_ws c)"
proof (induction s rule: js_words.induct)
  case (2 c cs)
  show ?case
  proof (cases "is_js_ws c")
    case True
    then show ?thesis using "2.IH"(1) "2.prems" by simp
  next
    case False
    then consider "w = c # takeWhile (Not \<circ> is_js_ws) cs"
      | "w \<in> set (js_words (dropWhile (Not \<circ> is_js_ws) cs))"
      using "2.prems" by (simp only: js_words.simps(2) False if_False) (blast dest: set_ConsD)
    then show ?thesis
    proof cases
      case 1
      then show ?thesis using False by (auto dest: set_takeWhileD)
    next
      case 2
      then show ?thesis using False "2.IH"(2) by blast
    qed
  qed
qed simp

lemma js_join_ends:
  "ws \<noteq> [] \<Longrightarrow> \<forall>w \<in> set ws. w \<noteq> [] \<Longrightarrow>
   js_join sep ws \<noteq> [] \<and> hd (js_join sep ws) = hd (hd ws) \<and> last (js_join sep ws) = last (last ws)"
proof (induction ws rule: induct_list012)
  case (3 x y zs)
  then show ?case by (simp add: js_join_Cons2)
qed (simp_all add: js_join_def)

lemma digit_not_ws: "is_digit c \<Longrightarrow> \<not> is_js_ws c"
  by (simp add: is_digit_def is_js_ws_def)

lemma find_Some_set: "find P xs = Some x \<Longrightarrow> x \<in> set xs"
  by (auto simp: find_Some_iff)

lemma list_ex_remove1: "list_ex P xs \<Longrightarrow> \<not> P x \<Longrightarrow> list_ex P (remove1 x xs)"
  by (induction xs) auto

lemma list_all_remove1: "list_all P xs \<Longrightarrow> list_all P (remove1 x xs)"
  by (induction xs) auto


lemma find_desc:
  assumes "P m" "1 \<le> m" "m \<le> n" "\<forall>k. m < k \<and> k \<le> n \<longrightarrow> \<not> P k"
  shows "find P (rev [1..<Suc n]) = Some m"
  using assms
proof (induction n)
  case 0
  then show ?case by simp
next
  case (Suc n)
  show ?case
  proof (cases "m = Suc n")
    case True
    then show ?thesis using Suc.prems(1) by simp
  next
    case False
    then have "m \<le> n" "\<not> P (Suc n)" using Suc.prems by auto
    then show ?thesis using Suc.IH[OF Suc.prems(1,2)] Suc.prems(4) by simp
  qed
qed

lemma trimmed_tokens: "list_all (\<lambda>t. t \<noteq> [] \<and> js_trim t = t) (filter (\<lambda>s. s \<noteq> []) (map js_trim zs))"
  by (simp add: list_all_iff image_iff) (metis js_trim_idem)

end
