(* ===== verification/JsValue.thy ===== *)
theory JsValue
  imports Complex_Main Prelude
begin

text \<open>
  The JavaScript values the stores and routes handle. A JSON document read from a store
  file or a request body is a \<open>jval\<close>; an object is the list of its properties in
  insertion order (distinct keys, as \<open>JSON.parse\<close> makes them). A number is finite
  (an exact rational), infinite or NaN; the rounding of binary64 is not modelled, which
  only matters for non-integers or integers beyond \<open>2^53\<close>. The theory holds the
  builtins the sources call on such values: property access (\<open>null.x\<close> throws a
  TypeError), truthiness (\<open>||\<close>, \<open>!v\<close>), \<open>Number(string)\<close> (StringToNumber of
  ECMA-262), \<open>String(v)\<close>, object spread, and what a write and a read of a JSON file
  do to a value.
\<close>

section \<open>Errors and the result type\<close>

datatype js_error = TypeError | SyntaxError | Thrown ustr

type_synonym 'a js = "js_error + 'a"

definition js_bind :: "'a js \<Rightarrow> ('a \<Rightarrow> 'b js) \<Rightarrow> 'b js" where
  "js_bind m f = (case m of Inl e \<Rightarrow> Inl e | Inr a \<Rightarrow> f a)"

lemma js_bind_simps [simp]:
  "js_bind (Inl e) f = Inl e" "js_bind (Inr a) f = f a"
  by (simp_all add: js_bind_def)

lemma js_bind_Inr_iff: "js_bind m f = Inr b \<longleftrightarrow> (\<exists>a. m = Inr a \<and> f a = Inr b)"
  by (cases m) auto

section \<open>Numbers\<close>

datatype jnum = JNaN | JFin rat | JInf bool \<comment> \<open>\<open>JInf True\<close> is \<open>+Infinity\<close>\<close>

fun jadd :: "jnum \<Rightarrow> jnum \<Rightarrow> jnum" where
  "jadd (JFin a) (JFin b) = JFin (a + b)"
| "jadd (JInf s) (JFin b) = JInf s"
| "jadd (JFin a) (JInf s) = JInf s"
| "jadd (JInf s) (JInf t) = (if s = t then JInf s else JNaN)"
| "jadd _ _ = JNaN"

fun jmul :: "jnum \<Rightarrow> jnum \<Rightarrow> jnum" where
  "jmul (JFin a) (JFin b) = JFin (a * b)"
| "jmul (JInf s) (JFin b) = (if b = 0 then JNaN else JInf (s = (0 < b)))"
| "jmul (JFin a) (JInf s) = (if a = 0 then JNaN else JInf (s = (0 < a)))"
| "jmul (JInf s) (JInf t) = JInf (s = t)"
| "jmul _ _ = JNaN"

subsection \<open>StringToNumber\<close>

definition digit_val :: "nat \<Rightarrow> nat" where
  "digit_val c = (if 48 \<le> c \<and> c \<le> 57 then c - 48
                  else if 97 \<le> c \<and> c \<le> 102 then c - 87
                  else if 65 \<le> c \<and> c \<le> 70 then c - 55 else 99)"

definition digits_value :: "nat \<Rightarrow> ustr \<Rightarrow> nat" where
  "digits_value b ds = foldl (\<lambda>a d. b * a + digit_val d) 0 ds"

definition is_radix_digit :: "nat \<Rightarrow> nat \<Rightarrow> bool" where
  "is_radix_digit b c \<longleftrightarrow> digit_val c < b"

definition pow10 :: "int \<Rightarrow> rat" where
  "pow10 e = (if 0 \<le> e then 10 ^ nat e else 1 / 10 ^ nat (- e))"

definition sign_split :: "ustr \<Rightarrow> bool \<times> ustr" where
  \<comment> \<open>an optional leading \<open>+\<close> or \<open>-\<close>; \<open>True\<close> for positive\<close>
  "sign_split s =
     (if s \<noteq> [] \<and> hd s = 43 then (True, tl s)
      else if s \<noteq> [] \<and> hd s = 45 then (False, tl s) else (True, s))"

definition parse_exponent :: "ustr \<Rightarrow> int option" where
  \<comment> \<open>an optional \<open>e\<close>/\<open>E\<close> part that must end the literal\<close>
  "parse_exponent s =
     (if s = [] then Some 0
      else if hd s = 101 \<or> hd s = 69 then
        (let (pos, ds) = sign_split (tl s)
         in if ds \<noteq> [] \<and> list_all is_digit ds
            then Some ((if pos then 1 else -1) * int (digits_value 10 ds)) else None)
      else None)"

definition parse_unsigned_decimal :: "ustr \<Rightarrow> rat option" where
  \<comment> \<open>digits, an optional fraction, an optional exponent; at least one digit\<close>
  "parse_unsigned_decimal s =
     (let ip = takeWhile is_digit s; r1 = dropWhile is_digit s;
          (fp, r2) = (if r1 \<noteq> [] \<and> hd r1 = 46
                      then (takeWhile is_digit (tl r1), dropWhile is_digit (tl r1)) else ([], r1))
      in if ip = [] \<and> fp = [] then None
         else map_option (\<lambda>e. of_nat (digits_value 10 (ip @ fp)) / 10 ^ length fp * pow10 e)
                (parse_exponent r2))"

definition parse_radix_literal :: "nat \<Rightarrow> ustr \<Rightarrow> jnum" where
  "parse_radix_literal b ds =
     (if ds \<noteq> [] \<and> list_all (is_radix_digit b) ds then JFin (of_nat (digits_value b ds)) else JNaN)"

definition js_number_of_string :: "ustr \<Rightarrow> jnum" where
  \<comment> \<open>\<open>Number(s)\<close> for a string \<open>s\<close>\<close>
  "js_number_of_string s =
     (let t = js_trim s in
      if t = [] then JFin 0
      else if 2 \<le> length t \<and> hd t = 48 \<and> (t ! 1 = 120 \<or> t ! 1 = 88)
        then parse_radix_literal 16 (drop 2 t)
      else if 2 \<le> length t \<and> hd t = 48 \<and> (t ! 1 = 111 \<or> t ! 1 = 79)
        then parse_radix_literal 8 (drop 2 t)
      else if 2 \<le> length t \<and> hd t = 48 \<and> (t ! 1 = 98 \<or> t ! 1 = 66)
        then parse_radix_literal 2 (drop 2 t)
      else
        (let (pos, r) = sign_split t
         in if r = U ''Infinity'' then JInf pos
            else case parse_unsigned_decimal r of
                   Some q \<Rightarrow> JFin (if pos then q else - q)
                 | None \<Rightarrow> JNaN))"

subsection \<open>Printing a number\<close>

text \<open>
  \<open>Number.prototype.toString()\<close>: integers below \<open>10^21\<close> print in decimal, as
  JavaScript does. A non-integer prints its exact decimal expansion, which is the
  shortest round-trip form JavaScript prints for decimal fractions of up to 15
  significant digits; the exponent forms (beyond \<open>10^21\<close> or below \<open>10^-6\<close>) are
  not modelled.
\<close>

fun frac_digits :: "nat \<Rightarrow> int \<Rightarrow> int \<Rightarrow> ustr" where
  "frac_digits 0 p q = []"
| "frac_digits (Suc n) p q =
     (if p = 0 then [] else digit_unit (nat ((10 * p) div q)) # frac_digits n ((10 * p) mod q) q)"

definition int_to_string :: "int \<Rightarrow> ustr" where
  "int_to_string i = (if i < 0 then 45 # to_radix 10 (nat (- i)) else to_radix 10 (nat i))"

definition rat_to_string :: "rat \<Rightarrow> ustr" where
  "rat_to_string r =
     (let (p, q) = quotient_of r in
      if q = 1 then int_to_string p
      else (if p < 0 then [45] else []) @ to_radix 10 (nat (\<bar>p\<bar> div q)) @ [46]
           @ frac_digits 21 (\<bar>p\<bar> mod q) q)"

fun jnum_to_string :: "jnum \<Rightarrow> ustr" where
  "jnum_to_string JNaN = U ''NaN''"
| "jnum_to_string (JInf s) = (if s then U ''Infinity'' else U ''-Infinity'')"
| "jnum_to_string (JFin r) = rat_to_string r"

section \<open>JSON values\<close>

datatype jval =
    JNull
  | JBool bool
  | JNum jnum
  | JStr ustr
  | JArr "jval list"
  | JObj "(ustr \<times> jval) list"

text \<open>Truthiness; \<open>None\<close> is \<open>undefined\<close>.\<close>

fun truthy :: "jval \<Rightarrow> bool" where
  "truthy JNull = False"
| "truthy (JBool b) = b"
| "truthy (JNum (JFin r)) = (r \<noteq> 0)"
| "truthy (JNum JNaN) = False"
| "truthy (JNum (JInf s)) = True"
| "truthy (JStr s) = (s \<noteq> [])"
| "truthy (JArr xs) = True"
| "truthy (JObj fs) = True"

definition truthy_opt :: "jval option \<Rightarrow> bool" where
  "truthy_opt v = (case v of None \<Rightarrow> False | Some x \<Rightarrow> truthy x)"

definition or_default :: "jval option \<Rightarrow> jval \<Rightarrow> jval" where
  \<comment> \<open>\<open>v || d\<close>\<close>
  "or_default v d = (if truthy_opt v then the v else d)"

text \<open>
  \<open>v.k\<close>: reading a property of \<open>null\<close> throws. The sources read named fields of
  records only; of a string or an array the model knows \<open>length\<close>.
\<close>

fun get_prop :: "jval \<Rightarrow> ustr \<Rightarrow> jval option js" where
  "get_prop JNull k = Inl TypeError"
| "get_prop (JObj fs) k = Inr (map_of fs k)"
| "get_prop (JStr s) k = Inr (if k = U ''length'' then Some (JNum (JFin (of_nat (length s)))) else None)"
| "get_prop (JArr xs) k = Inr (if k = U ''length'' then Some (JNum (JFin (of_nat (length xs)))) else None)"
| "get_prop _ k = Inr None"

definition opt_prop :: "jval \<Rightarrow> ustr \<Rightarrow> jval option" where
  \<comment> \<open>\<open>c?.k\<close>: \<open>undefined\<close> on \<open>null\<close>\<close>
  "opt_prop c k = (case get_prop c k of Inr v \<Rightarrow> v | Inl _ \<Rightarrow> None)"

fun js_String :: "jval \<Rightarrow> ustr" where
  \<comment> \<open>\<open>String(v)\<close>\<close>
  "js_String JNull = U ''null''"
| "js_String (JBool b) = (if b then U ''true'' else U ''false'')"
| "js_String (JNum n) = jnum_to_string n"
| "js_String (JStr s) = s"
| "js_String (JArr xs) = js_join [44] (map (\<lambda>x. if x = JNull then [] else js_String x) xs)"
| "js_String (JObj fs) = U ''[object Object]''"

definition js_String_opt :: "jval option \<Rightarrow> ustr" where
  "js_String_opt v = (case v of None \<Rightarrow> U ''undefined'' | Some x \<Rightarrow> js_String x)"

fun js_ToNumber :: "jval \<Rightarrow> jnum" where
  \<comment> \<open>\<open>Number(v)\<close>\<close>
  "js_ToNumber JNull = JFin 0"
| "js_ToNumber (JBool b) = JFin (if b then 1 else 0)"
| "js_ToNumber (JNum n) = n"
| "js_ToNumber (JStr s) = js_number_of_string s"
| "js_ToNumber (JArr xs) = js_number_of_string (js_String (JArr xs))"
| "js_ToNumber (JObj fs) = JNaN"

section \<open>Objects\<close>

fun obj_set :: "(ustr \<times> jval) list \<Rightarrow> ustr \<Rightarrow> jval \<Rightarrow> (ustr \<times> jval) list" where
  \<comment> \<open>\<open>o[k] = v\<close>: an existing key keeps its place, a new one goes last\<close>
  "obj_set [] k v = [(k, v)]"
| "obj_set ((k', v') # fs) k v = (if k' = k then (k, v) # fs else (k', v') # obj_set fs k v)"

definition spread_props :: "jval \<Rightarrow> (ustr \<times> jval) list" where
  \<comment> \<open>the own enumerable properties \<open>{...v}\<close> copies\<close>
  "spread_props v =
     (case v of
        JObj fs \<Rightarrow> fs
      | JArr xs \<Rightarrow> zip (map (to_radix 10) [0..<length xs]) xs
      | JStr s \<Rightarrow> zip (map (to_radix 10) [0..<length s]) (map (\<lambda>c. JStr [c]) s)
      | _ \<Rightarrow> [])"

definition obj_spread :: "(ustr \<times> jval) list \<Rightarrow> jval \<Rightarrow> (ustr \<times> jval) list" where
  \<comment> \<open>\<open>{...o, ...v}\<close>\<close>
  "obj_spread fs v = foldl (\<lambda>acc (k, x). obj_set acc k x) fs (spread_props v)"

lemma map_of_obj_set: "map_of (obj_set fs k v) = (map_of fs)(k \<mapsto> v)"
  by (induction fs) (auto simp: fun_eq_iff)

lemma map_of_obj_spread:
  "map_of (obj_spread fs v) = map_of fs ++ map_of (rev (spread_props v))"
proof -
  have "\<And>acc. map_of (foldl (\<lambda>acc (k, x). obj_set acc k x) acc ps) = map_of acc ++ map_of (rev ps)"
    for ps :: "(ustr \<times> jval) list"
    by (induction ps rule: rev_induct) (auto simp: map_of_obj_set map_add_def fun_eq_iff split: option.splits)
  then show ?thesis by (simp add: obj_spread_def)
qed

lemma obj_set_keys_in: "k \<in> set (map fst fs) \<Longrightarrow> map fst (obj_set fs k v) = map fst fs"
  by (induction fs) (auto simp: rev_image_eqI)

lemma obj_set_keys_new: "k \<notin> set (map fst fs) \<Longrightarrow> map fst (obj_set fs k v) = map fst fs @ [k]"
  by (induction fs) auto

section \<open>A JSON file written and read back\<close>

text \<open>
  \<open>JSON.stringify\<close> writes NaN and the infinities as \<open>null\<close>; the next
  \<open>JSON.parse\<close> reads them so. Every other value the stores write comes back as it was.
\<close>

fun json_roundtrip :: "jval \<Rightarrow> jval" where
  "json_roundtrip (JNum (JFin r)) = JNum (JFin r)"
| "json_roundtrip (JNum _) = JNull"
| "json_roundtrip (JArr xs) = JArr (map json_roundtrip xs)"
| "json_roundtrip (JObj fs) = JObj (map (\<lambda>(k, x). (k, json_roundtrip x)) fs)"
| "json_roundtrip v = v"

section \<open>Array methods with callbacks that may throw\<close>

text \<open>
  \<open>find\<close>, \<open>some\<close>, \<open>findIndex\<close> and \<open>filter\<close> call the callback on the elements
  in order; a throw ends the method with the same error.
\<close>

fun js_find :: "('a \<Rightarrow> bool js) \<Rightarrow> 'a list \<Rightarrow> 'a option js" where
  "js_find p [] = Inr None"
| "js_find p (x # xs) = js_bind (p x) (\<lambda>b. if b then Inr (Some x) else js_find p xs)"

fun js_some :: "('a \<Rightarrow> bool js) \<Rightarrow> 'a list \<Rightarrow> bool js" where
  "js_some p [] = Inr False"
| "js_some p (x # xs) = js_bind (p x) (\<lambda>b. if b then Inr True else js_some p xs)"

fun js_find_index :: "('a \<Rightarrow> bool js) \<Rightarrow> 'a list \<Rightarrow> nat option js" where
  "js_find_index p [] = Inr None"
| "js_find_index p (x # xs) =
     js_bind (p x) (\<lambda>b. if b then Inr (Some 0) else js_bind (js_find_index p xs) (\<lambda>r. Inr (map_option Suc r)))"

fun js_filter :: "('a \<Rightarrow> bool js) \<Rightarrow> 'a list \<Rightarrow> 'a list js" where
  "js_filter p [] = Inr []"
| "js_filter p (x # xs) =
     js_bind (p x) (\<lambda>b. js_bind (js_filter p xs) (\<lambda>r. Inr (if b then x # r else r)))"

fun find_index_of :: "('a \<Rightarrow> bool) \<Rightarrow> 'a list \<Rightarrow> nat option" where
  "find_index_of q [] = None"
| "find_index_of q (x # xs) = (if q x then Some 0 else map_option Suc (find_index_of q xs))"

text \<open>Where the callback cannot throw, each method is its HOL counterpart.\<close>

lemma js_find_pure: "(\<forall>x \<in> set xs. p x = Inr (q x)) \<Longrightarrow> js_find p xs = Inr (find q xs)"
  by (induction xs) auto

lemma js_some_pure: "(\<forall>x \<in> set xs. p x = Inr (q x)) \<Longrightarrow> js_some p xs = Inr (list_ex q xs)"
  by (induction xs) auto

lemma js_find_index_pure:
  "(\<forall>x \<in> set xs. p x = Inr (q x)) \<Longrightarrow> js_find_index p xs = Inr (find_index_of q xs)"
  by (induction xs) auto

lemma js_filter_pure: "(\<forall>x \<in> set xs. p x = Inr (q x)) \<Longrightarrow> js_filter p xs = Inr (filter q xs)"
  by (induction xs) auto

lemma find_index_of_Some:
  "find_index_of q xs = Some i \<Longrightarrow> i < length xs \<and> q (xs ! i) \<and> (\<forall>j < i. \<not> q (xs ! j))"
proof (induction xs arbitrary: i)
  case (Cons x xs)
  then show ?case
    by (cases i) (auto simp: nth_Cons' split: if_splits)
qed simp

lemma find_index_of_None: "find_index_of q xs = None \<longleftrightarrow> \<not> list_ex q xs"
  by (induction xs) auto

end
