(* ===== verification/Uri.thy ===== *)
theory Uri
  imports JsValue
begin

text \<open>
  The URI builtins the site calls on slugs, tags and cookies: \<open>encodeURIComponent\<close>
  (ECMA-262 Encode with the unreserved set of \<open>encodeURIComponent\<close>) and
  \<open>decodeURIComponent\<close> (ECMA-262 Decode with the empty reserved set), over strings of
  UTF-16 code units. Both can throw a \<open>URIError\<close>, which is the value \<open>None\<close>: encoding
  throws on an unpaired surrogate, decoding on a malformed escape or on escaped octets
  that are not the UTF-8 encoding of one code point. The main result is that decoding
  undoes encoding on every string of code units.
\<close>

section \<open>UTF-8 and UTF-16\<close>

definition is_high :: "nat \<Rightarrow> bool" where
  "is_high c \<longleftrightarrow> 55296 \<le> c \<and> c \<le> 56319"

definition is_low :: "nat \<Rightarrow> bool" where
  "is_low c \<longleftrightarrow> 56320 \<le> c \<and> c \<le> 57343"

definition pair_cp :: "nat \<Rightarrow> nat \<Rightarrow> nat" where
  \<comment> \<open>UTF16SurrogatePairToCodePoint\<close>
  "pair_cp hi lo = (hi - 55296) * 1024 + (lo - 56320) + 65536"

definition utf16 :: "nat \<Rightarrow> ustr" where
  \<comment> \<open>UTF16EncodeCodePoint\<close>
  "utf16 v = (if v < 65536 then [v] else [55296 + (v - 65536) div 1024, 56320 + (v - 65536) mod 1024])"

definition utf8_encode :: "nat \<Rightarrow> nat list" where
  "utf8_encode v =
     (if v < 128 then [v]
      else if v < 2048 then [192 + v div 64, 128 + v mod 64]
      else if v < 65536 then [224 + v div 4096, 128 + v div 64 mod 64, 128 + v mod 64]
      else [240 + v div 262144, 128 + v div 4096 mod 64, 128 + v div 64 mod 64, 128 + v mod 64])"

definition lead_ones :: "nat \<Rightarrow> nat" where
  \<comment> \<open>the number of leading 1 bits of an octet; 5 stands for any number above 4\<close>
  "lead_ones b = (if b < 128 then 0 else if b < 192 then 1 else if b < 224 then 2
                  else if b < 240 then 3 else if b < 248 then 4 else 5)"

definition utf8_min :: "nat \<Rightarrow> nat" where
  "utf8_min n = (if n = 2 then 128 else if n = 3 then 2048 else 65536)"

definition utf8_decode :: "nat list \<Rightarrow> nat option" where
  \<comment> \<open>the code point a sequence of \<open>n = lead_ones (hd bs)\<close> octets encodes, if it is
     valid UTF-8: continuation octets \<open>10xxxxxx\<close>, no overlong form, no surrogate,
     at most U+10FFFF\<close>
  "utf8_decode bs =
     (let n = length bs;
          v = foldl (\<lambda>a c. a * 64 + c mod 64) (hd bs mod 2 ^ (7 - n)) (tl bs)
      in if list_all (\<lambda>c. c div 64 = 2) (tl bs) \<and> utf8_min n \<le> v \<and> v \<le> 1114111
            \<and> \<not> (55296 \<le> v \<and> v \<le> 57343)
         then Some v else None)"

fun wf_utf16 :: "ustr \<Rightarrow> bool" where
  \<comment> \<open>well-formed UTF-16: every surrogate is half of a high-low pair\<close>
  "wf_utf16 [] = True"
| "wf_utf16 (c # cs) =
     (if is_low c then False
      else if is_high c then (case cs of [] \<Rightarrow> False | d # ds \<Rightarrow> is_low d \<and> wf_utf16 ds)
      else wf_utf16 cs)"

definition scalar :: "nat \<Rightarrow> bool" where
  \<comment> \<open>a Unicode scalar value: a code point that is not a surrogate\<close>
  "scalar v \<longleftrightarrow> v \<le> 1114111 \<and> \<not> (55296 \<le> v \<and> v \<le> 57343)"

section \<open>encodeURIComponent\<close>

definition uri_unreserved :: "nat \<Rightarrow> bool" where
  \<comment> \<open>\<open>A-Z a-z 0-9 - _ . ! ~ * ' ( )\<close>\<close>
  "uri_unreserved c \<longleftrightarrow> (65 \<le> c \<and> c \<le> 90) \<or> (97 \<le> c \<and> c \<le> 122) \<or> (48 \<le> c \<and> c \<le> 57)
     \<or> c \<in> {45, 95, 46, 33, 126, 42, 39, 40, 41}"

definition hex_upper :: "nat \<Rightarrow> nat" where
  "hex_upper d = (if d < 10 then 48 + d else 55 + d)"

definition hex_escape :: "nat \<Rightarrow> ustr" where
  \<comment> \<open>\<open>"%"\<close> and the octet in two upper-case hexadecimal digits\<close>
  "hex_escape b = [37, hex_upper (b div 16), hex_upper (b mod 16)]"

definition escape_cp :: "nat \<Rightarrow> ustr" where
  "escape_cp v = concat (map hex_escape (utf8_encode v))"

fun encode_uri :: "ustr \<Rightarrow> ustr option" where
  "encode_uri [] = Some []"
| "encode_uri (c # cs) =
     (if uri_unreserved c then map_option (Cons c) (encode_uri cs)
      else if is_low c then None
      else if is_high c then
        (case cs of
           [] \<Rightarrow> None
         | d # ds \<Rightarrow> if is_low d then map_option (append (escape_cp (pair_cp c d))) (encode_uri ds)
                    else None)
      else map_option (append (escape_cp c)) (encode_uri cs))"

definition uri_error :: js_error where
  \<comment> \<open>the \<open>URIError\<close> \<open>encodeURIComponent\<close> throws on an unpaired surrogate\<close>
  "uri_error = Thrown (U ''URI malformed'')"

section \<open>decodeURIComponent\<close>

definition hex_byte :: "nat \<Rightarrow> nat \<Rightarrow> nat option" where
  \<comment> \<open>ParseHexOctet\<close>
  "hex_byte h1 h2 =
     (if is_radix_digit 16 h1 \<and> is_radix_digit 16 h2 then Some (16 * digit_val h1 + digit_val h2)
      else None)"

fun escape_bytes :: "nat \<Rightarrow> ustr \<Rightarrow> (nat list \<times> ustr) option" where
  \<comment> \<open>read \<open>k\<close> escapes \<open>%XX\<close> and return their octets and the rest of the string\<close>
  "escape_bytes 0 s = Some ([], s)"
| "escape_bytes (Suc k) (c # h1 # h2 # s) =
     (if c \<noteq> 37 then None
      else case hex_byte h1 h2 of
             None \<Rightarrow> None
           | Some b \<Rightarrow> map_option (\<lambda>(bs, r). (b # bs, r)) (escape_bytes k s))"
| "escape_bytes (Suc k) _ = None"

lemma escape_bytes_length:
  "escape_bytes k s = Some (bs, r) \<Longrightarrow> length s = length r + 3 * k \<and> length bs = k"
  by (induction k s arbitrary: bs rule: escape_bytes.induct) (auto split: if_splits option.splits)

function decode_uri :: "ustr \<Rightarrow> ustr option" where
  "decode_uri [] = Some []"
| "decode_uri (c # cs) =
     (if c \<noteq> 37 then map_option (Cons c) (decode_uri cs)
      else case escape_bytes 1 (c # cs) of
        Some ([b], r) \<Rightarrow>
          (if lead_ones b = 0 then map_option (Cons b) (decode_uri r)
           else if lead_ones b = 1 \<or> 4 < lead_ones b then None
           else case escape_bytes (lead_ones b - 1) r of
                  None \<Rightarrow> None
                | Some (bs, r') \<Rightarrow>
                    (case utf8_decode (b # bs) of
                       None \<Rightarrow> None
                     | Some v \<Rightarrow> map_option (append (utf16 v)) (decode_uri r')))
      | _ \<Rightarrow> None)"
  by pat_completeness auto
termination
  by (relation "measure length") (auto dest!: escape_bytes_length)

section \<open>Lemmas: octets, escapes and UTF-8\<close>

lemma digit_val_hex_upper: "d < 16 \<Longrightarrow> digit_val (hex_upper d) = d"
  by (auto simp: digit_val_def hex_upper_def)

lemma hex_byte_escape: "b < 256 \<Longrightarrow> hex_byte (hex_upper (b div 16)) (hex_upper (b mod 16)) = Some b"
  by (simp add: hex_byte_def is_radix_digit_def digit_val_hex_upper less_mult_imp_div_less)

lemma escape_bytes_concat:
  "list_all (\<lambda>b. b < 256) bs \<Longrightarrow> escape_bytes (length bs) (concat (map hex_escape bs) @ r) = Some (bs, r)"
  by (induction bs) (simp_all add: hex_escape_def hex_byte_escape)

lemma utf8_encode_bytes: "v \<le> 1114111 \<Longrightarrow> list_all (\<lambda>b. b < 256) (utf8_encode v)"
  by (auto simp: utf8_encode_def)


lemma add_mult_div: "r < (b::nat) \<Longrightarrow> (r + c * b) div b = c \<and> (r + c * b) mod b = r"
  by simp

lemma cont_byte: "(r::nat) < 64 \<Longrightarrow> (128 + r) div 64 = 2 \<and> (128 + r) mod 64 = r"
  using add_mult_div[of r 64 2] by (simp add: add.commute)

lemma digit_bound: "x < n \<Longrightarrow> (r::nat) < 64 \<Longrightarrow> x * 64 + r < n * 64"
proof -
  assume "x < n" "r < 64"
  moreover have "Suc x * 64 \<le> n * 64" using \<open>x < n\<close> by (intro mult_le_mono1) simp
  ultimately show ?thesis by simp
qed

lemma utf8_decode_2: "b < 32 \<Longrightarrow> r < 64 \<Longrightarrow> utf8_decode [192 + b, 128 + r] =
   (if 128 \<le> b * 64 + r then Some (b * 64 + r) else None)"
proof -
  assume a: "b < 32" "r < 64"
  have h: "(192 + b) mod 2 ^ (7 - length [192 + b, 128 + r]) = b"
    using add_mult_div[of b 32 6] a(1) by (simp add: add.commute)
  have r: "(128 + r) div 64 = 2" "(128 + r) mod 64 = r"
    using cont_byte[OF a(2)] by simp_all
  have s: "b * 64 + r < 2048" using a by linarith
  then have "b * 64 + r \<le> 1114111" and "\<not> (55296 \<le> b * 64 + r \<and> b * 64 + r \<le> 57343)"
    by linarith+
  then show ?thesis
    unfolding utf8_decode_def Let_def list.sel h by (simp add: r utf8_min_def)
qed

lemma utf8_decode_3: "b < 16 \<Longrightarrow> r1 < 64 \<Longrightarrow> r < 64 \<Longrightarrow> utf8_decode [224 + b, 128 + r1, 128 + r] =
   (if 2048 \<le> (b * 64 + r1) * 64 + r \<and> \<not> (55296 \<le> (b * 64 + r1) * 64 + r \<and> (b * 64 + r1) * 64 + r \<le> 57343)
    then Some ((b * 64 + r1) * 64 + r) else None)"
proof -
  assume a: "b < 16" "r1 < 64" "r < 64"
  have h: "(224 + b) mod 2 ^ (7 - length [224 + b, 128 + r1, 128 + r]) = b"
    using add_mult_div[of b 16 14] a(1) by (simp add: add.commute)
  have r: "(128 + r) div 64 = 2" "(128 + r) mod 64 = r" "(128 + r1) div 64 = 2" "(128 + r1) mod 64 = r1"
    using cont_byte[OF a(3)] cont_byte[OF a(2)] by simp_all
  have "(b * 64 + r1) * 64 + r < 65536"
    using digit_bound[OF digit_bound[OF a(1,2)] a(3)] by simp
  then have "(b * 64 + r1) * 64 + r \<le> 1114111" by linarith
  then show ?thesis
    unfolding utf8_decode_def Let_def list.sel h by (simp add: r utf8_min_def)
qed

lemma utf8_decode_4: "b < 8 \<Longrightarrow> r2 < 64 \<Longrightarrow> r1 < 64 \<Longrightarrow> r < 64 \<Longrightarrow>
   utf8_decode [240 + b, 128 + r2, 128 + r1, 128 + r] =
   (if 65536 \<le> ((b * 64 + r2) * 64 + r1) * 64 + r \<and> ((b * 64 + r2) * 64 + r1) * 64 + r \<le> 1114111
    then Some (((b * 64 + r2) * 64 + r1) * 64 + r) else None)"
proof -
  assume a: "b < 8" "r2 < 64" "r1 < 64" "r < 64"
  have h: "(240 + b) mod 2 ^ (7 - length [240 + b, 128 + r2, 128 + r1, 128 + r]) = b"
    using add_mult_div[of b 8 30] a(1) by (simp add: add.commute)
  have r: "(128 + r) div 64 = 2" "(128 + r) mod 64 = r" "(128 + r1) div 64 = 2" "(128 + r1) mod 64 = r1"
     "(128 + r2) div 64 = 2" "(128 + r2) mod 64 = r2"
    using cont_byte[OF a(4)] cont_byte[OF a(3)] cont_byte[OF a(2)] by simp_all
  show ?thesis
    unfolding utf8_decode_def Let_def list.sel h by (simp add: r utf8_min_def)
qed

lemma div64_split: "(v::nat) div 64 = v div 4096 * 64 + v div 64 mod 64"
  using div_mult2_eq[of v 64 64] by simp

lemma div4096_split: "(v::nat) div 4096 = v div 262144 * 64 + v div 4096 mod 64"
  using div_mult2_eq[of v 4096 64] by simp

lemma utf8_enc_2: "128 \<le> v \<Longrightarrow> v < 2048 \<Longrightarrow> utf8_encode v = [192 + v div 64, 128 + v mod 64] \<and>
    utf8_decode (utf8_encode v) = Some v \<and> lead_ones (192 + v div 64) = 2"
proof -
  assume a: "128 \<le> v" "v < 2048"
  have b: "v div 64 < 32" using a(2) by (simp add: less_mult_imp_div_less)
  have e: "utf8_encode v = [192 + v div 64, 128 + v mod 64]" using a by (simp add: utf8_encode_def)
  have "utf8_decode [192 + v div 64, 128 + v mod 64] = Some v"
    using utf8_decode_2[OF b, of "v mod 64"] a(1) by simp
  moreover have "lead_ones (192 + v div 64) = 2" using b by (simp add: lead_ones_def)
  ultimately show ?thesis using e by simp
qed

lemma utf8_enc_3: "2048 \<le> v \<Longrightarrow> v < 65536 \<Longrightarrow> \<not> (55296 \<le> v \<and> v \<le> 57343) \<Longrightarrow>
    utf8_encode v = [224 + v div 4096, 128 + v div 64 mod 64, 128 + v mod 64] \<and>
    utf8_decode (utf8_encode v) = Some v \<and> lead_ones (224 + v div 4096) = 3"
proof -
  assume a: "2048 \<le> v" "v < 65536" "\<not> (55296 \<le> v \<and> v \<le> 57343)"
  have b: "v div 4096 < 16" using a(2) by (simp add: less_mult_imp_div_less)
  have e: "utf8_encode v = [224 + v div 4096, 128 + v div 64 mod 64, 128 + v mod 64]"
    using a by (simp add: utf8_encode_def)
  have v: "(v div 4096 * 64 + v div 64 mod 64) * 64 + v mod 64 = v"
    by (simp flip: div64_split)
  have "utf8_decode [224 + v div 4096, 128 + v div 64 mod 64, 128 + v mod 64] = Some v"
    using utf8_decode_3[OF b, of "v div 64 mod 64" "v mod 64"] a by (simp only: v) simp
  moreover have "lead_ones (224 + v div 4096) = 3" using b by (simp add: lead_ones_def)
  ultimately show ?thesis using e by simp
qed

lemma utf8_enc_4: "65536 \<le> v \<Longrightarrow> v \<le> 1114111 \<Longrightarrow>
    utf8_encode v = [240 + v div 262144, 128 + v div 4096 mod 64, 128 + v div 64 mod 64, 128 + v mod 64] \<and>
    utf8_decode (utf8_encode v) = Some v \<and> lead_ones (240 + v div 262144) = 4"
proof -
  assume a: "65536 \<le> v" "v \<le> 1114111"
  have b: "v div 262144 < 8" using a(2) by (simp add: less_mult_imp_div_less)
  have e: "utf8_encode v = [240 + v div 262144, 128 + v div 4096 mod 64, 128 + v div 64 mod 64, 128 + v mod 64]"
    using a by (simp add: utf8_encode_def)
  have v: "((v div 262144 * 64 + v div 4096 mod 64) * 64 + v div 64 mod 64) * 64 + v mod 64 = v"
    by (simp flip: div64_split div4096_split)
  have "utf8_decode [240 + v div 262144, 128 + v div 4096 mod 64, 128 + v div 64 mod 64, 128 + v mod 64] = Some v"
    using utf8_decode_4[OF b, of "v div 4096 mod 64" "v div 64 mod 64" "v mod 64"] a by (simp only: v) simp
  moreover have "lead_ones (240 + v div 262144) = 4" using b by (simp add: lead_ones_def)
  ultimately show ?thesis using e by simp
qed

lemma utf8_enc_multi:
  assumes "scalar v" and "128 \<le> v"
  obtains b bs where "utf8_encode v = b # bs" and "lead_ones b = Suc (length bs)" and "2 \<le> lead_ones b"
    and "lead_ones b \<le> 4" and "utf8_decode (b # bs) = Some v"
proof -
  consider "v < 2048" | "2048 \<le> v" "v < 65536" | "65536 \<le> v" by linarith
  then show ?thesis
  proof cases
    case 1 then show ?thesis using utf8_enc_2[OF assms(2)] that by auto
  next
    case 2 then show ?thesis using utf8_enc_3[of v] assms(1) that by (auto simp: scalar_def)
  next
    case 3 then show ?thesis using utf8_enc_4[of v] assms(1) that by (auto simp: scalar_def)
  qed
qed

lemma escape_bytes_one: "b < 256 \<Longrightarrow> escape_bytes 1 (hex_escape b @ r) = Some ([b], r)"
  using escape_bytes_concat[of "[b]" r] by simp

lemma decode_uri_escape_byte:
  assumes "b < 256"
  shows "decode_uri (hex_escape b @ rest) =
    (if lead_ones b = 0 then map_option (Cons b) (decode_uri rest)
     else if lead_ones b = 1 \<or> 4 < lead_ones b then None
     else case escape_bytes (lead_ones b - 1) rest of
            None \<Rightarrow> None
          | Some (bs, r') \<Rightarrow> (case utf8_decode (b # bs) of
                               None \<Rightarrow> None
                             | Some v \<Rightarrow> map_option (append (utf16 v)) (decode_uri r')))"
proof -
  obtain t where t: "hex_escape b @ rest = 37 # t" by (simp add: hex_escape_def)
  then have "escape_bytes 1 (37 # t) = Some ([b], rest)"
    using escape_bytes_one[OF assms, of rest] by simp
  then show ?thesis unfolding t by simp
qed

lemma decode_uri_escape_cp:
  assumes "scalar v"
  shows "decode_uri (escape_cp v @ r) = map_option (append (utf16 v)) (decode_uri r)"
proof (cases "v < 128")
  case True
  then have "escape_cp v @ r = hex_escape v @ r" and "lead_ones v = 0" and "utf16 v = [v]"
    by (simp_all add: escape_cp_def utf8_encode_def lead_ones_def utf16_def)
  then show ?thesis using True by (cases "decode_uri r") (simp_all add: decode_uri_escape_byte)
next
  case False
  then obtain b bs where e: "utf8_encode v = b # bs" and n: "lead_ones b = Suc (length bs)" "2 \<le> lead_ones b"
    "lead_ones b \<le> 4" and d: "utf8_decode (b # bs) = Some v"
    using utf8_enc_multi[OF assms] by (metis not_less)
  have bytes: "b < 256" "list_all (\<lambda>b. b < 256) bs"
    using utf8_encode_bytes[of v] assms e by (simp_all add: scalar_def)
  have ev: "escape_cp v @ r = hex_escape b @ (concat (map hex_escape bs) @ r)"
    by (simp add: escape_cp_def e)
  have "escape_bytes (lead_ones b - 1) (concat (map hex_escape bs) @ r) = Some (bs, r)"
    using escape_bytes_concat[OF bytes(2)] n(1) by simp
  then show ?thesis
    using n(2,3) d unfolding ev decode_uri_escape_byte[OF bytes(1)] by simp
qed

lemma utf16_pair:
  assumes "is_high c" and "is_low d"
  shows "utf16 (pair_cp c d) = [c, d] \<and> scalar (pair_cp c d)"
proof -
  have lo: "d - 56320 < 1024" and hi: "c - 55296 < 1024"
    using assms unfolding is_high_def is_low_def by arith+
  have p: "pair_cp c d - 65536 = (d - 56320) + (c - 55296) * 1024"
    by (simp add: pair_cp_def)
  have "(pair_cp c d - 65536) div 1024 = c - 55296" and "(pair_cp c d - 65536) mod 1024 = d - 56320"
    unfolding p using add_mult_div[OF lo] by simp_all
  moreover have "65536 \<le> pair_cp c d" by (simp add: pair_cp_def)
  moreover have "pair_cp c d \<le> 1114111"
    using hi lo unfolding pair_cp_def by linarith
  ultimately show ?thesis
    using assms by (simp add: utf16_def scalar_def is_high_def is_low_def)
qed

lemma scalar_unit: "c < 65536 \<Longrightarrow> \<not> is_high c \<Longrightarrow> \<not> is_low c \<Longrightarrow> scalar c \<and> utf16 c = [c]"
  by (auto simp: scalar_def is_high_def is_low_def utf16_def)

lemma unreserved_not_percent: "uri_unreserved c \<Longrightarrow> c \<noteq> 37"
  by (auto simp: uri_unreserved_def)

lemma decode_uri_plain: "37 \<notin> set s \<Longrightarrow> decode_uri s = Some s"
  by (induction s) auto

section \<open>Properties of the URI builtins\<close>

text \<open>
  \<open>decodeURIComponent\<close> undoes \<open>encodeURIComponent\<close>: whenever encoding a string
  of UTF-16 code units succeeds, decoding the result gives the string back, surrogate
  pairs and characters outside ASCII included.
\<close>

theorem decode_encode_uri:
  "list_all (\<lambda>c. c < 65536) s \<Longrightarrow> encode_uri s = Some e \<Longrightarrow> decode_uri e = Some s"
proof (induction s arbitrary: e rule: encode_uri.induct)
  case 1
  then show ?case by simp
next
  case (2 c cs)
  show ?case
  proof (cases "uri_unreserved c")
    case True
    with 2(5) obtain e' where "e = c # e'" "encode_uri cs = Some e'" by auto
    with 2(1,4) True show ?thesis by (simp add: unreserved_not_percent)
  next
    case u: False
    show ?thesis
    proof (cases "is_high c")
      case True
      with u 2(5) obtain d ds e' where cs: "cs = d # ds" and d: "is_low d" and "\<not> is_low c"
        and e: "e = escape_cp (pair_cp c d) @ e'" and e': "encode_uri ds = Some e'"
        by (auto split: list.splits if_splits)
      have "decode_uri e' = Some ds" using 2(2)[OF u \<open>\<not> is_low c\<close> True cs d] 2(4) cs e' by simp
      then show ?thesis using utf16_pair[OF True d] by (simp add: e cs decode_uri_escape_cp)
    next
      case False
      with u 2(5) obtain e' where "\<not> is_low c" and e: "e = escape_cp c @ e'" and e': "encode_uri cs = Some e'"
        by (auto split: if_splits)
      have "decode_uri e' = Some cs" using 2(3)[OF u \<open>\<not> is_low c\<close> False] 2(4) e' by simp
      then show ?thesis using scalar_unit[of c] 2(4) False \<open>\<not> is_low c\<close> by (simp add: e decode_uri_escape_cp)
    qed
  qed
qed

text \<open>
  \<open>encodeURIComponent\<close> throws exactly on the strings that are not well-formed
  UTF-16, that is, that hold an unpaired surrogate.
\<close>

theorem encode_uri_defined: "encode_uri s \<noteq> None \<longleftrightarrow> wf_utf16 s"
proof (induction s rule: encode_uri.induct)
  case (2 c cs)
  have "\<not> (is_high c \<and> is_low c)" and "uri_unreserved c \<Longrightarrow> \<not> is_high c \<and> \<not> is_low c"
    by (auto simp: is_high_def is_low_def uri_unreserved_def)
  with 2 show ?case by (auto split: list.splits)
qed simp

lemma decode_encode_uri_witness:
  "decode_uri [37, 69, 48, 37, 66, 56, 37, 65, 65, 37, 70, 48, 37, 57, 70, 37, 57, 56, 37, 56, 48, 37, 50, 53, 97] =
   Some [3626, 55357, 56832, 37, 97]"
proof -
  have "encode_uri [3626, 55357, 56832, 37, 97] =
    Some [37, 69, 48, 37, 66, 56, 37, 65, 65, 37, 70, 48, 37, 57, 70, 37, 57, 56, 37, 56, 48, 37, 50, 53, 97]"
    by (simp add: uri_unreserved_def is_high_def is_low_def escape_cp_def pair_cp_def utf8_encode_def
        hex_escape_def hex_upper_def)
  then show ?thesis using decode_encode_uri[of "[3626, 55357, 56832, 37, 97]"] by simp
qed

end
