(* ===== verification/Auth.thy ===== *)
theory Auth
  imports Uri
begin

text \<open>
  The authentication code: \<open>isAdmin\<close> of \<open>src/src/lib/auth.js\<close> (a bearer secret, HTTP
  Basic credentials, or a cookie flag), the login route \<open>src/src/app/api/admin/login/route.js\<close>
  that sets that flag, the page middleware \<open>src/src/middleware.js\<close>, and the course
  enrolment route \<open>src/src/app/api/course/google/enroll/route.js\<close>. A request is its
  headers and the value \<open>req.json()\<close> resolves to; a response is its status and JSON body,
  or the error that escapes the handler. The regular expressions are modelled as their
  backtracking matchers; \<open>Buffer\<close>'s base64 decoding and the middleware's token check
  (from a module that is not in the repository) are parameters.
\<close>

section \<open>Requests and responses\<close>

record http_req =
  h_authorization :: "ustr option"    \<comment> \<open>\<open>request.headers.get("authorization")\<close>\<close>
  h_cookie :: "ustr option"           \<comment> \<open>\<open>request.headers.get("cookie")\<close>\<close>
  req_body :: "jval option"           \<comment> \<open>what \<open>req.json()\<close> resolves to; \<open>None\<close> when it rejects\<close>

datatype http_resp =
    JsonResp nat jval                 \<comment> \<open>\<open>NextResponse.json(body, { status })\<close>\<close>
  | ErrorResp nat js_error            \<comment> \<open>\<open>NextResponse.json({ error: e.message || ... }, { status })\<close>\<close>
  | CookieResp nat jval ustr ustr     \<comment> \<open>a JSON response that also sets the cookie name=value\<close>
  | Redirect ustr bool                \<comment> \<open>a redirect, and whether it clears the token cookie\<close>
  | NextResp                          \<comment> \<open>\<open>NextResponse.next()\<close>\<close>
  | ServerError js_error              \<comment> \<open>an error that escapes the handler: status 500\<close>

definition env_or :: "ustr option \<Rightarrow> ustr \<Rightarrow> ustr" where
  \<comment> \<open>\<open>process.env.X || d\<close>\<close>
  "env_or v d = (case v of Some s \<Rightarrow> if s = [] then d else s | None \<Rightarrow> d)"

definition header_str :: "ustr option \<Rightarrow> ustr" where
  \<comment> \<open>\<open>headers.get(h) || ""\<close>\<close>
  "header_str v = (case v of Some s \<Rightarrow> s | None \<Rightarrow> [])"

definition body_or_empty :: "http_req \<Rightarrow> jval" where
  \<comment> \<open>\<open>await req.json().catch(() => ({}))\<close>\<close>
  "body_or_empty rq = (case req_body rq of Some j \<Rightarrow> j | None \<Rightarrow> JObj [])"

section \<open>isAdmin\<close>

record auth_env =
  env_ADMIN_USER :: "ustr option"
  env_ADMIN_PASS :: "ustr option"
  env_AUTH_SECRET :: "ustr option"
  b64_utf8 :: "ustr \<Rightarrow> ustr"         \<comment> \<open>\<open>Buffer.from(s, "base64").toString("utf8")\<close>\<close>

definition ascii_lower :: "nat \<Rightarrow> nat" where
  \<comment> \<open>the case folding of the \<open>i\<close> flag without \<open>u\<close>, which relates no code unit above
      127 to one below\<close>
  "ascii_lower c = (if 65 \<le> c \<and> c \<le> 90 then c + 32 else c)"

definition scheme_capture :: "ustr \<Rightarrow> ustr \<Rightarrow> ustr option" where
  \<comment> \<open>the capture of \<open>/^Scheme\s+(.+)$/i\<close>, \<open>w\<close> the scheme in lower case: the splits of \<open>\s+\<close>
      are tried from the longest down, as the greedy quantifier backtracks\<close>
  "scheme_capture w a =
     (if map ascii_lower (take (length w) a) = w then
        (let r = drop (length w) a in
         map_option (\<lambda>k. drop k r)
           (find (\<lambda>k. list_all is_js_ws (take k r) \<and> drop k r \<noteq> [] \<and> list_all (Not \<circ> is_line_term) (drop k r))
                 (rev [1..<Suc (length r)])))
      else None)"

definition parseBasicAuth :: "auth_env \<Rightarrow> ustr \<Rightarrow> (ustr \<times> ustr option) option" where
  \<comment> \<open>\<open>const [u, p] = Buffer.from(m[1], "base64").toString("utf8").split(":")\<close>; \<open>p\<close> is
      \<open>undefined\<close> when there is no colon\<close>
  "parseBasicAuth ae a =
     (case scheme_capture (U ''basic'') a of
        None \<Rightarrow> None
      | Some c \<Rightarrow> (let parts = js_split 58 (b64_utf8 ae c)
                   in Some (hd parts, if 2 \<le> length parts then Some (parts ! 1) else None)))"

definition is_word_char :: "nat \<Rightarrow> bool" where
  \<comment> \<open>\<open>\w\<close>: \<open>[A-Za-z0-9_]\<close>\<close>
  "is_word_char c \<longleftrightarrow> (65 \<le> c \<and> c \<le> 90) \<or> (97 \<le> c \<and> c \<le> 122) \<or> (48 \<le> c \<and> c \<le> 57) \<or> c = 95"

definition admin_cookie :: "ustr \<Rightarrow> bool" where
  \<comment> \<open>\<open>/\badmin=1\b/.test(cookie)\<close>\<close>
  "admin_cookie c \<longleftrightarrow>
     list_ex (\<lambda>i. take 7 (drop i c) = U ''admin=1''
                 \<and> (i = 0 \<or> \<not> is_word_char (c ! (i - 1)))
                 \<and> (length c \<le> i + 7 \<or> \<not> is_word_char (c ! (i + 7)))) [0..<length c]"

definition isAdmin :: "auth_env \<Rightarrow> http_req \<Rightarrow> bool" where
  "isAdmin ae rq \<longleftrightarrow>
     (let user = env_or (env_ADMIN_USER ae) (U ''admin''); pass = env_or (env_ADMIN_PASS ae) (U ''1122'');
          secret = env_or (env_AUTH_SECRET ae) []; a = header_str (h_authorization rq)
      in (case scheme_capture (U ''bearer'') a of Some t \<Rightarrow> secret \<noteq> [] \<and> t = secret | None \<Rightarrow> False)
         \<or> (case parseBasicAuth ae a of Some (u, p) \<Rightarrow> u = user \<and> p = Some pass | None \<Rightarrow> False)
         \<or> admin_cookie (header_str (h_cookie rq)))"

section \<open>The login route\<close>

definition login :: "ustr option \<Rightarrow> http_req \<Rightarrow> http_resp" where
  \<comment> \<open>\<open>POST\<close>, with \<open>process.env.ADMIN_PASSWORD\<close>; destructuring \<open>null\<close> throws\<close>
  "login pw_env rq =
     (let body = body_or_empty rq in
      if body = JNull then ServerError TypeError
      else let pw = opt_prop body (U ''password'') in
           if \<not> truthy_opt pw \<or> pw \<noteq> Some (JStr (env_or pw_env (U ''admin123'')))
           then JsonResp 401 (JObj [(U ''ok'', JBool False), (U ''error'', JStr (U ''invalid_password''))])
           else CookieResp 200 (JObj [(U ''ok'', JBool True)]) (U ''admin'') (U ''1''))"

section \<open>The middleware\<close>

definition cookie_at :: "ustr \<Rightarrow> ustr \<Rightarrow> ustr option" where
  \<comment> \<open>the rest of \<open>\s*${name}=([^;]+)\<close> after the start of a match: the capture, if it
      matches; the name is taken to be a plain word not starting with a space\<close>
  "cookie_at name r =
     (let r1 = dropWhile is_js_ws r; v = takeWhile (\<lambda>c. c \<noteq> 59) (drop (Suc (length name)) r1)
      in if take (Suc (length name)) r1 = name @ [61] \<and> v \<noteq> [] then Some v else None)"

definition getCookie :: "ustr \<Rightarrow> ustr \<Rightarrow> ustr js" where
  \<comment> \<open>\<open>cookieHeader.match(new RegExp(`(?:^|;)\\s*${name}=([^;]+)`))\<close>: a match starts at the
      beginning of the header or at a semicolon, the first from the left that matches; then
      \<open>decodeURIComponent\<close> of the capture, which throws a \<open>URIError\<close> on a bad escape\<close>
  "getCookie hdr name =
     (let starts = hdr # map (\<lambda>i. drop (Suc i) hdr) (filter (\<lambda>i. hdr ! i = 59) [0..<length hdr])
      in case find (\<lambda>r. cookie_at name r \<noteq> None) starts of
           None \<Rightarrow> Inr []
         | Some r \<Rightarrow> (case cookie_at name r of
                        Some v \<Rightarrow> (case decode_uri v of Some s \<Rightarrow> Inr s | None \<Rightarrow> Inl (Thrown (U ''URI malformed'')))
                      | None \<Rightarrow> Inr []))"

definition login_redirect :: "ustr \<Rightarrow> bool \<Rightarrow> http_resp" where
  \<comment> \<open>\<open>/login?next=${encodeURIComponent(url.pathname + url.search)}\<close>\<close>
  "login_redirect path clear =
     (case encode_uri path of Some u \<Rightarrow> Redirect (U ''/login?next='' @ u) clear
                         | None \<Rightarrow> ServerError (Thrown (U ''URI malformed'')))"

definition middleware :: "ustr \<Rightarrow> (ustr \<Rightarrow> ustr \<Rightarrow> bool) \<Rightarrow> ustr option \<Rightarrow> ustr \<Rightarrow> ustr \<Rightarrow> http_resp" where
  \<comment> \<open>for a path under \<open>/admin\<close>: the token cookie's name and \<open>verifyToken\<close> come from
      \<open>@/lib/simpleAuth\<close>, \<open>AUTH_SECRET\<close> defaults to \<open>change_me_now\<close>\<close>
  "middleware name verify secret_env path cookie =
     (case getCookie cookie name of
        Inl err \<Rightarrow> ServerError err
      | Inr c \<Rightarrow> if c = [] then login_redirect path False
                else if verify c (env_or secret_env (U ''change_me_now'')) then NextResp
                else login_redirect path True)"

section \<open>The course enrolment route\<close>

definition course_msg :: "nat \<Rightarrow> ustr \<Rightarrow> http_resp" where
  \<comment> \<open>\<open>NextResponse.json({ ok: false, message }, { status })\<close>\<close>
  "course_msg st m = JsonResp st (JObj [(U ''ok'', JBool False), (U ''message'', JStr m)])"

definition MSG_NEED_USER :: ustr where
  \<comment> \<open>the Thai words for "please enter a user name"\<close>
  "MSG_NEED_USER = [3585, 3619, 3640, 3603, 3634, 3585, 3619, 3629, 3585, 3594, 3639, 3656, 3629, 3612, 3641, 3657, 3651, 3594, 3657]"

definition MSG_WRONG :: ustr where
  \<comment> \<open>the Thai words for "user name or password is wrong"\<close>
  "MSG_WRONG = [3594, 3639, 3656, 3629, 3612, 3641, 3657, 3651, 3594, 3657, 3627, 3619, 3639, 3629, 3619, 3627, 3633, 3626,
                3612, 3656, 3634, 3609, 3652, 3617, 3656, 3606, 3641, 3585, 3605, 3657, 3629, 3591]"

definition expected_username :: "ustr option \<Rightarrow> ustr \<Rightarrow> ustr" where
  \<comment> \<open>\<open>GOOGLE_COURSE_USERNAME\<close> when set and not blank, else \<open>`User${expected}`\<close>\<close>
  "expected_username user_env expected =
     (case user_env of Some s \<Rightarrow> if js_trim s \<noteq> [] then s else U ''User'' @ expected | None \<Rightarrow> U ''User'' @ expected)"

definition enroll :: "ustr option \<Rightarrow> ustr option \<Rightarrow> http_req \<Rightarrow> http_resp" where
  \<comment> \<open>\<open>POST\<close> with \<open>GOOGLE_COURSE_PASSWORD\<close> and \<open>GOOGLE_COURSE_USERNAME\<close>; the body is read
      and destructured inside the \<open>try\<close>, whose \<open>catch\<close> answers 400\<close>
  "enroll pw_env user_env rq =
     (let bad = course_msg 400 (U ''Invalid request'') in
      case req_body rq of
        None \<Rightarrow> bad
      | Some b \<Rightarrow>
          if b = JNull then bad
          else if env_or pw_env [] = [] then course_msg 500 (U ''Server not configured'')
          else let expected = env_or pw_env [] in
            case opt_prop b (U ''username'') of
              Some (JStr name) \<Rightarrow>
                if js_trim name = [] then course_msg 400 MSG_NEED_USER
                else if opt_prop b (U ''password'') = Some (JStr expected) \<and> name = expected_username user_env expected
                then (case encode_uri name of
                        Some safe \<Rightarrow>
                          CookieResp 200 (JObj [(U ''ok'', JBool True), (U ''message'', JStr (U ''Enrolled'')), (U ''username'', JStr name)])
                            (U ''google_course_auth'') safe
                      | None \<Rightarrow> bad)
                else course_msg 401 MSG_WRONG
            | _ \<Rightarrow> course_msg 400 MSG_NEED_USER)"

definition default_auth :: auth_env where
  \<comment> \<open>no variable of the environment set, \<open>Buffer\<close> decoding left abstract as the identity\<close>
  "default_auth = \<lparr>env_ADMIN_USER = None, env_ADMIN_PASS = None, env_AUTH_SECRET = None, b64_utf8 = id\<rparr>"

section \<open>Lemmas\<close>

lemma admin_cookie_at:
  assumes "pre = [] \<or> \<not> is_word_char (last pre)" "post = [] \<or> \<not> is_word_char (hd post)"
  shows "admin_cookie (pre @ U ''admin=1'' @ post)"
proof -
  let ?c = "pre @ U ''admin=1'' @ post"
  have len: "length (U ''admin=1'') = 7" by simp
  have "take 7 (drop (length pre) ?c) = U ''admin=1''" by simp
  moreover have "length pre = 0 \<or> \<not> is_word_char (?c ! (length pre - 1))"
    using assms(1) by (cases pre rule: rev_cases) (auto simp: nth_append)
  moreover have "length ?c \<le> length pre + 7 \<or> \<not> is_word_char (?c ! (length pre + 7))"
    using assms(2) by (cases post) (auto simp: nth_append)
  moreover have "length pre \<in> set [0..<length ?c]" by simp
  ultimately show ?thesis unfolding admin_cookie_def list_ex_iff by blast
qed

lemma scheme_capture_split:
  assumes "map ascii_lower p = w" "sp \<noteq> []" "list_all is_js_ws sp" "rest \<noteq> []" "\<not> is_js_ws (hd rest)"
    and "list_all (Not \<circ> is_line_term) rest"
  shows "scheme_capture w (p @ sp @ rest) = Some rest"
proof -
  let ?P = "\<lambda>k. list_all is_js_ws (take k (sp @ rest)) \<and> drop k (sp @ rest) \<noteq> []
               \<and> list_all (Not \<circ> is_line_term) (drop k (sp @ rest))"
  have lp: "length p = length w" using assms(1) by (metis length_map)
  have "\<not> ?P k" if "length sp < k" for k
  proof -
    have "take k (sp @ rest) = sp @ take (k - length sp) rest" using that by simp
    moreover have "hd rest \<in> set (take (k - length sp) rest)"
      using that assms(4) by (cases rest; cases "k - length sp") auto
    ultimately have "hd rest \<in> set (take k (sp @ rest))" by simp
    then show ?thesis using assms(5) by (auto simp: list_all_iff)
  qed
  then have F: "find ?P (rev [1..<Suc (length (sp @ rest))]) = Some (length sp)"
    using assms(2,3,4,6) by (intro find_desc) (auto simp: Suc_leI)
  have t: "map ascii_lower (take (length w) (p @ sp @ rest)) = w" using assms(1) lp by simp
  have d: "drop (length w) (p @ sp @ rest) = sp @ rest" using lp by simp
  have "scheme_capture w (p @ sp @ rest)
        = map_option (\<lambda>k. drop k (sp @ rest)) (find ?P (rev [1..<Suc (length (sp @ rest))]))"
    unfolding scheme_capture_def Let_def t d by simp_all
  then show ?thesis by (simp only: F option.map) simp
qed

section \<open>Properties\<close>

text \<open>
  C23: The cookie flag opens every write route. Whatever the environment (secret, user,
  password) and whatever the authorization header, a request whose cookie header contains
  \<open>admin=1\<close> between word boundaries, for instance \<open>session=x; admin=1\<close>, is an admin's.
  Nothing signs the flag: any client can send it.
\<close>
theorem isAdmin_cookie_flag:
  assumes "pre = [] \<or> \<not> is_word_char (last pre)" "post = [] \<or> \<not> is_word_char (hd post)"
    and "h_cookie rq = Some (pre @ U ''admin=1'' @ post)"
  shows "isAdmin ae rq"
  using admin_cookie_at[OF assms(1,2)] assms(3) by (simp add: isAdmin_def header_str_def Let_def)

theorem isAdmin_cookie_flag_witness:
  "isAdmin default_auth \<lparr>h_authorization = None, h_cookie = Some (U ''session=x; admin=1''), req_body = None\<rparr>"
  using isAdmin_cookie_flag[of "U ''session=x; ''" "[]" "\<lparr>h_authorization = None, h_cookie = Some (U ''session=x; admin=1''), req_body = None\<rparr>" default_auth]
  by (simp add: is_word_char_def)

text \<open>
  A bearer token is the configured secret. With \<open>AUTH_SECRET\<close> set, a header made of
  \<open>Bearer\<close> in any letter case, a run of white space and the secret (not starting with
  white space, without line terminators) makes the request an admin's: the greedy
  \<open>\s+\<close> takes the whole run and the capture is exactly the secret.
\<close>
theorem isAdmin_bearer:
  assumes "env_AUTH_SECRET ae = Some secret" "secret \<noteq> []" "\<not> is_js_ws (hd secret)"
    and "list_all (Not \<circ> is_line_term) secret" "sp \<noteq> []" "list_all is_js_ws sp"
    and "map ascii_lower b = U ''bearer''" "h_authorization rq = Some (b @ sp @ secret)"
  shows "isAdmin ae rq"
  using scheme_capture_split[OF assms(7,5,6,2,3,4)] assms(1,2,8)
  by (simp add: isAdmin_def env_or_def header_str_def Let_def)

theorem isAdmin_bearer_witness:
  "isAdmin (default_auth\<lparr>env_AUTH_SECRET := Some (U ''s3cret'')\<rparr>)
     \<lparr>h_authorization = Some (U ''Bearer s3cret''), h_cookie = None, req_body = None\<rparr>"
  using isAdmin_bearer[of "default_auth\<lparr>env_AUTH_SECRET := Some (U ''s3cret'')\<rparr>" "U ''s3cret''" "[32]" "U ''Bearer''"
      "\<lparr>h_authorization = Some (U ''Bearer s3cret''), h_cookie = None, req_body = None\<rparr>"]
  by (simp add: default_auth_def is_js_ws_def is_line_term_def ascii_lower_def)

text \<open>
  The login route sets the admin flag exactly for the password \<open>ADMIN_PASSWORD\<close>
  (\<open>admin123\<close> when unset), a different variable and default from the \<open>ADMIN_PASS\<close> that
  \<open>isAdmin\<close> checks for Basic credentials.
\<close>
theorem login_sets_flag:
  "login pw_env rq = CookieResp 200 (JObj [(U ''ok'', JBool True)]) (U ''admin'') (U ''1'')
   \<longleftrightarrow> opt_prop (body_or_empty rq) (U ''password'') = Some (JStr (env_or pw_env (U ''admin123'')))"
proof -
  have ne: "env_or pw_env (U ''admin123'') \<noteq> []" by (simp add: env_or_def split: option.splits)
  show ?thesis
  proof (cases "body_or_empty rq = JNull")
    case True
    then show ?thesis by (simp add: login_def opt_prop_def)
  next
    case False
    have t: "truthy_opt (Some (JStr (env_or pw_env (U ''admin123''))))" using ne by (simp add: truthy_opt_def)
    show ?thesis using False t by (auto simp add: login_def Let_def)
  qed
qed

end
