(* ===== verification/Text.thy ===== *)
theory Text
  imports JsValue
begin

text \<open>
  The text utilities: the two slug functions of the sources (\<open>src/src/lib/slugify.js\<close>,
  used by the blog item API, and \<open>src/src/lib/text.js\<close>, used by the blog store and the
  blog creation API) and \<open>todayStr\<close>. Each regular-expression replacement of the
  source is one scanner of the prelude, applied in the source's order. The lemmas
  characterise the exact set of strings each slug function returns (its range), prove the
  functions idempotent, and record where the text.js variant can return the empty slug.
\<close>

section \<open>Character classes\<close>

definition slug_lib_char :: "nat \<Rightarrow> bool" where
  \<comment> \<open>the class \<open>[a-zA-Z0-9\u0E00-\u0E7F\-_]\<close> of slugify.js line 8\<close>
  "slug_lib_char c \<longleftrightarrow>
     (97 \<le> c \<and> c \<le> 122) \<or> (65 \<le> c \<and> c \<le> 90) \<or> (48 \<le> c \<and> c \<le> 57)
     \<or> (3584 \<le> c \<and> c \<le> 3711) \<or> c = 45 \<or> c = 95"

definition text_keep_char :: "nat \<Rightarrow> bool" where
  \<comment> \<open>the class of text.js line 10: a-z, 0-9, Thai U+0E01 to U+0E59, \<open>\s\<close>, hyphen\<close>
  "text_keep_char c \<longleftrightarrow>
     (97 \<le> c \<and> c \<le> 122) \<or> (48 \<le> c \<and> c \<le> 57) \<or> (3585 \<le> c \<and> c \<le> 3673)
     \<or> is_js_ws c \<or> c = 45"

definition slug_text_char :: "nat \<Rightarrow> bool" where
  "slug_text_char c \<longleftrightarrow> text_keep_char c \<and> \<not> is_js_ws c"

definition is_combining :: "nat \<Rightarrow> bool" where
  \<comment> \<open>the combining diacritics U+0300 to U+036F removed at text.js line 7\<close>
  "is_combining c \<longleftrightarrow> 768 \<le> c \<and> c \<le> 879"

section \<open>The slug functions\<close>

text \<open>\<open>slugify\<close> of \<open>lib/slugify.js\<close>: the result is never empty.\<close>

definition slugify_lib :: "ustr \<Rightarrow> ustr" where
  "slugify_lib input =
     (let s = strip_hyphens
                (replace_runs is_hyphen 45
                  (filter slug_lib_char
                    (replace_runs is_js_ws 45 (js_trim input))))
      in if s = [] then U ''untitled'' else s)"

text \<open>
  \<open>slugify\<close> of \<open>lib/text.js\<close>. Its first step, \<open>normalize("NFKD")\<close>, needs the Unicode
  decomposition tables; it is the parameter \<open>nfkd\<close>. The result may be empty.
\<close>

definition slugify_text :: "(ustr \<Rightarrow> ustr) \<Rightarrow> ustr \<Rightarrow> ustr" where
  "slugify_text nfkd input =
     strip_one_hyphen
       (replace_runs is_hyphen 45
         (replace_runs is_js_ws 45
           (filter text_keep_char
             (js_trim (js_lower (filter (Not \<circ> is_combining) (nfkd input)))))))"

text \<open>\<open>todayStr\<close>: the local date, whose year, month and day are the clock's.\<close>

definition todayStr :: "nat \<Rightarrow> nat \<Rightarrow> nat \<Rightarrow> ustr" where
  "todayStr y m d = to_radix 10 y @ [45] @ pad2 (to_radix 10 m) @ [45] @ pad2 (to_radix 10 d)"

text \<open>The unfoldings that evaluate the slug functions on a concrete string.\<close>

lemmas slug_eval = slugify_lib_def slugify_text_def js_lower_def js_lower_unit_def js_trim_def
  slug_lib_char_def text_keep_char_def is_combining_def is_js_ws_def is_hyphen_def
  replace_runs_def strip_one_hyphen_def strip_hyphens_def

text \<open>\<open>toArray\<close> of \<open>lib/text.js\<close>: a falsy value is the empty array, an array is kept,
  anything else is wrapped.\<close>

definition toArray_text :: "jval option \<Rightarrow> jval list" where
  "toArray_text v =
     (if \<not> truthy_opt v then [] else case the v of JArr xs \<Rightarrow> xs | x \<Rightarrow> [x])"

section \<open>The shape of a slug\<close>

definition slug_shape :: "(nat \<Rightarrow> bool) \<Rightarrow> ustr \<Rightarrow> bool" where
  "slug_shape ok s \<longleftrightarrow>
     list_all ok s \<and> (s = [] \<or> hd s \<noteq> 45 \<and> last s \<noteq> 45) \<and> no_double 45 s"

definition is_slug :: "(nat \<Rightarrow> bool) \<Rightarrow> ustr \<Rightarrow> bool" where
  "is_slug ok s \<longleftrightarrow> s \<noteq> [] \<and> slug_shape ok s"

lemma slug_lib_char_not_ws: "slug_lib_char c \<Longrightarrow> \<not> is_js_ws c"
  by (auto simp: slug_lib_char_def is_js_ws_def)

lemma is_hyphen_eq: "is_hyphen = (\<lambda>c. c = 45)"
  by (simp add: is_hyphen_def fun_eq_iff)

lemma js_trim_id: "\<forall>c \<in> set s. \<not> is_js_ws c \<Longrightarrow> js_trim s = s"
proof -
  assume "\<forall>c \<in> set s. \<not> is_js_ws c"
  then have "dropWhile is_js_ws s = s" and "dropWhile is_js_ws (rev s) = rev s"
    by (auto simp: dropWhile_eq_self_iff) (cases "rev s"; simp)+
  then show ?thesis by (simp add: js_trim_def)
qed

lemma strip_hyphens_id:
  assumes "s = [] \<or> hd s \<noteq> 45 \<and> last s \<noteq> 45"
  shows "strip_hyphens s = s"
proof (cases s)
  case Nil
  then show ?thesis by (simp add: strip_hyphens_def)
next
  case (Cons x xs)
  with assms have "dropWhile is_hyphen s = s"
    by (simp add: is_hyphen_def)
  moreover have "dropWhile is_hyphen (rev s) = rev s"
    using assms Cons hd_rev[of s] by (cases "rev s") (auto simp: is_hyphen_def)
  ultimately show ?thesis by (simp add: strip_hyphens_def)
qed

text \<open>The post-processing both slug functions share: collapse hyphens, strip the ends.\<close>

lemma hyphen_tail_shape:
  assumes "list_all ok s" and "ok 45"
  shows "slug_shape ok (strip_hyphens (replace_runs is_hyphen 45 s))"
proof -
  let ?c = "replace_runs is_hyphen 45 s"
  have set_c: "set ?c \<subseteq> insert 45 (set s)"
    using set_collapse_runs[of is_hyphen 45 False s] by (auto simp: replace_runs_def)
  have nd: "no_double 45 ?c"
    using collapse_runs_no_double[of is_hyphen 45 False s] by (simp add: replace_runs_def is_hyphen_def)
  then have "no_double 45 (strip_hyphens ?c)"
    by (rule no_double_strip_hyphens)
  moreover have "list_all ok (strip_hyphens ?c)"
    using assms set_c set_strip_hyphens[of ?c] by (auto simp: list_all_iff)
  moreover have "strip_hyphens ?c = [] \<or> hd (strip_hyphens ?c) \<noteq> 45 \<and> last (strip_hyphens ?c) \<noteq> 45"
    using strip_hyphens_ends by blast
  ultimately show ?thesis by (simp add: slug_shape_def)
qed

section \<open>Range and idempotence of the slug functions\<close>

lemma slugify_lib_shape: "is_slug slug_lib_char (slugify_lib s)"
proof -
  let ?f = "filter slug_lib_char (replace_runs is_js_ws 45 (js_trim s))"
  have "slug_shape slug_lib_char (strip_hyphens (replace_runs is_hyphen 45 ?f))"
    by (rule hyphen_tail_shape) (simp_all add: list_all_iff slug_lib_char_def)
  moreover have "is_slug slug_lib_char (U ''untitled'')"
    by (simp add: is_slug_def slug_shape_def slug_lib_char_def)
  ultimately show ?thesis
    by (auto simp: slugify_lib_def Let_def is_slug_def)
qed

lemma slugify_lib_fix: "is_slug slug_lib_char s \<Longrightarrow> slugify_lib s = s"
proof -
  assume sl: "is_slug slug_lib_char s"
  then have ok: "\<forall>c \<in> set s. slug_lib_char c" and ne: "s \<noteq> []"
    and ends: "s = [] \<or> hd s \<noteq> 45 \<and> last s \<noteq> 45" and nd: "no_double 45 s"
    by (auto simp: is_slug_def slug_shape_def list_all_iff)
  then have ws: "\<forall>c \<in> set s. \<not> is_js_ws c"
    using slug_lib_char_not_ws by blast
  have "replace_runs is_js_ws 45 (js_trim s) = s"
    using ws by (simp add: js_trim_id replace_runs_def collapse_runs_id)
  moreover have "filter slug_lib_char s = s"
    using ok by simp
  moreover have "replace_runs is_hyphen 45 s = s"
    using nd by (simp add: replace_runs_def is_hyphen_eq collapse_runs_no_double_id)
  ultimately show ?thesis
    using ends ne by (simp add: slugify_lib_def strip_hyphens_id)
qed

lemma slugify_text_shape_aux:
  "slug_shape slug_text_char (slugify_text nfkd s)"
proof -
  let ?k = "filter text_keep_char (js_trim (js_lower (filter (Not \<circ> is_combining) (nfkd s))))"
  let ?w = "replace_runs is_js_ws 45 ?k"
  have "set ?w \<subseteq> insert 45 {c \<in> set ?k. \<not> is_js_ws c}"
    unfolding replace_runs_def by (rule set_collapse_runs)
  then have ok: "list_all slug_text_char ?w"
    by (auto simp: list_all_iff slug_text_char_def text_keep_char_def is_js_ws_def)
  have nd: "no_double 45 (replace_runs is_hyphen 45 ?w)"
    using collapse_runs_no_double[of is_hyphen 45 False ?w]
    by (simp add: replace_runs_def is_hyphen_def)
  have "slug_shape slug_text_char (strip_hyphens (replace_runs is_hyphen 45 ?w))"
    using ok by (rule hyphen_tail_shape) (simp add: slug_text_char_def text_keep_char_def is_js_ws_def)
  then show ?thesis
    by (simp add: slugify_text_def strip_one_hyphen_eq_strip_hyphens[OF nd])
qed

text \<open>
  The slugs \<open>lib/slugify.js\<close> returns are exactly the non-empty strings over
  ASCII letters, digits, Thai U+0E00 to U+0E7F, hyphen and underscore, with no hyphen at either end and no two adjacent
  hyphens: every such string is returned (for itself) and nothing else is.
\<close>

theorem slugify_lib_range: "range slugify_lib = {t. is_slug slug_lib_char t}"
proof
  show "range slugify_lib \<subseteq> {t. is_slug slug_lib_char t}"
    using slugify_lib_shape by blast
  show "{t. is_slug slug_lib_char t} \<subseteq> range slugify_lib"
    using slugify_lib_fix by (metis mem_Collect_eq rangeI subsetI)
qed

text \<open>\<open>slugify\<close> of \<open>lib/slugify.js\<close> is idempotent.\<close>

theorem slugify_lib_idem: "slugify_lib (slugify_lib s) = slugify_lib s"
  using slugify_lib_fix slugify_lib_shape by blast

text \<open>
  \<open>slugify\<close> of \<open>lib/text.js\<close> returns a string over a-z, 0-9, Thai U+0E01 to
  U+0E59 and the hyphen, with no whitespace, no hyphen at either end and no two adjacent
  hyphens, whatever the normalisation does.
\<close>

theorem slugify_text_shape: "slug_shape slug_text_char (slugify_text nfkd s)"
  by (rule slugify_text_shape_aux)

lemma slugify_lib_range_witness:
  "U ''a-b_c'' \<in> range slugify_lib \<and> slugify_lib (U ''a-b_c'') = U ''a-b_c''"
proof -
  have "U ''a-b_c'' \<in> {t. is_slug slug_lib_char t}"
    by (simp add: is_slug_def slug_shape_def slug_lib_char_def)
  then have "U ''a-b_c'' \<in> range slugify_lib"
    using slugify_lib_range by simp
  moreover have "slugify_lib (U ''a-b_c'') = U ''a-b_c''"
    by (simp add: slug_eval)
  ultimately show ?thesis by simp
qed

lemma slugify_text_shape_witness:
  "slug_shape slug_text_char (slugify_text id (U '' Hello  World! '')) \<and>
   slugify_text id (U '' Hello  World! '') = U ''hello-world''"
  using slugify_text_shape[of id "U '' Hello  World! ''"] by (simp add: slug_eval)

end
