(* ===== verification/JsonFile.thy ===== *)
theory JsonFile
  imports Text "HOL-Library.List_Lexorder" "HOL-Library.Multiset"
begin

text \<open>
  What the two JSON-file stores (\<open>src/src/lib/blogStore.js\<close>,
  \<open>src/src/lib/postsStore.js\<close>) share: the file as \<open>JSON.parse\<close> reads it (missing,
  unparsable, or a document), the request's environment, the \<open>slug\<close> field of an item and
  the test \<open>x.slug === s\<close>, JavaScript's stable \<open>Array.prototype.sort\<close> with a
  descending key, and the invariant both stores mean to keep: the items are objects with
  non-empty, distinct string slugs. The lemmas relate the callback-throwing array methods to
  HOL's list functions on such items, and show that the invariant survives the JSON round
  trip of a write and a read.
\<close>

section \<open>State and environment\<close>

datatype doc = Missing | Unparsable | Doc jval

record env =
  now :: nat                     \<comment> \<open>\<open>Date.now()\<close>\<close>
  ymd :: "nat \<times> nat \<times> nat"       \<comment> \<open>local year, month, day for \<open>todayStr()\<close>\<close>
  nfkd :: "ustr \<Rightarrow> ustr"          \<comment> \<open>\<open>String.prototype.normalize("NFKD")\<close>\<close>

definition SLUG :: ustr where "SLUG = U ''slug''"
definition TITLE :: ustr where "TITLE = U ''title''"

definition slug_is :: "ustr \<Rightarrow> jval \<Rightarrow> bool js" where
  \<comment> \<open>\<open>x => x.slug === slug\<close>\<close>
  "slug_is s x = js_bind (get_prop x SLUG) (\<lambda>v. Inr (v = Some (JStr s)))"

section \<open>Stable sort with a descending key\<close>

text \<open>
  JavaScript's sort is stable, so sorting with the comparator \<open>(a, b) => key b - key a\<close>
  (or \<open>key b . localeCompare (key a)\<close>) is the insertion sort below: an element goes after
  every element whose key is not smaller.
\<close>

fun insort_desc :: "('a \<Rightarrow> 'k::linorder) \<Rightarrow> 'a \<Rightarrow> 'a list \<Rightarrow> 'a list" where
  "insort_desc f x [] = [x]"
| "insort_desc f x (y # ys) = (if f y < f x then x # y # ys else y # insort_desc f x ys)"

definition sort_desc :: "('a \<Rightarrow> 'k::linorder) \<Rightarrow> 'a list \<Rightarrow> 'a list" where
  "sort_desc f xs = foldl (\<lambda>acc x. insort_desc f x acc) [] xs"

fun js_map :: "('a \<Rightarrow> 'b js) \<Rightarrow> 'a list \<Rightarrow> 'b list js" where
  "js_map f [] = Inr []"
| "js_map f (x # xs) = js_bind (f x) (\<lambda>y. js_bind (js_map f xs) (\<lambda>ys. Inr (y # ys)))"

section \<open>The store invariant\<close>

fun is_obj :: "jval \<Rightarrow> bool" where
  "is_obj (JObj fs) = True"
| "is_obj _ = False"

definition item_slug :: "jval \<Rightarrow> jval option" where
  "item_slug x = (case x of JObj fs \<Rightarrow> map_of fs SLUG | _ \<Rightarrow> None)"

definition has_slug :: "ustr \<Rightarrow> jval \<Rightarrow> bool" where
  "has_slug s x \<longleftrightarrow> item_slug x = Some (JStr s)"

definition good_slug :: "jval \<Rightarrow> bool" where
  \<comment> \<open>a non-empty string slug\<close>
  "good_slug x = (case item_slug x of Some (JStr s) \<Rightarrow> s \<noteq> [] | _ \<Rightarrow> False)"

definition store_inv :: "jval list \<Rightarrow> bool" where
  \<comment> \<open>what the store means to keep: objects with non-empty, distinct string slugs\<close>
  "store_inv xs \<longleftrightarrow> list_all is_obj xs \<and> list_all good_slug xs \<and> distinct (map item_slug xs)"

definition slug_str :: "jval \<Rightarrow> ustr" where
  "slug_str x = (case item_slug x of Some (JStr s) \<Rightarrow> s | _ \<Rightarrow> [])"

section \<open>Lemmas on the file and the items\<close>

lemma slug_is_obj: "is_obj x \<Longrightarrow> slug_is s x = Inr (has_slug s x)"
  by (cases x) (simp_all add: slug_is_def has_slug_def item_slug_def)

lemma json_roundtrip_JStr_iff [simp]: "json_roundtrip v = JStr s \<longleftrightarrow> v = JStr s"
  by (cases v rule: json_roundtrip.cases) auto

lemma is_obj_json_roundtrip [simp]: "is_obj (json_roundtrip x) = is_obj x"
  by (cases x rule: json_roundtrip.cases) auto

lemma item_slug_json_roundtrip:
  "item_slug (json_roundtrip x) = map_option json_roundtrip (item_slug x)"
  by (cases x rule: json_roundtrip.cases) (auto simp: item_slug_def map_of_map)

lemma has_slug_json_roundtrip [simp]: "has_slug s (json_roundtrip x) = has_slug s x"
  by (auto simp: has_slug_def item_slug_json_roundtrip)

lemma good_slug_json_roundtrip [simp]: "good_slug (json_roundtrip x) = good_slug x"
  by (cases "item_slug x") (auto simp: good_slug_def item_slug_json_roundtrip split: jval.splits
      elim: json_roundtrip.elims)

lemma good_slugE:
  assumes "good_slug x"
  obtains s where "item_slug x = Some (JStr s)" and "s \<noteq> []"
  using assms by (auto simp: good_slug_def split: option.splits jval.splits)

lemma item_slug_json_roundtrip_good: "good_slug x \<Longrightarrow> item_slug (json_roundtrip x) = item_slug x"
  by (erule good_slugE) (simp add: item_slug_json_roundtrip)

lemma store_inv_roundtrip: "store_inv (map json_roundtrip xs) = store_inv xs"
proof (cases "list_all good_slug xs")
  case True
  then have eq: "map item_slug (map json_roundtrip xs) = map item_slug xs"
    by (simp add: list_all_iff item_slug_json_roundtrip_good)
  have "list_all is_obj (map json_roundtrip xs) = list_all is_obj xs"
    and "list_all good_slug (map json_roundtrip xs) = list_all good_slug xs"
    by (simp_all add: list_all_iff)
  then show ?thesis by (simp only: store_inv_def eq)
next
  case False
  then show ?thesis by (auto simp: store_inv_def list_all_iff)
qed

lemmas slug_pure = js_find_pure js_some_pure js_find_index_pure js_filter_pure

lemma find_slug_objs:
  "list_all is_obj xs \<Longrightarrow> js_find (slug_is s) xs = Inr (find (has_slug s) xs)"
  "list_all is_obj xs \<Longrightarrow> js_some (slug_is s) xs = Inr (list_ex (has_slug s) xs)"
  "list_all is_obj xs \<Longrightarrow> js_find_index (slug_is s) xs = Inr (find_index_of (has_slug s) xs)"
  by (auto intro!: slug_pure simp: list_all_iff slug_is_obj)

lemma item_slug_JObj [simp]: "item_slug (JObj fs) = map_of fs SLUG"
  by (simp add: item_slug_def)

lemma find_has_slug_append:
  "\<not> list_ex (has_slug s) xs \<Longrightarrow> has_slug s y \<Longrightarrow> find (has_slug s) (xs @ [y]) = Some y"
  by (induction xs) auto

lemma distinct_update_iff:
  assumes "distinct xs" and "i < length xs"
  shows "distinct (xs[i := a]) \<longleftrightarrow> a \<notin> set xs - {xs ! i}"
proof
  assume d: "distinct (xs[i := a])"
  show "a \<notin> set xs - {xs ! i}"
  proof
    assume "a \<in> set xs - {xs ! i}"
    then obtain j where j: "j < length xs" "xs ! j = a" "j \<noteq> i"
      by (auto simp: in_set_conv_nth)
    then have "xs[i := a] ! j = xs[i := a] ! i"
      using assms(2) by simp
    with d j assms(2) show False
      unfolding distinct_conv_nth by (metis length_list_update)
  qed
next
  assume "a \<notin> set xs - {xs ! i}"
  with assms(1) show "distinct (xs[i := a])" by (rule distinct_list_update)
qed

lemma store_inv_snoc:
  "store_inv (xs @ [y]) \<longleftrightarrow> store_inv xs \<and> is_obj y \<and> good_slug y \<and> item_slug y \<notin> set (map item_slug xs)"
  by (auto simp: store_inv_def)

lemma has_slug_slug_str: "has_slug s x \<Longrightarrow> slug_str x = s"
  by (simp add: has_slug_def slug_str_def)

lemma find_index_of_find: "find_index_of q xs = Some i \<Longrightarrow> find q xs = Some (xs ! i)"
proof (induction xs arbitrary: i)
  case (Cons x xs)
  then show ?case by (auto split: if_splits)
qed simp

lemma map_of_rev_distinct: "distinct (map fst ps) \<Longrightarrow> map_of (rev ps) = map_of ps"
proof (induction ps)
  case (Cons p ps)
  then show ?case
    by (cases p) (force simp: map_add_def fun_eq_iff split: option.splits dest: map_of_SomeD)
qed simp

lemma update_unique_map:
  assumes "distinct (map item_slug xs)" and "find_index_of (has_slug s) xs = Some i"
  shows "xs[i := u] = map (\<lambda>x. if has_slug s x then u else x) xs"
proof (rule nth_equalityI)
  fix j assume j: "j < length (xs[i := u])"
  have i: "i < length xs" and hi: "has_slug s (xs ! i)"
    using find_index_of_Some[OF assms(2)] by auto
  have "\<not> has_slug s (xs ! j)" if "j \<noteq> i"
  proof
    assume "has_slug s (xs ! j)"
    then have "item_slug (xs ! j) = item_slug (xs ! i)"
      using hi by (simp add: has_slug_def)
    with assms(1) i j that show False
      by (auto simp: distinct_conv_nth)
  qed
  then show "xs[i := u] ! j = map (\<lambda>x. if has_slug s x then u else x) xs ! j"
    using j hi by (cases "j = i") auto
qed simp

section \<open>The stable sort\<close>

lemma mset_insort_desc [simp]: "mset (insort_desc f x xs) = add_mset x (mset xs)"
  by (induction xs) auto

lemma set_insort_desc [simp]: "set (insort_desc f x xs) = insert x (set xs)"
  by (induction xs) auto

lemma mset_sort_desc: "mset (sort_desc f xs) = mset xs"
proof -
  have "mset (foldl (\<lambda>acc x. insort_desc f x acc) acc xs) = mset acc + mset xs" for acc
    by (induction xs arbitrary: acc) (auto simp: add_mset_commute)
  then show ?thesis by (simp add: sort_desc_def)
qed

lemma sorted_insort_desc:
  "sorted_wrt (\<lambda>a b. f b \<le> f a) xs \<Longrightarrow> sorted_wrt (\<lambda>a b. f b \<le> f a) (insort_desc f x xs)"
  by (induction xs) (auto simp: not_less)

lemma sorted_sort_desc: "sorted_wrt (\<lambda>a b. f b \<le> f a) (sort_desc f xs)"
proof -
  have "sorted_wrt (\<lambda>a b. f b \<le> f a) acc \<Longrightarrow>
        sorted_wrt (\<lambda>a b. f b \<le> f a) (foldl (\<lambda>acc x. insort_desc f x acc) acc xs)" for acc
    by (induction xs arbitrary: acc) (auto intro: sorted_insort_desc)
  then show ?thesis by (simp add: sort_desc_def)
qed

lemma filter_insort_desc:
  "sorted_wrt (\<lambda>a b. f b \<le> f a) xs \<Longrightarrow>
   filter (\<lambda>y. f y = k) (insort_desc f x xs) = filter (\<lambda>y. f y = k) xs @ (if f x = k then [x] else [])"
proof (induction xs)
  case (Cons y ys)
  show ?case
  proof (cases "f y < f x")
    case True
    with Cons.prems have "\<forall>z\<in>set ys. f z < f x" by auto
    then have "filter (\<lambda>z. f z = f x) ys = []" by (auto simp: filter_empty_conv)
    with True show ?thesis by auto
  next
    case False
    with Cons show ?thesis by auto
  qed
qed simp

lemma filter_sort_desc: "filter (\<lambda>y. f y = k) (sort_desc f xs) = filter (\<lambda>y. f y = k) xs"
proof -
  have "sorted_wrt (\<lambda>a b. f b \<le> f a) acc \<Longrightarrow>
     filter (\<lambda>y. f y = k) (foldl (\<lambda>acc x. insort_desc f x acc) acc xs) =
     filter (\<lambda>y. f y = k) acc @ filter (\<lambda>y. f y = k) xs" for acc
    by (induction xs arbitrary: acc) (simp_all add: filter_insort_desc sorted_insort_desc)
  then show ?thesis by (simp add: sort_desc_def)
qed

lemma sort_desc_pairs:
  "map fst (sort_desc snd (zip xs (map g xs))) = sort_desc g xs"
proof -
  have i: "insort_desc snd (x, g x) (map (\<lambda>y. (y, g y)) ys) = map (\<lambda>y. (y, g y)) (insort_desc g x ys)" for x ys
    by (induction ys) auto
  have "foldl (\<lambda>acc x. insort_desc snd x acc) (map (\<lambda>y. (y, g y)) acc) (map (\<lambda>y. (y, g y)) xs) =
        map (\<lambda>y. (y, g y)) (foldl (\<lambda>acc x. insort_desc g x acc) acc xs)" for acc
    by (induction xs arbitrary: acc) (simp_all add: i)
  from this[of "[]"] show ?thesis
    by (simp add: sort_desc_def zip_map2 zip_same_conv_map comp_def)
qed

lemma js_map_pure: "\<forall>x\<in>set xs. f x = Inr (g x) \<Longrightarrow> js_map f xs = Inr (map g xs)"
  by (induction xs) (simp_all add: js_bind_def)

lemma find_unique_perm:
  assumes "filter P xs = [x]" and "mset ys = mset xs"
  shows "find P ys = Some x"
proof -
  have "mset (filter P ys) = {#x#}"
    using assms by (metis mset.simps(1,2) mset_filter)
  then have "filter P ys = [x]" by (simp only: mset_single_iff)
  then show ?thesis
    by (induction ys) (auto split: if_splits)
qed

end
