(* ===== verification/BlogStore.thy ===== *)
theory BlogStore
  imports JsonFile
begin

text \<open>
  The blog store, \<open>src/src/lib/blogStore.js\<close>. Its state is the content of
  \<open>data/blog.json\<close> as \<open>JSON.parse\<close> reads it: missing, unparsable, or a document.
  Each exported operation is one function of the request's environment (the clock, the
  local date, Unicode normalisation), its arguments and the file, returning its result and
  the file it leaves, or the error it throws (the file is then unchanged). An item is a
  JSON object; the store reads its \<open>slug\<close> and \<open>date\<close> fields and nothing else.
\<close>

definition ITEMS :: ustr where "ITEMS = U ''items''"
definition DATE :: ustr where "DATE = U ''date''"

definition ensureDataFile :: "doc \<Rightarrow> doc" where
  \<comment> \<open>a missing file is created as \<open>{ items: [] }\<close>\<close>
  "ensureDataFile d = (case d of Missing \<Rightarrow> Doc (JObj [(ITEMS, JArr [])]) | _ \<Rightarrow> d)"

definition loadAll :: "doc \<Rightarrow> (jval list \<times> doc) js" where
  "loadAll d =
     (let d' = ensureDataFile d in
      case d' of
        Unparsable \<Rightarrow> Inl SyntaxError
      | Doc j \<Rightarrow> js_bind (get_prop j ITEMS)
                  (\<lambda>v. Inr (case v of Some (JArr xs) \<Rightarrow> xs | _ \<Rightarrow> [], d'))
      | Missing \<Rightarrow> Inr ([], d'))"

definition saveAll :: "jval list \<Rightarrow> doc" where
  \<comment> \<open>the file written, as the next read sees it\<close>
  "saveAll items = Doc (JObj [(ITEMS, JArr (map json_roundtrip (toArray_text (Some (JArr items)))))])"

definition date_key :: "jval \<Rightarrow> ustr js" where
  \<comment> \<open>\<open>String(x.date || "")\<close>\<close>
  "date_key x = js_bind (get_prop x DATE) (\<lambda>v. Inr (js_String (or_default v (JStr []))))"

section \<open>listArticles\<close>

text \<open>
  \<open>localeCompare\<close> is modelled as the order of code units, which is the collation of
  the ISO dates (\<open>YYYY-MM-DD\<close>) the store writes. JavaScript's sort is stable, so the
  result is the insertion sort below: an element goes after every element whose key is not
  smaller. With two or more items the comparator reads every item's \<open>date\<close>.
\<close>

definition listArticles :: "doc \<Rightarrow> (jval list \<times> doc) js" where
  "listArticles d =
     js_bind (loadAll d) (\<lambda>(items, d1).
       if length items < 2 then Inr (items, d1)
       else js_bind (js_map date_key items) (\<lambda>ks.
              Inr (map fst (sort_desc snd (zip items ks)), d1)))"

section \<open>getBlog\<close>

definition getBlog :: "ustr \<Rightarrow> doc \<Rightarrow> (jval option \<times> doc) js" where
  "getBlog slug d =
     (if slug = [] then Inr (None, d)
      else js_bind (loadAll d) (\<lambda>(items, d1).
             js_bind (js_find (slug_is slug) items) (\<lambda>r. Inr (r, d1))))"

section \<open>createArticle\<close>

definition DEFAULT_TITLE :: ustr where
  \<comment> \<open>the Thai words for "new article"\<close>
  "DEFAULT_TITLE = [3610, 3607, 3588, 3623, 3634, 3617, 3651, 3627, 3617, 3656]"

definition time_suffix :: "nat \<Rightarrow> ustr" where
  \<comment> \<open>\<open>Date.now().toString(36).slice(-4)\<close>\<close>
  "time_suffix n = (let r = to_radix 36 n in drop (length r - 4) r)"

definition title_of :: "(ustr \<times> jval) list \<Rightarrow> ustr js" where
  \<comment> \<open>\<open>payload.title?.trim() || "..."\<close>: \<open>trim\<close> of a non-string throws\<close>
  "title_of p =
     (case map_of p TITLE of
        None \<Rightarrow> Inr DEFAULT_TITLE
      | Some JNull \<Rightarrow> Inr DEFAULT_TITLE
      | Some (JStr s) \<Rightarrow> Inr (if js_trim s = [] then DEFAULT_TITLE else js_trim s)
      | Some _ \<Rightarrow> Inl TypeError)"

definition base_slug :: "env \<Rightarrow> (ustr \<times> jval) list \<Rightarrow> ustr \<Rightarrow> ustr" where
  \<comment> \<open>\<open>(payload.slug && slugify(payload.slug)) || slugify(title) || `post-${Date.now()}`\<close>\<close>
  "base_slug e p title =
     (let s1 = (if truthy_opt (map_of p SLUG) then slugify_text (nfkd e) (js_String (the (map_of p SLUG)))
                else []);
          s2 = slugify_text (nfkd e) title
      in if s1 \<noteq> [] then s1 else if s2 \<noteq> [] then s2 else U ''post-'' @ to_radix 10 (now e))"

definition field_or :: "(ustr \<times> jval) list \<Rightarrow> string \<Rightarrow> jval \<Rightarrow> ustr \<times> jval" where
  \<comment> \<open>\<open>k: payload.k || d\<close>\<close>
  "field_or p k d = (U k, or_default (map_of p (U k)) d)"

definition new_item :: "env \<Rightarrow> (ustr \<times> jval) list \<Rightarrow> ustr \<Rightarrow> ustr \<Rightarrow> jval" where
  "new_item e p slug title =
     JObj [(SLUG, JStr slug), (TITLE, JStr title),
           field_or p ''date'' (JStr (case ymd e of (y, m, dd) \<Rightarrow> todayStr y m dd)),
           field_or p ''excerpt'' (JStr []),
           (U ''tags'', JArr (toArray_text (Some (or_default (map_of p (U ''tags'')) (JArr []))))),
           field_or p ''author'' (JStr []),
           field_or p ''authorUrl'' (JStr []),
           field_or p ''thumbnail'' (JStr []),
           field_or p ''coverUrl'' (JStr []),
           field_or p ''imageAlt'' (JStr []),
           field_or p ''imageCaption'' (JStr []),
           field_or p ''imageWidth'' (JStr []),
           field_or p ''imageHeight'' (JStr []),
           field_or p ''inLanguage'' (JStr (U ''th-TH'')),
           field_or p ''contentHtml'' (JStr (U ''<p>...</p>''))]"

definition createArticle :: "env \<Rightarrow> (ustr \<times> jval) list \<Rightarrow> doc \<Rightarrow> (jval \<times> doc) js" where
  "createArticle e p d =
     js_bind (loadAll d) (\<lambda>(items, d1).
       js_bind (title_of p) (\<lambda>title.
         let slug = base_slug e p title in
         js_bind (js_some (slug_is slug) items) (\<lambda>taken.
           let final = (if taken then slug @ [45] @ time_suffix (now e) else slug);
               item = new_item e p final title
           in Inr (item, saveAll (items @ [item])))))"

section \<open>updateBlog\<close>

definition new_slug :: "env \<Rightarrow> ustr \<Rightarrow> jval option \<Rightarrow> jval list \<Rightarrow> ustr js" where
  \<comment> \<open>lines 104 to 111: the slug the updated item gets\<close>
  "new_slug e slug ps items =
     (if truthy_opt ps \<and> ps \<noteq> Some (JStr slug) then
        (let cand = slugify_text (nfkd e) (js_String (the ps)) in
         js_bind (js_some (\<lambda>x. js_bind (get_prop x SLUG)
                    (\<lambda>v. Inr (v = Some (JStr cand) \<and> v \<noteq> Some (JStr slug)))) items)
           (\<lambda>clash. Inr (if clash then cand @ [45] @ time_suffix (now e) else cand)))
      else Inr slug)"

definition updateBlog :: "env \<Rightarrow> ustr \<Rightarrow> jval \<Rightarrow> doc \<Rightarrow> (jval option \<times> doc) js" where
  "updateBlog e slug patch d =
     (if slug = [] then Inr (None, d)
      else js_bind (loadAll d) (\<lambda>(items, d1).
        js_bind (js_find_index (slug_is slug) items) (\<lambda>idx.
          case idx of
            None \<Rightarrow> Inr (None, d1)
          | Some i \<Rightarrow>
              js_bind (get_prop patch SLUG) (\<lambda>ps.
                js_bind (new_slug e slug ps items) (\<lambda>ns.
                  let updated = JObj (obj_set (obj_spread (spread_props (items ! i)) patch) SLUG (JStr ns))
                  in Inr (Some updated, saveAll (items[i := updated])))))))"

section \<open>removeBlog\<close>

definition removeBlog :: "ustr \<Rightarrow> doc \<Rightarrow> (bool \<times> doc) js" where
  "removeBlog slug d =
     (if slug = [] then Inr (False, d)
      else js_bind (loadAll d) (\<lambda>(items, d1).
        js_bind (js_filter (\<lambda>x. js_bind (slug_is slug x) (\<lambda>b. Inr (\<not> b))) items) (\<lambda>next.
          if length next \<noteq> length items then Inr (True, saveAll next) else Inr (False, d1))))"

section \<open>Lemmas on the operations\<close>

lemma loadAll_saveAll: "loadAll (saveAll xs) = Inr (map json_roundtrip xs, saveAll xs)"
  by (simp add: loadAll_def saveAll_def ensureDataFile_def toArray_text_def truthy_opt_def)

definition create_slug :: "env \<Rightarrow> (ustr \<times> jval) list \<Rightarrow> ustr \<Rightarrow> jval list \<Rightarrow> ustr" where
  \<comment> \<open>the slug \<open>createArticle\<close> gives: the base slug, suffixed when taken\<close>
  "create_slug e p t xs =
     (let b = base_slug e p t in if list_ex (has_slug b) xs then b @ [45] @ time_suffix (now e) else b)"

lemma item_slug_new_item [simp]: "item_slug (new_item e p s t) = Some (JStr s)"
  by (simp add: new_item_def item_slug_def)

lemma base_slug_ne: "base_slug e p t \<noteq> []"
  by (simp add: base_slug_def Let_def)

lemma create_slug_ne: "create_slug e p t xs \<noteq> []"
  using base_slug_ne by (simp add: create_slug_def Let_def)

lemma createArticle_eq:
  assumes "loadAll d = Inr (xs, d1)" and "list_all is_obj xs"
  shows "createArticle e p d =
    js_bind (title_of p) (\<lambda>t. Inr (new_item e p (create_slug e p t xs) t,
                                   saveAll (xs @ [new_item e p (create_slug e p t xs) t])))"
  using assms by (cases "title_of p") (simp_all add: createArticle_def create_slug_def find_slug_objs Let_def)

lemma createArticle_Inr:
  assumes "loadAll d = Inr (xs, d1)" and "list_all is_obj xs" and "createArticle e p d = Inr (it, d')"
  obtains t where "title_of p = Inr t" and "it = new_item e p (create_slug e p t xs) t"
    and "d' = saveAll (xs @ [it])"
  using assms by (cases "title_of p") (auto simp: createArticle_eq)

lemma good_slug_new_item: "s \<noteq> [] \<Longrightarrow> good_slug (new_item e p s t)"
  by (simp add: good_slug_def)

lemma getBlog_saveAll:
  assumes "list_all is_obj xs" and "s \<noteq> []"
  shows "getBlog s (saveAll xs) = Inr (map_option json_roundtrip (find (has_slug s) xs), saveAll xs)"
proof -
  have "list_all is_obj (map json_roundtrip xs)"
    using assms(1) by (simp add: list_all_iff)
  then have "js_find (slug_is s) (map json_roundtrip xs) = Inr (find (has_slug s) (map json_roundtrip xs))"
    by (rule find_slug_objs)
  moreover have "find (has_slug s) (map json_roundtrip xs) = map_option json_roundtrip (find (has_slug s) xs)"
    by (induction xs) auto
  ultimately show ?thesis
    using assms(2) by (simp add: getBlog_def loadAll_saveAll)
qed

section \<open>Properties of the blog store\<close>

text \<open>
  C1: creating an article keeps the store invariant (objects with non-empty, distinct
  string slugs) exactly when the slug it gives is not already used. The code checks the
  base slug, but not the slug it makes by appending the time suffix.
\<close>

theorem createArticle_inv:
  assumes "loadAll d = Inr (xs, d1)" and "store_inv xs" and "createArticle e p d = Inr (it, d')"
  shows "loadAll d' = Inr (map json_roundtrip (xs @ [it]), d') \<and>
         (store_inv (map json_roundtrip (xs @ [it])) \<longleftrightarrow> item_slug it \<notin> set (map item_slug xs))"
proof -
  have objs: "list_all is_obj xs"
    using assms(2) by (simp add: store_inv_def)
  obtain t where it: "it = new_item e p (create_slug e p t xs) t" and d': "d' = saveAll (xs @ [it])"
    using createArticle_Inr[OF assms(1) objs assms(3)] by blast
  have "good_slug it"
    using it create_slug_ne by (simp add: good_slug_new_item)
  moreover have "store_inv (map json_roundtrip (xs @ [it])) = store_inv (xs @ [it])"
    by (rule store_inv_roundtrip)
  moreover have "is_obj it"
    by (simp add: it new_item_def)
  ultimately show ?thesis
    using assms(2) by (simp add: d' loadAll_saveAll store_inv_snoc)
qed

text \<open>
  C2: a created article is found by its slug, as written to and read back from the file,
  when that slug was not already used.
\<close>

theorem createArticle_getBlog:
  assumes "loadAll d = Inr (xs, d1)" and "list_all is_obj xs" and "createArticle e p d = Inr (it, d')"
    and "item_slug it \<notin> set (map item_slug xs)"
  shows "getBlog (slug_str it) d' = Inr (Some (json_roundtrip it), d')"
proof -
  obtain t where it: "it = new_item e p (create_slug e p t xs) t" and d': "d' = saveAll (xs @ [it])"
    using createArticle_Inr[OF assms(1,2,3)] by blast
  let ?s = "create_slug e p t xs"
  have slug: "slug_str it = ?s" and hs: "has_slug ?s it"
    by (simp_all add: it slug_str_def has_slug_def)
  have "\<not> list_ex (has_slug ?s) xs"
    using assms(4) by (auto simp: it has_slug_def list_ex_iff image_iff)
  then have "find (has_slug ?s) (xs @ [it]) = Some it"
    using hs by (rule find_has_slug_append)
  moreover have "list_all is_obj (xs @ [it])"
    using assms(2) by (simp add: it new_item_def)
  ultimately show ?thesis
    using create_slug_ne by (simp add: slug d' getBlog_saveAll)
qed

text \<open>
  C6: updating an article whose slug no item has returns \<open>null\<close> and writes nothing
  (the file is only created if it was missing).
\<close>

theorem updateBlog_missing:
  assumes "loadAll d = Inr (xs, d1)" and "list_all is_obj xs" and "s \<noteq> []"
    and "\<not> list_ex (has_slug s) xs"
  shows "updateBlog e s patch d = Inr (None, d1)"
proof -
  have "find_index_of (has_slug s) xs = None"
    using assms(4) by (simp add: find_index_of_None)
  then show ?thesis
    using assms(1-3) by (simp add: updateBlog_def find_slug_objs)
qed

text \<open>
  C5: removing an article and then looking its slug up finds nothing.
\<close>

theorem removeBlog_getBlog:
  assumes "loadAll d = Inr (xs, d1)" and "list_all is_obj xs" and "removeBlog s d = Inr (True, d')"
  shows "getBlog s d' = Inr (None, d')"
proof -
  have s: "s \<noteq> []"
    using assms(3) by (auto simp: removeBlog_def)
  have "js_filter (\<lambda>x. js_bind (slug_is s x) (\<lambda>b. Inr (\<not> b))) xs = Inr (filter (Not \<circ> has_slug s) xs)"
    using assms(2) by (intro js_filter_pure) (simp add: list_all_iff slug_is_obj)
  then have d': "d' = saveAll (filter (Not \<circ> has_slug s) xs)"
    using assms(1,3) s by (simp add: removeBlog_def split: if_splits)
  have "find (has_slug s) (filter (Not \<circ> has_slug s) xs) = None"
    by (simp add: find_None_iff)
  moreover have "list_all is_obj (filter (Not \<circ> has_slug s) xs)"
    using assms(2) by (simp add: list_all_iff)
  ultimately show ?thesis
    using s by (simp add: d' getBlog_saveAll)
qed

text \<open>
  Removing a slug no item has returns \<open>false\<close> and writes nothing.
\<close>

theorem removeBlog_missing:
  assumes "loadAll d = Inr (xs, d1)" and "list_all is_obj xs" and "s \<noteq> []"
    and "\<not> list_ex (has_slug s) xs"
  shows "removeBlog s d = Inr (False, d1)"
proof -
  have "js_filter (\<lambda>x. js_bind (slug_is s x) (\<lambda>b. Inr (\<not> b))) xs = Inr xs"
    using assms(2,4) js_filter_pure[of xs _ "Not \<circ> has_slug s"]
    by (simp add: list_all_iff list_ex_iff slug_is_obj)
  then show ?thesis
    using assms(1,3) by (simp add: removeBlog_def)
qed

text \<open>
  C8: a file that does not parse is not healed: every operation that reads it throws a
  SyntaxError (the specification says the store treats it as empty).
\<close>

theorem blog_unparsable:
  "listArticles Unparsable = Inl SyntaxError \<and>
   getBlog (c # s) Unparsable = Inl SyntaxError \<and>
   createArticle e p Unparsable = Inl SyntaxError \<and>
   updateBlog e (c # s) patch Unparsable = Inl SyntaxError \<and>
   removeBlog (c # s) Unparsable = Inl SyntaxError"
  by (simp add: listArticles_def getBlog_def createArticle_def updateBlog_def removeBlog_def
      loadAll_def ensureDataFile_def)

lemma updateBlog_Some:
  assumes "loadAll d = Inr (xs, d1)" and "list_all is_obj xs"
    and "updateBlog e s patch d = Inr (Some u, d')"
  obtains i ps ns where "s \<noteq> []" and "find_index_of (has_slug s) xs = Some i"
    and "get_prop patch SLUG = Inr ps" and "new_slug e s ps xs = Inr ns"
    and "u = JObj (obj_set (obj_spread (spread_props (xs ! i)) patch) SLUG (JStr ns))"
    and "d' = saveAll (xs[i := u])"
  using assms
  by (auto simp: updateBlog_def find_slug_objs js_bind_def Let_def
      split: if_splits option.splits sum.splits)

text \<open>
  C3: a successful update replaces the one item with the given slug by the updated item
  and nothing else; the store keeps its invariant exactly when the new slug is non-empty
  and no other item has it.
\<close>

theorem updateBlog_inv:
  assumes "loadAll d = Inr (xs, d1)" and "store_inv xs" and "updateBlog e s patch d = Inr (Some u, d')"
  shows "loadAll d' = Inr (map json_roundtrip (map (\<lambda>x. if has_slug s x then u else x) xs), d') \<and>
    (store_inv (map json_roundtrip (map (\<lambda>x. if has_slug s x then u else x) xs)) \<longleftrightarrow>
       good_slug u \<and> item_slug u \<notin> set (map item_slug xs) - {Some (JStr s)})"
proof -
  have objs: "list_all is_obj xs" and g: "list_all good_slug xs" and dis: "distinct (map item_slug xs)"
    using assms(2) by (simp_all add: store_inv_def)
  obtain i ns where fi: "find_index_of (has_slug s) xs = Some i"
    and u: "u = JObj (obj_set (obj_spread (spread_props (xs ! i)) patch) SLUG (JStr ns))"
    and d': "d' = saveAll (xs[i := u])"
    using updateBlog_Some[OF assms(1) objs assms(3)] by metis
  have i: "i < length xs" and hi: "item_slug (xs ! i) = Some (JStr s)"
    using find_index_of_Some[OF fi] by (auto simp: has_slug_def)
  have upd: "xs[i := u] = map (\<lambda>x. if has_slug s x then u else x) xs"
    using dis fi by (rule update_unique_map)
  have inv: "store_inv (xs[i := u]) \<longleftrightarrow> good_slug u \<and> item_slug u \<notin> set (map item_slug xs) - {Some (JStr s)}"
  proof -
    have "is_obj u" by (simp add: u)
    then have "list_all is_obj (xs[i := u])"
      using objs by (auto simp: list_all_iff dest!: subsetD[OF set_update_subset_insert])
    moreover have "list_all good_slug (xs[i := u]) \<longleftrightarrow> good_slug u"
      using g i by (auto simp: list_all_iff dest!: subsetD[OF set_update_subset_insert] intro: set_update_memI)
    moreover have "distinct (map item_slug (xs[i := u])) \<longleftrightarrow>
        item_slug u \<notin> set (map item_slug xs) - {Some (JStr s)}"
      using distinct_update_iff[OF dis, of i "item_slug u"] i hi by (simp add: map_update)
    ultimately show ?thesis by (auto simp: store_inv_def)
  qed
  have "loadAll d' = Inr (map json_roundtrip (xs[i := u]), d')"
    by (simp add: d' loadAll_saveAll)
  then show ?thesis
    using inv store_inv_roundtrip[of "xs[i := u]"] by (simp only: upd)
qed

text \<open>
  C4: an update merges shallowly: every field the patch carries wins over the stored one,
  the other stored fields are kept, and \<open>slug\<close> is the slug the update computed.
\<close>

theorem updateBlog_merge:
  assumes "loadAll d = Inr (xs, d1)" and "list_all is_obj xs"
    and "find (has_slug s) xs = Some (JObj old)" and "distinct (map fst ps)"
    and "updateBlog e s (JObj ps) d = Inr (Some u, d')"
  shows "\<exists>fs. u = JObj fs \<and> map_of fs = (map_of old ++ map_of ps)(SLUG \<mapsto> JStr (slug_str u))"
proof -
  obtain i ns where fi: "find_index_of (has_slug s) xs = Some i"
    and u: "u = JObj (obj_set (obj_spread (spread_props (xs ! i)) (JObj ps)) SLUG (JStr ns))"
    using updateBlog_Some[OF assms(1,2,5)] by metis
  have "xs ! i = JObj old"
    using find_index_of_find[OF fi] assms(3) by simp
  moreover have "slug_str u = ns"
    by (simp add: u slug_str_def item_slug_def map_of_obj_set SLUG_def)
  ultimately show ?thesis
    using assms(4) by (simp add: u map_of_obj_set map_of_obj_spread spread_props_def map_of_rev_distinct)
qed

text \<open>The unfoldings that evaluate the store operations on a concrete file.\<close>

lemmas blog_eval = createArticle_def updateBlog_def removeBlog_def getBlog_def loadAll_saveAll
  slug_is_def SLUG_def TITLE_def title_of_def base_slug_def new_slug_def slug_eval time_suffix_def
  to_radix_def radix_digits.simps digit_unit_def slug_str_def truthy_opt_def Let_def
  obj_spread_def spread_props_def store_inv_def good_slug_def

text \<open>
  C7: the time suffix is not checked. Whenever the store holds an item with the base
  slug of a new article and another with that slug followed by \<open>-\<close> and the time suffix
  of the current \<open>Date.now()\<close>, \<open>createArticle\<close> succeeds, stores the new article under a
  slug some item already has, and leaves a file whose slugs are no longer distinct.
\<close>

theorem createArticle_suffix_collision:
  assumes "loadAll d = Inr (xs, d1)" and "store_inv xs" and "title_of p = Inr t"
    and "list_ex (has_slug (base_slug e p t)) xs"
    and "list_ex (has_slug (base_slug e p t @ [45] @ time_suffix (now e))) xs"
  shows "\<exists>it d'. createArticle e p d = Inr (it, d') \<and> item_slug it \<in> set (map item_slug xs)
                \<and> \<not> store_inv (map json_roundtrip (xs @ [it]))"
proof -
  have objs: "list_all is_obj xs" using assms(2) by (simp add: store_inv_def)
  let ?s = "base_slug e p t @ [45] @ time_suffix (now e)"
  let ?it = "new_item e p ?s t"
  have "create_slug e p t xs = ?s" using assms(4) by (simp add: create_slug_def)
  then have c: "createArticle e p d = Inr (?it, saveAll (xs @ [?it]))"
    using createArticle_eq[OF assms(1) objs] assms(3) by (simp add: js_bind_def)
  have used: "item_slug ?it \<in> set (map item_slug xs)"
    using assms(5) unfolding list_ex_iff has_slug_def by (auto intro: rev_image_eqI)
  then have "\<not> store_inv (map json_roundtrip (xs @ [?it]))"
    by (subst store_inv_roundtrip) (simp add: store_inv_snoc)
  then show ?thesis using c used by blast
qed

text \<open>
  An update can give an item the empty slug: renaming \<open>a\<close> to \<open>___\<close> keeps no
  character through \<open>slugify\<close> of \<open>lib/text.js\<close>, and the updated item is stored
  with slug \<open>""\<close>, which no URL can reach.
\<close>

theorem updateBlog_empty_slug:
  "store_inv [JObj [(SLUG, JStr (U ''a''))]] \<and>
   updateBlog \<lparr>now = 0, ymd = (2025, 3, 7), nfkd = id\<rparr> (U ''a'') (JObj [(SLUG, JStr (U ''___''))])
     (saveAll [JObj [(SLUG, JStr (U ''a''))]])
   = Inr (Some (JObj [(SLUG, JStr [])]), saveAll [JObj [(SLUG, JStr [])]]) \<and>
   \<not> store_inv [JObj [(SLUG, JStr [])]]"
  by (simp add: blog_eval)

section \<open>Witnesses: a concrete run of the store\<close>

text \<open>
  An article titled \<open>a\<close> created on a missing file, then updated and removed; the
  facts below discharge the hypotheses of the theorems above on this run.
\<close>

lemma loadAll_Missing: "loadAll Missing = Inr ([], Doc (JObj [(ITEMS, JArr [])]))"
  by (simp add: loadAll_def ensureDataFile_def)

lemma sample_create:
  "createArticle \<lparr>now = 35, ymd = (2025, 3, 7), nfkd = id\<rparr> [(TITLE, JStr (U ''a''))] Missing =
   Inr (new_item \<lparr>now = 35, ymd = (2025, 3, 7), nfkd = id\<rparr> [(TITLE, JStr (U ''a''))] (U ''a'') (U ''a''),
        saveAll [new_item \<lparr>now = 35, ymd = (2025, 3, 7), nfkd = id\<rparr> [(TITLE, JStr (U ''a''))] (U ''a'') (U ''a'')])"
  by (simp add: loadAll_Missing blog_eval has_slug_def)

lemma createArticle_inv_witness:
  "store_inv (map json_roundtrip ([] @ [new_item \<lparr>now = 35, ymd = (2025, 3, 7), nfkd = id\<rparr>
      [(TITLE, JStr (U ''a''))] (U ''a'') (U ''a'')]))"
proof -
  have "store_inv []" by (simp add: store_inv_def)
  from createArticle_inv[OF loadAll_Missing this sample_create] show ?thesis
    by simp
qed

lemma createArticle_getBlog_witness:
  "getBlog (U ''a'') (saveAll [new_item \<lparr>now = 35, ymd = (2025, 3, 7), nfkd = id\<rparr>
      [(TITLE, JStr (U ''a''))] (U ''a'') (U ''a'')]) =
   Inr (Some (json_roundtrip (new_item \<lparr>now = 35, ymd = (2025, 3, 7), nfkd = id\<rparr>
      [(TITLE, JStr (U ''a''))] (U ''a'') (U ''a''))),
        saveAll [new_item \<lparr>now = 35, ymd = (2025, 3, 7), nfkd = id\<rparr>
      [(TITLE, JStr (U ''a''))] (U ''a'') (U ''a'')])"
  using createArticle_getBlog[OF loadAll_Missing _ sample_create] by (simp add: slug_str_def)

lemma updateBlog_missing_witness:
  "updateBlog \<lparr>now = 35, ymd = (2025, 3, 7), nfkd = id\<rparr> (U ''b'') (JObj []) Missing =
   Inr (None, Doc (JObj [(ITEMS, JArr [])]))"
  using updateBlog_missing[OF loadAll_Missing] by simp

lemma removeBlog_missing_witness:
  "removeBlog (U ''b'') Missing = Inr (False, Doc (JObj [(ITEMS, JArr [])]))"
  using removeBlog_missing[OF loadAll_Missing] by simp

lemma sample_remove:
  "removeBlog (U ''a'') (saveAll [JObj [(SLUG, JStr (U ''a''))]]) = Inr (True, saveAll [])"
  by (simp add: blog_eval has_slug_def)

lemma removeBlog_getBlog_witness:
  "getBlog (U ''a'') (saveAll []) = Inr (None, saveAll [])"
proof -
  have "loadAll (saveAll [JObj [(SLUG, JStr (U ''a''))]]) = Inr ([JObj [(SLUG, JStr (U ''a''))]],
      saveAll [JObj [(SLUG, JStr (U ''a''))]])"
    by (simp add: loadAll_saveAll)
  from removeBlog_getBlog[OF this _ sample_remove] show ?thesis by simp
qed

lemma sample_update:
  "updateBlog \<lparr>now = 0, ymd = (2025, 3, 7), nfkd = id\<rparr> (U ''a'')
     (JObj [(SLUG, JStr (U ''b'')), (TITLE, JStr (U ''B''))])
     (saveAll [JObj [(SLUG, JStr (U ''a'')), (TITLE, JStr (U ''A''))]])
   = Inr (Some (JObj [(SLUG, JStr (U ''b'')), (TITLE, JStr (U ''B''))]),
          saveAll [JObj [(SLUG, JStr (U ''b'')), (TITLE, JStr (U ''B''))]])"
  by (simp add: blog_eval SLUG_def TITLE_def)

lemma updateBlog_inv_witness:
  "store_inv (map json_roundtrip (map (\<lambda>x. if has_slug (U ''a'') x
      then JObj [(SLUG, JStr (U ''b'')), (TITLE, JStr (U ''B''))] else x)
      [JObj [(SLUG, JStr (U ''a'')), (TITLE, JStr (U ''A''))]]))"
proof -
  have l: "loadAll (saveAll [JObj [(SLUG, JStr (U ''a'')), (TITLE, JStr (U ''A''))]]) =
    Inr ([JObj [(SLUG, JStr (U ''a'')), (TITLE, JStr (U ''A''))]],
         saveAll [JObj [(SLUG, JStr (U ''a'')), (TITLE, JStr (U ''A''))]])"
    by (simp add: loadAll_saveAll)
  have i: "store_inv [JObj [(SLUG, JStr (U ''a'')), (TITLE, JStr (U ''A''))]]"
    by (simp add: store_inv_def good_slug_def)
  from updateBlog_inv[OF l i sample_update] show ?thesis
    by (simp add: good_slug_def SLUG_def TITLE_def)
qed

lemma updateBlog_merge_witness:
  "map_of [(SLUG, JStr (U ''b'')), (TITLE, JStr (U ''B''))] =
   (map_of [(SLUG, JStr (U ''a'')), (TITLE, JStr (U ''A''))] ++
    map_of [(SLUG, JStr (U ''b'')), (TITLE, JStr (U ''B''))])(SLUG \<mapsto> JStr (U ''b''))"
proof -
  have l: "loadAll (saveAll [JObj [(SLUG, JStr (U ''a'')), (TITLE, JStr (U ''A''))]]) =
    Inr ([JObj [(SLUG, JStr (U ''a'')), (TITLE, JStr (U ''A''))]],
         saveAll [JObj [(SLUG, JStr (U ''a'')), (TITLE, JStr (U ''A''))]])"
    by (simp add: loadAll_saveAll)
  have f: "find (has_slug (U ''a'')) [JObj [(SLUG, JStr (U ''a'')), (TITLE, JStr (U ''A''))]] =
    Some (JObj [(SLUG, JStr (U ''a'')), (TITLE, JStr (U ''A''))])"
    by (simp add: has_slug_def)
  have k: "distinct (map fst [(SLUG, JStr (U ''b'')), (TITLE, JStr (U ''B''))])"
    by (simp add: SLUG_def TITLE_def)
  from updateBlog_merge[OF l _ f k sample_update] show ?thesis
    by (simp add: slug_str_def)
qed


theorem createArticle_suffix_collision_witness:
  "\<exists>it d'. createArticle \<lparr>now = 35, ymd = (2025, 3, 7), nfkd = id\<rparr> [(TITLE, JStr (U ''a''))]
              (saveAll [JObj [(SLUG, JStr (U ''a''))], JObj [(SLUG, JStr (U ''a-z''))]]) = Inr (it, d')
     \<and> item_slug it \<in> set (map item_slug [JObj [(SLUG, JStr (U ''a''))], JObj [(SLUG, JStr (U ''a-z''))]])
     \<and> \<not> store_inv (map json_roundtrip ([JObj [(SLUG, JStr (U ''a''))], JObj [(SLUG, JStr (U ''a-z''))]] @ [it]))"
proof -
  have l: "loadAll (saveAll [JObj [(SLUG, JStr (U ''a''))], JObj [(SLUG, JStr (U ''a-z''))]]) =
           Inr ([JObj [(SLUG, JStr (U ''a''))], JObj [(SLUG, JStr (U ''a-z''))]],
                saveAll [JObj [(SLUG, JStr (U ''a''))], JObj [(SLUG, JStr (U ''a-z''))]])"
    by (simp add: loadAll_saveAll)
  have i: "store_inv [JObj [(SLUG, JStr (U ''a''))], JObj [(SLUG, JStr (U ''a-z''))]]"
    by (simp add: blog_eval)
  have t: "title_of [(TITLE, JStr (U ''a''))] = Inr (U ''a'')" by (simp add: blog_eval)
  have b: "base_slug \<lparr>now = 35, ymd = (2025, 3, 7), nfkd = id\<rparr> [(TITLE, JStr (U ''a''))] (U ''a'') = U ''a''"
    by (simp add: blog_eval)
  have s: "time_suffix (now \<lparr>now = 35, ymd = (2025, 3, 7), nfkd = id\<rparr>) = U ''z''" by (simp add: blog_eval)
  have h1: "list_ex (has_slug (U ''a'')) [JObj [(SLUG, JStr (U ''a''))], JObj [(SLUG, JStr (U ''a-z''))]]"
    by (simp add: has_slug_def item_slug_def)
  have h2: "list_ex (has_slug (U ''a'' @ [45] @ U ''z'')) [JObj [(SLUG, JStr (U ''a''))], JObj [(SLUG, JStr (U ''a-z''))]]"
    by (simp add: has_slug_def item_slug_def)
  show ?thesis
    using createArticle_suffix_collision[where e = "\<lparr>now = 35, ymd = (2025, 3, 7), nfkd = id\<rparr>",
                                         OF l i t, unfolded b s, OF h1 h2] .
qed

end
