(* ===== verification/PostsStore.thy ===== *)
theory PostsStore
  imports JsonFile Uri "HOL-Library.Product_Lexorder"
begin

text \<open>
  The posts store, \<open>src/src/lib/postsStore.js\<close>: the file \<open>data/posts.json\<close> holds a
  bare JSON array of posts. Unlike the blog store, reading heals the file: a file that does
  not parse is rewritten as \<open>[]\<close> and read as empty. Because that write happens before
  an operation can throw, every operation returns its result or error \<^emph>\<open>and\<close> the file it
  leaves. Insertion is first-write-wins on the trimmed slug; lookup decodes its argument
  with \<open>decodeURIComponent\<close> and falls back to a case-insensitive match; deletion throws
  when no post has the slug.
\<close>

section \<open>State and environment\<close>

record penv = env +
  utc_ymd :: "nat \<times> nat \<times> nat"   \<comment> \<open>UTC year, month, day of \<open>new Date().toISOString()\<close>\<close>
  uuid :: ustr                    \<comment> \<open>\<open>crypto.randomUUID()\<close>\<close>

definition CREATED :: ustr where "CREATED = U ''createdAt''"

definition ensureDataFile_posts :: "doc \<Rightarrow> doc" where
  \<comment> \<open>a missing file is created as \<open>[]\<close>\<close>
  "ensureDataFile_posts d = (case d of Missing \<Rightarrow> Doc (JArr []) | _ \<Rightarrow> d)"

definition readAll :: "doc \<Rightarrow> jval list \<times> doc" where
  \<comment> \<open>a document that is not an array reads as \<open>[]\<close>; one that does not parse is
     rewritten as \<open>[]\<close>\<close>
  "readAll d =
     (case ensureDataFile_posts d of
        Doc (JArr xs) \<Rightarrow> (xs, Doc (JArr xs))
      | Doc j \<Rightarrow> ([], Doc j)
      | _ \<Rightarrow> ([], Doc (JArr [])))"

definition writeAll :: "jval list \<Rightarrow> doc" where
  \<comment> \<open>the file written, as the next read sees it\<close>
  "writeAll items = Doc (JArr (map json_roundtrip items))"

section \<open>getAllPosts\<close>

text \<open>
  The comparator \<open>(b.createdAt || 0) - (a.createdAt || 0)\<close> orders by the number each
  \<open>createdAt\<close> converts to, newest first. A subtraction that gives NaN (a key that is NaN,
  or two infinities of one sign) compares as equal; with NaN keys the comparator is not
  consistent and the order is implementation-defined (V8 may leave such a list unsorted).
  The model ranks NaN as 0 to stay total; no claim depends on that choice: the order
  claims assume that no key is NaN, where every stable sort agrees. The key lives in \<open>int \<times> rat\<close> ordered lexicographically.
\<close>

fun num_key :: "jnum \<Rightarrow> int \<times> rat" where
  "num_key (JInf False) = (-1, 0)"
| "num_key (JFin r) = (0, r)"
| "num_key (JInf True) = (1, 0)"
| "num_key JNaN = (0, 0)"

definition created_key :: "jval \<Rightarrow> (int \<times> rat) js" where
  "created_key x = js_bind (get_prop x CREATED) (\<lambda>v. Inr (num_key (js_ToNumber (or_default v (JNum (JFin 0))))))"

definition getAllPosts :: "doc \<Rightarrow> jval list js \<times> doc" where
  "getAllPosts d =
     (let (items, d1) = readAll d in
      if length items < 2 then (Inr items, d1)
      else (js_bind (js_map created_key items) (\<lambda>ks. Inr (map fst (sort_desc snd (zip items ks)))), d1))"

section \<open>getPostBySlug\<close>

definition slug_lower_is :: "ustr \<Rightarrow> jval \<Rightarrow> bool js" where
  \<comment> \<open>\<open>v => String(v.slug || "").toLowerCase() === lower\<close>\<close>
  "slug_lower_is lower v = js_bind (get_prop v SLUG) (\<lambda>s. Inr (js_lower (js_String (or_default s (JStr []))) = lower))"

definition decoded :: "ustr \<Rightarrow> ustr" where
  \<comment> \<open>\<open>try { s = decodeURIComponent(s); } catch { }\<close>\<close>
  "decoded s = (case decode_uri s of Some t \<Rightarrow> t | None \<Rightarrow> s)"

definition getPostBySlug :: "jval \<Rightarrow> doc \<Rightarrow> jval option js \<times> doc" where
  "getPostBySlug inp d =
     (case getAllPosts d of
        (Inl err, d1) \<Rightarrow> (Inl err, d1)
      | (Inr items, d1) \<Rightarrow>
          if \<not> truthy inp then (Inr None, d1)
          else (let s = decoded (js_String inp) in
                js_bind (js_find (slug_is s) items) (\<lambda>exact.
                  if truthy_opt exact then Inr exact
                  else js_bind (js_find (slug_lower_is (js_lower s)) items) Inr), d1))"

section \<open>addPostFullFirstWrite\<close>

definition arg :: "jval option \<Rightarrow> jval \<Rightarrow> jval" where
  \<comment> \<open>a destructuring default applies to \<open>undefined\<close> only, not to \<open>null\<close>\<close>
  "arg v d = (case v of None \<Rightarrow> d | Some x \<Rightarrow> x)"

definition str_field :: "jval \<Rightarrow> ustr" where
  \<comment> \<open>\<open>String(v || "")\<close>\<close>
  "str_field v = js_String (or_default (Some v) (JStr []))"

definition string_list :: "jval \<Rightarrow> jval" where
  \<comment> \<open>\<open>Array.isArray(v) ? v.map(String) : []\<close>\<close>
  "string_list v = (case v of JArr xs \<Rightarrow> JArr (map (\<lambda>x. JStr (js_String x)) xs) | _ \<Rightarrow> JArr [])"

definition pad4 :: "ustr \<Rightarrow> ustr" where
  "pad4 s = replicate (4 - length s) 48 @ s"

definition iso_date :: "nat \<times> nat \<times> nat \<Rightarrow> ustr" where
  \<comment> \<open>\<open>new Date().toISOString().slice(0, 10)\<close> for the years 0 to 9999\<close>
  "iso_date t = (case t of (y, m, dd) \<Rightarrow>
     pad4 (to_radix 10 y) @ [45] @ pad2 (to_radix 10 m) @ [45] @ pad2 (to_radix 10 dd))"

definition DEFAULT_AUTHOR :: ustr where
  \<comment> \<open>the Thai words for "article team"\<close>
  "DEFAULT_AUTHOR = [3607, 3637, 3617, 3610, 3607, 3588, 3623, 3634, 3617]"

definition DEFAULT_CONTENT :: ustr where
  \<comment> \<open>a paragraph with the Thai words for "article content" and an ellipsis\<close>
  "DEFAULT_CONTENT = [60, 112, 62, 3648, 3609, 3639, 3657, 3629, 3627, 3634, 3610, 3607, 3588, 3623,
                      3634, 3617, 8230, 60, 47, 112, 62]"

definition trimmed_slug :: "jval \<Rightarrow> ustr js" where
  \<comment> \<open>\<open>String(x.slug || "").trim()\<close>\<close>
  "trimmed_slug x = js_bind (get_prop x SLUG) (\<lambda>v. Inr (js_trim (js_String (or_default v (JStr [])))))"

definition post_item :: "penv \<Rightarrow> (ustr \<Rightarrow> jval option) \<Rightarrow> ustr \<Rightarrow> jval" where
  \<comment> \<open>the new post, from the destructured payload fields \<open>f\<close> and the trimmed slug\<close>
  "post_item e f slug =
     JObj [(U ''id'', JStr (uuid e)),
           (SLUG, JStr slug),
           (TITLE, JStr (js_trim (str_field (arg (f TITLE) (JStr []))))),
           (U ''date'', JStr (js_trim (str_field (arg (f (U ''date'')) (JStr (iso_date (utc_ymd e))))))),
           (U ''excerpt'', JStr (js_trim (str_field (arg (f (U ''excerpt'')) (JStr []))))),
           (U ''tags'', string_list (arg (f (U ''tags'')) (JArr []))),
           (U ''author'', JStr (js_trim (str_field (arg (f (U ''author'')) (JStr DEFAULT_AUTHOR))))),
           (U ''thumbnail'', JStr (js_trim (str_field (arg (f (U ''thumbnail'')) (JStr []))))),
           (U ''contentHtml'', JStr (str_field (arg (f (U ''contentHtml'')) (JStr DEFAULT_CONTENT)))),
           (U ''keywords'', string_list (arg (f (U ''keywords'')) (JArr []))),
           (U ''faqs'', string_list (arg (f (U ''faqs'')) (JArr []))),
           (CREATED, JNum (JFin (of_nat (now e)))),
           (U ''updatedAt'', JNum (JFin (of_nat (now e))))]"

definition payload_fields :: "jval \<Rightarrow> (ustr \<Rightarrow> jval option) js" where
  \<comment> \<open>destructuring the argument: \<open>null\<close> throws, other values give their properties\<close>
  "payload_fields p = (case p of JNull \<Rightarrow> Inl TypeError | JObj fs \<Rightarrow> Inr (map_of fs) | _ \<Rightarrow> Inr (\<lambda>k. None))"

definition addPostFullFirstWrite :: "penv \<Rightarrow> jval \<Rightarrow> doc \<Rightarrow> (bool \<times> jval) js \<times> doc" where
  \<comment> \<open>the result is \<open>{ existed, item }\<close>\<close>
  "addPostFullFirstWrite e p d =
     (case payload_fields p of
        Inl err \<Rightarrow> (Inl err, d)
      | Inr f \<Rightarrow>
          (let (items, d1) = readAll d;
               norm = js_trim (str_field (arg (f SLUG) (JStr [])))
           in if norm = [] then (Inl (Thrown (U ''Missing 'slug'.'')), d1)
              else case js_find (\<lambda>x. js_bind (trimmed_slug x) (\<lambda>t. Inr (t = norm))) items of
                     Inl err \<Rightarrow> (Inl err, d1)
                   | Inr (Some x) \<Rightarrow> if truthy x then (Inr (True, x), d1)
                                    else (let it = post_item e f norm in (Inr (False, it), writeAll (items @ [it])))
                   | Inr None \<Rightarrow> (let it = post_item e f norm in (Inr (False, it), writeAll (items @ [it])))))"

section \<open>deletePostBySlug\<close>

definition deletePostBySlug :: "ustr \<Rightarrow> doc \<Rightarrow> ustr js \<times> doc" where
  \<comment> \<open>the result is \<open>{ ok: true, slug }\<close>\<close>
  "deletePostBySlug s d =
     (let (items, d1) = readAll d in
      case js_filter (\<lambda>v. js_bind (slug_is s v) (\<lambda>b. Inr (\<not> b))) items of
        Inl err \<Rightarrow> (Inl err, d1)
      | Inr next \<Rightarrow> if length next = length items then (Inl (Thrown (U ''Post not found'')), d1)
                   else (Inr s, writeAll next))"


section \<open>The store invariant\<close>

definition created_of :: "jval \<Rightarrow> int \<times> rat" where
  \<comment> \<open>the sort key of an object\<close>
  "created_of x = (case x of JObj fs \<Rightarrow> num_key (js_ToNumber (or_default (map_of fs CREATED) (JNum (JFin 0))))
                    | _ \<Rightarrow> (0, 0))"

definition tslug :: "jval \<Rightarrow> ustr" where
  \<comment> \<open>the trimmed slug of an object\<close>
  "tslug x = js_trim (js_String (or_default (item_slug x) (JStr [])))"

definition posts_inv :: "jval list \<Rightarrow> bool" where
  \<comment> \<open>what first-write-wins keeps: objects with string slugs whose trimmed forms are
     non-empty and distinct\<close>
  "posts_inv xs \<longleftrightarrow> list_all is_obj xs \<and> list_all good_slug xs \<and> list_all (\<lambda>x. tslug x \<noteq> []) xs
                     \<and> distinct (map tslug xs)"

section \<open>Lemmas on the operations\<close>

lemma readAll_writeAll: "readAll (writeAll xs) = (map json_roundtrip xs, writeAll xs)"
  by (simp add: readAll_def writeAll_def ensureDataFile_posts_def)

lemma readAll_again: "readAll d = (xs, d1) \<Longrightarrow> readAll d1 = (xs, d1)"
  by (auto simp: readAll_def ensureDataFile_posts_def split: doc.splits jval.splits)

lemma created_key_obj: "is_obj x \<Longrightarrow> created_key x = Inr (created_of x)"
  by (cases x) (simp_all add: created_key_def created_of_def js_bind_def)

lemma trimmed_slug_obj: "is_obj x \<Longrightarrow> trimmed_slug x = Inr (tslug x)"
  by (cases x) (simp_all add: trimmed_slug_def tslug_def js_bind_def)

lemma sort_desc_short: "length xs < 2 \<Longrightarrow> sort_desc f xs = xs"
  by (cases xs) (auto simp: sort_desc_def)

lemma getAllPosts_objs:
  assumes "readAll d = (xs, d1)" and "list_all is_obj xs"
  shows "getAllPosts d = (Inr (sort_desc created_of xs), d1)"
proof -
  have "js_map created_key xs = Inr (map created_of xs)"
    using assms(2) by (intro js_map_pure) (simp add: list_all_iff created_key_obj)
  then show ?thesis
    using assms(1) sort_desc_pairs[of xs created_of] by (simp add: getAllPosts_def sort_desc_short js_bind_def)
qed

lemma find_trimmed:
  "list_all is_obj xs \<Longrightarrow>
   js_find (\<lambda>x. js_bind (trimmed_slug x) (\<lambda>t. Inr (t = n))) xs = Inr (find (\<lambda>x. tslug x = n) xs)"
  by (auto intro!: js_find_pure simp: list_all_iff trimmed_slug_obj js_bind_def)

lemma truthy_obj: "is_obj x \<Longrightarrow> truthy x"
  by (cases x) auto

lemma addPost_eq:
  assumes "payload_fields p = Inr f" and "readAll d = (xs, d1)" and "list_all is_obj xs"
  shows "addPostFullFirstWrite e p d =
    (let n = js_trim (str_field (arg (f SLUG) (JStr []))) in
     if n = [] then (Inl (Thrown (U ''Missing 'slug'.'')), d1)
     else case find (\<lambda>x. tslug x = n) xs of
       Some x \<Rightarrow> (Inr (True, x), d1)
     | None \<Rightarrow> (Inr (False, post_item e f n), writeAll (xs @ [post_item e f n])))"
proof -
  have "find (\<lambda>x. tslug x = n) xs = Some x \<Longrightarrow> truthy x" for n x
    using assms(3) by (auto simp: list_all_iff find_Some_iff intro: truthy_obj)
  then show ?thesis
    using assms by (auto simp: addPostFullFirstWrite_def find_trimmed Let_def split: option.splits)
qed


lemma tslug_good: "good_slug x \<Longrightarrow> tslug x = js_trim (slug_str x)"
  by (erule good_slugE) (simp add: tslug_def slug_str_def or_default_def truthy_opt_def)

lemma tslug_has_slug: "has_slug s x \<Longrightarrow> s \<noteq> [] \<Longrightarrow> tslug x = js_trim s"
  by (simp add: tslug_def has_slug_def or_default_def truthy_opt_def)

lemma tslug_json_roundtrip: "good_slug x \<Longrightarrow> tslug (json_roundtrip x) = tslug x"
  by (simp add: tslug_def item_slug_json_roundtrip_good)

lemma posts_inv_roundtrip: "posts_inv (map json_roundtrip xs) = posts_inv xs"
proof (cases "list_all good_slug xs")
  case True
  then have eq: "map tslug (map json_roundtrip xs) = map tslug xs"
    by (simp add: list_all_iff tslug_json_roundtrip)
  have "list_all is_obj (map json_roundtrip xs) = list_all is_obj xs"
    and "list_all good_slug (map json_roundtrip xs) = list_all good_slug xs"
    and "list_all (\<lambda>x. tslug x \<noteq> []) (map json_roundtrip xs) = list_all (\<lambda>x. tslug x \<noteq> []) xs"
    using True by (simp_all add: list_all_iff tslug_json_roundtrip)
  then show ?thesis by (simp only: posts_inv_def eq)
next
  case False
  then show ?thesis by (auto simp: posts_inv_def list_all_iff)
qed

lemma filter_has_slug_roundtrip:
  "filter (has_slug s) (map json_roundtrip xs) = map json_roundtrip (filter (has_slug s) xs)"
  by (induction xs) simp_all

lemma post_item_slug [simp]: "item_slug (post_item e f n) = Some (JStr n)"
  by (simp add: post_item_def SLUG_def)

lemma post_item_obj [simp]: "is_obj (post_item e f n)"
  by (simp add: post_item_def)

section \<open>Properties of the posts store\<close>

text \<open>
  C10: first write wins: adding a post whose trimmed slug an existing post already has
  returns that post with \<open>existed = true\<close> and writes nothing.
\<close>

theorem addPost_existing:
  assumes "payload_fields p = Inr f" and "readAll d = (xs, d1)" and "list_all is_obj xs"
    and "js_trim (str_field (arg (f SLUG) (JStr []))) \<noteq> []"
    and "find (\<lambda>x. tslug x = js_trim (str_field (arg (f SLUG) (JStr [])))) xs = Some x"
  shows "addPostFullFirstWrite e p d = (Inr (True, x), d1)"
  using assms by (simp add: addPost_eq Let_def)

text \<open>
  C9: adding a post keeps the invariant: after any successful add, the posts the next read
  sees are objects whose trimmed slugs are non-empty and distinct.
\<close>

theorem addPost_inv:
  assumes "readAll d = (xs, d1)" and "posts_inv xs"
    and "addPostFullFirstWrite e p d = (Inr (b, it), d')"
  shows "posts_inv (fst (readAll d'))"
proof -
  have objs: "list_all is_obj xs" using assms(2) by (simp add: posts_inv_def)
  obtain f where f: "payload_fields p = Inr f"
    using assms(3) by (cases "payload_fields p") (simp_all add: addPostFullFirstWrite_def)
  define n where "n = js_trim (str_field (arg (f SLUG) (JStr [])))"
  have n: "n \<noteq> []" using assms(3) by (simp add: addPost_eq[OF f assms(1) objs] n_def[symmetric] Let_def split: if_splits)
  show ?thesis
  proof (cases "find (\<lambda>x. tslug x = n) xs")
    case (Some x)
    then have "d' = d1" using assms(3) n by (simp add: addPost_eq[OF f assms(1) objs] n_def[symmetric] Let_def)
    then show ?thesis using readAll_again[OF assms(1)] assms(2) by simp
  next
    case None
    then have "it = post_item e f n \<and> d' = writeAll (xs @ [post_item e f n])"
      using assms(3) n by (auto simp: addPost_eq[OF f assms(1) objs] n_def[symmetric] Let_def)
    then have it: "it = post_item e f n" and d': "d' = writeAll (xs @ [it])" by simp_all
    have "tslug it = n"
      using n by (simp add: it tslug_has_slug has_slug_def n_def)
    moreover have "n \<notin> set (map tslug xs)"
      using None by (auto simp: find_None_iff)
    moreover have "good_slug it" using n by (simp add: it good_slug_def)
    ultimately have "posts_inv (xs @ [it])"
      using assms(2) n by (simp add: posts_inv_def it)
    then have "posts_inv (map json_roundtrip (xs @ [it]))" by (simp only: posts_inv_roundtrip)
    then show ?thesis by (simp only: d' readAll_writeAll fst_conv)
  qed
qed


lemma addPost_new_item:
  assumes "readAll d = (xs, d1)" and "list_all is_obj xs"
    and "addPostFullFirstWrite e p d = (Inr (False, it), d')"
  shows "\<exists>f. it = post_item e f (slug_str it) \<and> slug_str it \<noteq> [] \<and> d' = writeAll (xs @ [it])"
proof -
  obtain f where f: "payload_fields p = Inr f"
    using assms(3) by (cases "payload_fields p") (simp_all add: addPostFullFirstWrite_def)
  define n where "n = js_trim (str_field (arg (f SLUG) (JStr [])))"
  have "n \<noteq> [] \<and> it = post_item e f n \<and> d' = writeAll (xs @ [it])"
    using assms(3) by (auto simp: addPost_eq[OF f assms(1,2)] n_def[symmetric] Let_def split: if_splits option.splits)
  moreover have "slug_str (post_item e f n) = n" by (simp add: slug_str_def)
  ultimately show ?thesis by auto
qed

lemma addPost_found:
  assumes "readAll d = (xs, d1)" and "list_all is_obj xs"
    and "addPostFullFirstWrite e p d = (Inr (False, it), d')" and "37 \<notin> set (slug_str it)"
  shows "getPostBySlug (JStr (slug_str it)) d' = (Inr (Some (json_roundtrip it)), d')"
proof -
  obtain f where f: "payload_fields p = Inr f"
    using assms(3) by (cases "payload_fields p") (simp_all add: addPostFullFirstWrite_def)
  define n where "n = js_trim (str_field (arg (f SLUG) (JStr [])))"
  have n: "n \<noteq> []" and fresh: "find (\<lambda>x. tslug x = n) xs = None"
    and it: "it = post_item e f n" and d': "d' = writeAll (xs @ [it])"
    using assms(3) by (auto simp: addPost_eq[OF f assms(1,2)] n_def[symmetric] Let_def split: if_splits option.splits)
  let ?ys = "map json_roundtrip (xs @ [it])"
  have slug: "slug_str it = n" by (simp add: it slug_str_def)
  have objs: "list_all is_obj ?ys" using assms(2) by (simp add: list_all_iff it)
  have "filter (has_slug n) (xs @ [it]) = [it]"
  proof -
    have "\<not> has_slug n x" if "x \<in> set xs" for x
    proof
      assume "has_slug n x"
      then have "tslug x = n" using n by (simp add: tslug_has_slug n_def)
      with fresh that show False by (simp add: find_None_iff)
    qed
    moreover have "has_slug n it" by (simp add: it has_slug_def)
    ultimately show ?thesis by (simp add: filter_empty_conv)
  qed
  then have "filter (has_slug n) ?ys = [json_roundtrip it]"
    by (simp only: filter_has_slug_roundtrip list.map)
  then have "find (has_slug n) (sort_desc created_of ?ys) = Some (json_roundtrip it)"
    by (rule find_unique_perm) (rule mset_sort_desc)
  moreover have "js_find (slug_is n) (sort_desc created_of ?ys) = Inr (find (has_slug n) (sort_desc created_of ?ys))"
    using objs by (intro find_slug_objs) (simp add: list_all_iff set_mset_mset[symmetric] mset_sort_desc del: set_mset_mset)
  moreover have "decoded n = n" using assms(4) by (simp add: decoded_def decode_uri_plain slug)
  moreover have "truthy (json_roundtrip it)" by (simp add: it post_item_def)
  ultimately show ?thesis
    using getAllPosts_objs[OF readAll_writeAll objs] n
    by (simp add: getPostBySlug_def d' slug truthy_opt_def js_bind_def)
qed


text \<open>
  C11: a post added under a fresh slug without \<open>%\<close> is found by that slug: the next
  \<open>getPostBySlug\<close> returns it, as written to and read back from the file.
\<close>

theorem addPost_getPostBySlug:
  assumes "readAll d = (xs, d1)" and "list_all is_obj xs"
    and "addPostFullFirstWrite e p d = (Inr (False, it), d')" and "37 \<notin> set (slug_str it)"
  shows "getPostBySlug (JStr (slug_str it)) d' = (Inr (Some (json_roundtrip it)), d')"
  using assms by (rule addPost_found)

text \<open>
  Deleting a slug no post has throws \<open>Post not found\<close> and writes nothing.
\<close>

theorem deletePost_missing:
  assumes "readAll d = (xs, d1)" and "list_all is_obj xs" and "\<not> list_ex (has_slug s) xs"
  shows "deletePostBySlug s d = (Inl (Thrown (U ''Post not found'')), d1)"
proof -
  have "js_filter (\<lambda>v. js_bind (slug_is s v) (\<lambda>b. Inr (\<not> b))) xs = Inr xs"
    using assms(2,3) js_filter_pure[of xs _ "Not \<circ> has_slug s"]
    by (simp add: list_all_iff list_ex_iff slug_is_obj js_bind_def)
  then show ?thesis using assms(1) by (simp add: deletePostBySlug_def)
qed

text \<open>
  C12: deleting a slug some post has removes exactly the posts with that slug and keeps the
  order of the others.
\<close>

theorem deletePost_removes:
  assumes "readAll d = (xs, d1)" and "list_all is_obj xs" and "list_ex (has_slug s) xs"
  shows "deletePostBySlug s d = (Inr s, writeAll (filter (Not \<circ> has_slug s) xs))"
proof -
  have "js_filter (\<lambda>v. js_bind (slug_is s v) (\<lambda>b. Inr (\<not> b))) xs = Inr (filter (Not \<circ> has_slug s) xs)"
    using assms(2) by (intro js_filter_pure) (simp add: list_all_iff slug_is_obj js_bind_def)
  moreover have "length (filter (Not \<circ> has_slug s) xs) \<noteq> length xs"
  proof -
    obtain x where "x \<in> set xs" and "has_slug s x" using assms(3) by (auto simp: list_ex_iff)
    then have "length (filter (Not \<circ> has_slug s) xs) < length xs" by (intro length_filter_less) simp_all
    then show ?thesis by simp
  qed
  ultimately show ?thesis using assms(1) by (simp add: deletePostBySlug_def)
qed

text \<open>
  C13: when no post's \<open>createdAt || 0\<close> converts to NaN (so that the comparator
  \<open>(b.createdAt || 0) - (a.createdAt || 0)\<close> is consistent and every stable sort, V8's
  included, gives the same order), \<open>getAllPosts\<close> returns the posts it read, newest
  \<open>createdAt\<close> first, and posts with the same key in the order of the file. With a NaN key
  ECMAScript leaves the order implementation-defined, and nothing is claimed.
\<close>

theorem getAllPosts_sorted:
  assumes "readAll d = (xs, d1)" and "list_all is_obj xs"
    and "list_all (\<lambda>x. js_ToNumber (or_default (opt_prop x CREATED) (JNum (JFin 0))) \<noteq> JNaN) xs"
  shows "\<exists>ys. getAllPosts d = (Inr ys, d1) \<and> mset ys = mset xs \<and>
    sorted_wrt (\<lambda>a b. created_of b \<le> created_of a) ys \<and>
    (\<forall>k. filter (\<lambda>y. created_of y = k) ys = filter (\<lambda>y. created_of y = k) xs)"
  using getAllPosts_objs[OF assms(1,2)] mset_sort_desc sorted_sort_desc filter_sort_desc by blast


text \<open>The unfoldings that evaluate the posts store on a concrete file.\<close>

lemmas posts_eval = getPostBySlug_def getAllPosts_def readAll_writeAll deletePostBySlug_def
  slug_is_def slug_lower_is_def decoded_def SLUG_def CREATED_def created_key_def js_lower_def
  js_lower_unit_def truthy_opt_def or_default_def js_bind_def
  hex_byte_def is_radix_digit_def digit_val_def lead_ones_def js_trim_def is_js_ws_def str_field_def
  arg_def payload_fields_def tslug_def

text \<open>
  Deletion is exact but lookup is not: with posts \<open>abc\<close> and \<open>ABC\<close>, deleting
  \<open>abc\<close> succeeds and a lookup of \<open>abc\<close> then returns the post \<open>ABC\<close> through the
  case-insensitive fallback (the specification says a deleted slug is not found).
\<close>

theorem delete_then_get_case_variant:
  "deletePostBySlug (U ''abc'') (writeAll [JObj [(SLUG, JStr (U ''abc''))], JObj [(SLUG, JStr (U ''ABC''))]])
     = (Inr (U ''abc''), writeAll [JObj [(SLUG, JStr (U ''ABC''))]]) \<and>
   getPostBySlug (JStr (U ''abc'')) (writeAll [JObj [(SLUG, JStr (U ''ABC''))]])
     = (Inr (Some (JObj [(SLUG, JStr (U ''ABC''))])), writeAll [JObj [(SLUG, JStr (U ''ABC''))]])"
  by (simp add: posts_eval)

text \<open>
  Lookup decodes its argument once more than the route does: a post whose slug holds
  a valid escape, \<open>a%41\<close>, is not found by its own slug, which decodes to \<open>aA\<close>.
\<close>

theorem getPostBySlug_escaped_slug:
  "getPostBySlug (JStr (U ''a%41'')) (writeAll [JObj [(SLUG, JStr (U ''a%41''))]])
     = (Inr None, writeAll [JObj [(SLUG, JStr (U ''a%41''))]])"
  by (simp add: posts_eval)

text \<open>
  \<open>faqs.map(String)\<close> turns every question-answer object into the string
  \<open>[object Object]\<close>: the FAQs the admin page sends are lost on the first write.
\<close>

theorem addPost_faqs_stringified:
  "\<exists>it. addPostFullFirstWrite \<lparr>now = 7, ymd = (2025, 1, 2), nfkd = id, utc_ymd = (2025, 1, 2), uuid = U ''u''\<rparr>
     (JObj [(SLUG, JStr (U ''x'')), (U ''faqs'', JArr [JObj [(U ''q'', JStr (U ''Q'')), (U ''a'', JStr (U ''A''))]])])
     Missing = (Inr (False, it), writeAll [it]) \<and>
   get_prop it (U ''faqs'') = Inr (Some (JArr [JStr (U ''[object Object]'')]))"
  by (simp add: addPostFullFirstWrite_def post_item_def posts_eval readAll_def ensureDataFile_posts_def
      string_list_def trimmed_slug_def TITLE_def Let_def)

text \<open>
  Reading heals a file that does not parse: every operation reads it as the empty list
  and leaves the file \<open>[]\<close> (the blog store throws instead).
\<close>

theorem posts_unparsable_heals:
  "readAll Unparsable = ([], Doc (JArr [])) \<and>
   getAllPosts Unparsable = (Inr [], Doc (JArr [])) \<and>
   getPostBySlug v Unparsable = (Inr None, Doc (JArr [])) \<and>
   deletePostBySlug s Unparsable = (Inl (Thrown (U ''Post not found'')), Doc (JArr []))"
  by (simp add: posts_eval readAll_def ensureDataFile_posts_def)

section \<open>Witnesses: a concrete run of the posts store\<close>

lemma sample_posts_read:
  "readAll (writeAll [JObj [(SLUG, JStr (U ''a'')), (CREATED, JNum (JFin 1))]]) =
   ([JObj [(SLUG, JStr (U ''a'')), (CREATED, JNum (JFin 1))]],
    writeAll [JObj [(SLUG, JStr (U ''a'')), (CREATED, JNum (JFin 1))]])"
  by (simp add: readAll_writeAll)

lemma sample_posts_add:
  "addPostFullFirstWrite \<lparr>now = 7, ymd = (2025, 1, 2), nfkd = id, utc_ymd = (2025, 1, 2), uuid = U ''u''\<rparr>
     (JObj [(SLUG, JStr (U ''b''))]) (writeAll [JObj [(SLUG, JStr (U ''a'')), (CREATED, JNum (JFin 1))]]) =
   (Inr (False, post_item \<lparr>now = 7, ymd = (2025, 1, 2), nfkd = id, utc_ymd = (2025, 1, 2), uuid = U ''u''\<rparr>
                  (map_of [(SLUG, JStr (U ''b''))]) (U ''b'')),
    writeAll [JObj [(SLUG, JStr (U ''a'')), (CREATED, JNum (JFin 1))],
              post_item \<lparr>now = 7, ymd = (2025, 1, 2), nfkd = id, utc_ymd = (2025, 1, 2), uuid = U ''u''\<rparr>
                  (map_of [(SLUG, JStr (U ''b''))]) (U ''b'')])"
proof -
  have pf: "payload_fields (JObj [(SLUG, JStr (U ''b''))]) = Inr (map_of [(SLUG, JStr (U ''b''))])"
    by (simp add: payload_fields_def)
  have l: "list_all is_obj [JObj [(SLUG, JStr (U ''a'')), (CREATED, JNum (JFin 1))]]" by simp
  show ?thesis unfolding addPost_eq[OF pf sample_posts_read l] by (simp add: posts_eval Let_def)
qed

lemma addPost_existing_witness:
  "addPostFullFirstWrite \<lparr>now = 7, ymd = (2025, 1, 2), nfkd = id, utc_ymd = (2025, 1, 2), uuid = U ''u''\<rparr>
     (JObj [(SLUG, JStr (U '' a ''))]) (writeAll [JObj [(SLUG, JStr (U ''a'')), (CREATED, JNum (JFin 1))]]) =
   (Inr (True, JObj [(SLUG, JStr (U ''a'')), (CREATED, JNum (JFin 1))]),
    writeAll [JObj [(SLUG, JStr (U ''a'')), (CREATED, JNum (JFin 1))]])"
proof -
  have pf: "payload_fields (JObj [(SLUG, JStr (U '' a ''))]) = Inr (map_of [(SLUG, JStr (U '' a ''))])"
    by (simp add: payload_fields_def)
  show ?thesis by (rule addPost_existing[OF pf sample_posts_read]) (simp_all add: posts_eval)
qed

lemma addPost_inv_witness:
  "posts_inv (fst (readAll (writeAll [JObj [(SLUG, JStr (U ''a'')), (CREATED, JNum (JFin 1))],
              post_item \<lparr>now = 7, ymd = (2025, 1, 2), nfkd = id, utc_ymd = (2025, 1, 2), uuid = U ''u''\<rparr>
                  (map_of [(SLUG, JStr (U ''b''))]) (U ''b'')])))"
  by (rule addPost_inv[OF sample_posts_read _ sample_posts_add])
    (simp add: posts_inv_def good_slug_def posts_eval)

lemma addPost_getPostBySlug_witness:
  "getPostBySlug (JStr (U ''b''))
     (writeAll [JObj [(SLUG, JStr (U ''a'')), (CREATED, JNum (JFin 1))],
                post_item \<lparr>now = 7, ymd = (2025, 1, 2), nfkd = id, utc_ymd = (2025, 1, 2), uuid = U ''u''\<rparr>
                  (map_of [(SLUG, JStr (U ''b''))]) (U ''b'')]) =
   (Inr (Some (json_roundtrip (post_item \<lparr>now = 7, ymd = (2025, 1, 2), nfkd = id, utc_ymd = (2025, 1, 2), uuid = U ''u''\<rparr>
                  (map_of [(SLUG, JStr (U ''b''))]) (U ''b'')))),
    writeAll [JObj [(SLUG, JStr (U ''a'')), (CREATED, JNum (JFin 1))],
              post_item \<lparr>now = 7, ymd = (2025, 1, 2), nfkd = id, utc_ymd = (2025, 1, 2), uuid = U ''u''\<rparr>
                  (map_of [(SLUG, JStr (U ''b''))]) (U ''b'')])"
  using addPost_getPostBySlug[OF sample_posts_read _ sample_posts_add] by (simp add: slug_str_def)

lemma deletePost_missing_witness:
  "deletePostBySlug (U ''z'') (writeAll [JObj [(SLUG, JStr (U ''a'')), (CREATED, JNum (JFin 1))]]) =
   (Inl (Thrown (U ''Post not found'')), writeAll [JObj [(SLUG, JStr (U ''a'')), (CREATED, JNum (JFin 1))]])"
  by (rule deletePost_missing[OF sample_posts_read]) (simp_all add: has_slug_def)

lemma deletePost_removes_witness:
  "deletePostBySlug (U ''a'') (writeAll [JObj [(SLUG, JStr (U ''a'')), (CREATED, JNum (JFin 1))]]) =
   (Inr (U ''a''), writeAll [])"
  using deletePost_removes[OF sample_posts_read] by (simp add: has_slug_def)

lemma getAllPosts_sorted_witness:
  "\<exists>ys. getAllPosts (writeAll [JObj [(SLUG, JStr (U ''a'')), (CREATED, JNum (JFin 1))]]) =
     (Inr ys, writeAll [JObj [(SLUG, JStr (U ''a'')), (CREATED, JNum (JFin 1))]]) \<and>
     mset ys = mset [JObj [(SLUG, JStr (U ''a'')), (CREATED, JNum (JFin 1))]]"
  using getAllPosts_sorted[OF sample_posts_read] by (auto simp: opt_prop_def or_default_def truthy_opt_def CREATED_def SLUG_def)

end
