(* ===== verification/Routes.thy ===== *)
theory Routes
  imports Auth BlogStore PostsStore
begin

text \<open>
  The HTTP routes over the stores: \<open>src/src/app/api/blog/route.js\<close> (list and create),
  \<open>src/src/app/api/blog/[slug]/route.js\<close> (read, update and delete behind \<open>isAdmin\<close>, with
  the token lists of an update), the read-only item routes of posts, reviews and videos,
  and the sitemap list. A route is a function of the request and the store's file giving
  the response and the file it leaves; the stores of reviews and videos are not in the
  repository and are parameters. The dynamic segment \<open>[slug]\<close> arrives decoded, as a string.
\<close>

section \<open>Token lists of the blog item route\<close>

definition tok_sep :: "nat \<Rightarrow> bool" where
  \<comment> \<open>the class \<open>[\n\r,;|\<close>U+3001\<open>]\<close>\<close>
  "tok_sep c \<longleftrightarrow> c \<in> {10, 13, 44, 59, 124, 12289}"

definition sep_match :: "ustr \<Rightarrow> nat" where
  \<comment> \<open>the length of the match of \<open>/[\n\r,;|\<close>U+3001\<open>]+|\s{2,}/\<close> at the start of \<open>s\<close>, 0 for
      none: the first alternative is tried first, each quantifier is greedy\<close>
  "sep_match s =
     (let a = length (takeWhile tok_sep s); w = length (takeWhile is_js_ws s)
      in if 0 < a then a else if 2 \<le> w then w else 0)"

function re_split :: "(ustr \<Rightarrow> nat) \<Rightarrow> ustr \<Rightarrow> ustr list" where
  \<comment> \<open>\<open>s.split(re)\<close> for a pattern that matches no empty string, \<open>m\<close> giving the length of
      its match at a position\<close>
  "re_split m [] = [[]]"
| "re_split m (c # cs) =
     (if m (c # cs) = 0 then (case re_split m cs of [] \<Rightarrow> [[c]] | t # ts \<Rightarrow> (c # t) # ts)
      else [] # re_split m (drop (m (c # cs)) (c # cs)))"
  by pat_completeness auto
termination by (relation "measure (\<lambda>(m, s). length s)") auto

definition parseTokens :: "jval option \<Rightarrow> ustr list" where
  \<comment> \<open>\<open>String(raw || "").split(...).map((s) => s.trim()).filter(Boolean)\<close>\<close>
  "parseTokens raw =
     filter (\<lambda>s. s \<noteq> []) (map js_trim (re_split sep_match (js_String (or_default raw (JStr [])))))"

fun uniq_from :: "ustr list \<Rightarrow> ustr list \<Rightarrow> ustr list" where
  \<comment> \<open>the loop of \<open>uniq\<close>, \<open>seen\<close> the lower-cased strings met so far\<close>
  "uniq_from seen [] = []"
| "uniq_from seen (v # vs) =
     (if js_lower v \<in> set seen then uniq_from seen vs else v # uniq_from (js_lower v # seen) vs)"

definition uniq :: "ustr list \<Rightarrow> ustr list" where
  "uniq xs = uniq_from [] xs"

definition toArray_route :: "jval option \<Rightarrow> ustr list" where
  \<comment> \<open>\<open>toArray\<close> of the route: an array is trimmed element-wise, anything else is split\<close>
  "toArray_route x =
     (case x of
        Some (JArr xs) \<Rightarrow> uniq (filter (\<lambda>s. s \<noteq> []) (map (\<lambda>v. js_trim (js_String v)) xs))
      | _ \<Rightarrow> uniq (parseTokens x))"

definition normalize_patch :: "jval \<Rightarrow> jval js" where
  \<comment> \<open>lines 59 to 62: the patch is changed in place; reading a field of \<open>null\<close> throws, other
      non-objects have none of the fields\<close>
  "normalize_patch patch =
     (case patch of
        JNull \<Rightarrow> Inl TypeError
      | JObj fs \<Rightarrow>
          (let f = map_of fs;
               fs1 = (case f SLUG of Some v \<Rightarrow> if truthy v then obj_set fs SLUG (JStr (slugify_lib (js_String v))) else fs
                                   | None \<Rightarrow> fs);
               arr = (\<lambda>k g. case f k of Some v \<Rightarrow> obj_set g k (JArr (map JStr (toArray_route (Some v)))) | None \<Rightarrow> g);
               fs2 = arr (U ''keywords'') (arr (U ''tags'') fs1);
               fs3 = (case f (U ''readingMinutes'') of
                        Some v \<Rightarrow> if v = JNull then fs2 else obj_set fs2 (U ''readingMinutes'') (JNum (js_ToNumber v))
                      | None \<Rightarrow> fs2)
           in Inr (JObj fs3))
      | _ \<Rightarrow> Inr patch)"

section \<open>The blog list route\<close>

definition err_body :: "string \<Rightarrow> jval" where
  \<comment> \<open>\<open>{ error: "..." }\<close>\<close>
  "err_body m = JObj [(U ''error'', JStr (U m))]"

definition get_blog_list :: "doc \<Rightarrow> http_resp \<times> doc" where
  \<comment> \<open>\<open>GET /api/blog\<close>: a throw of the store escapes the handler\<close>
  "get_blog_list d =
     (case listArticles d of
        Inl err \<Rightarrow> (ServerError err, d)
      | Inr (items, d1) \<Rightarrow> (JsonResp 200 (JObj [(U ''ok'', JBool True), (U ''items'', JArr items)]), d1))"

definition AUTHOR_DEFAULT :: ustr where
  \<comment> \<open>the Thai words for "content team"\<close>
  "AUTHOR_DEFAULT = [3607, 3637, 3617, 3588, 3629, 3609, 3648, 3607, 3609, 3605, 3660]"

definition CONTENT_DEFAULT :: ustr where
  \<comment> \<open>a heading "subheading" and a paragraph "article content..." in Thai\<close>
  "CONTENT_DEFAULT = [60, 104, 50, 62, 3627, 3633, 3623, 3586, 3657, 3629, 3618, 3656, 3629, 3618, 60, 47, 104, 50, 62,
                      60, 112, 62, 3648, 3609, 3639, 3657, 3629, 3627, 3634, 3610, 3607, 3588, 3623, 3634, 3617, 8230,
                      60, 47, 112, 62]"

definition blog_item :: "env \<Rightarrow> (ustr \<Rightarrow> jval option) \<Rightarrow> ustr \<Rightarrow> ustr \<Rightarrow> (ustr \<times> jval) list" where
  \<comment> \<open>the object the route hands to \<open>createArticle\<close> (lines 23 to 34)\<close>
  "blog_item e f slug title =
     (let str = (\<lambda>k d. JStr (js_String (or_default (f (U k)) (JStr d)))) in
      [(SLUG, JStr slug), (TITLE, JStr title),
       (U ''date'', str ''date'' (case ymd e of (y, m, dd) \<Rightarrow> todayStr y m dd)),
       (U ''excerpt'', str ''excerpt'' []), (U ''image'', str ''image'' []),
       (U ''tags'', JArr (toArray_text (f (U ''tags'')))),
       (U ''keywords'', JArr (toArray_text (f (U ''keywords'')))),
       (U ''author'', str ''author'' AUTHOR_DEFAULT),
       (U ''readingMinutes'', JNum (case f (U ''readingMinutes'') of
                                     Some v \<Rightarrow> if v = JNull then JFin 5 else js_ToNumber v | None \<Rightarrow> JFin 5)),
       (U ''contentHtml'', str ''contentHtml'' CONTENT_DEFAULT)])"

definition post_blog :: "env \<Rightarrow> http_req \<Rightarrow> doc \<Rightarrow> http_resp \<times> doc" where
  \<comment> \<open>\<open>POST /api/blog\<close>: no authentication; every throw, \<open>body.title\<close> of \<open>null\<close> included,
      is caught and answered with 400\<close>
  "post_blog e rq d =
     (let body = body_or_empty rq in
      case get_prop body TITLE of
        Inl err \<Rightarrow> (ErrorResp 400 err, d)
      | Inr t \<Rightarrow>
          (let title = js_trim (js_String (or_default t (JStr []))); f = opt_prop body;
               slug = (case f SLUG of Some v \<Rightarrow> if truthy v then slugify_text (nfkd e) (js_String v)
                                                else slugify_text (nfkd e) title
                                   | None \<Rightarrow> slugify_text (nfkd e) title)
           in if title = [] then (JsonResp 400 (err_body ''title_required''), d)
              else if slug = [] then (JsonResp 400 (err_body ''invalid_slug''), d)
              else case createArticle e (blog_item e f slug title) d of
                     Inl err \<Rightarrow> (ErrorResp 400 err, d)
                   | Inr (saved, d1) \<Rightarrow> (JsonResp 200 (JObj [(U ''ok'', JBool True), (U ''item'', saved)]), d1)))"

section \<open>The blog item route\<close>

definition get_blog_item :: "auth_env \<Rightarrow> http_req \<Rightarrow> ustr \<Rightarrow> doc \<Rightarrow> http_resp \<times> doc" where
  \<comment> \<open>\<open>GET /api/blog/[slug]\<close>: a draft is hidden from a request that is not an admin's\<close>
  "get_blog_item ae rq slug d =
     (if slug = [] then (JsonResp 400 (err_body ''missing_slug''), d)
      else case getBlog slug d of
        Inl err \<Rightarrow> (ServerError err, d)
      | Inr (None, d1) \<Rightarrow> (JsonResp 404 (err_body ''not_found''), d1)
      | Inr (Some it, d1) \<Rightarrow>
          if opt_prop it (U ''status'') = Some (JStr (U ''draft'')) \<and> \<not> isAdmin ae rq
          then (JsonResp 404 (err_body ''not_found''), d1)
          else (JsonResp 200 it, d1))"

definition put_blog_item :: "auth_env \<Rightarrow> env \<Rightarrow> http_req \<Rightarrow> ustr \<Rightarrow> doc \<Rightarrow> http_resp \<times> doc" where
  \<comment> \<open>\<open>PUT /api/blog/[slug]\<close>: only \<open>updateBlog\<close> is inside the \<open>try\<close>; its \<open>null\<close> (no item)
      is answered with status 200\<close>
  "put_blog_item ae e rq slug d =
     (if \<not> isAdmin ae rq then (JsonResp 401 (err_body ''unauthorized''), d)
      else if slug = [] then (JsonResp 400 (err_body ''missing_slug''), d)
      else case normalize_patch (body_or_empty rq) of
        Inl err \<Rightarrow> (ServerError err, d)
      | Inr p \<Rightarrow>
          (case updateBlog e slug p d of
             Inl err \<Rightarrow> (ErrorResp 400 err, d)
           | Inr (r, d1) \<Rightarrow> (JsonResp 200 (case r of Some it \<Rightarrow> it | None \<Rightarrow> JNull), d1)))"

definition delete_blog_item :: "auth_env \<Rightarrow> http_req \<Rightarrow> ustr \<Rightarrow> doc \<Rightarrow> http_resp \<times> doc" where
  \<comment> \<open>\<open>DELETE /api/blog/[slug]\<close>: the result of \<open>removeBlog\<close> is not looked at\<close>
  "delete_blog_item ae rq slug d =
     (if \<not> isAdmin ae rq then (JsonResp 401 (err_body ''unauthorized''), d)
      else if slug = [] then (JsonResp 400 (err_body ''missing_slug''), d)
      else case removeBlog slug d of
        Inl err \<Rightarrow> (ErrorResp 400 err, d)
      | Inr (removed, d1) \<Rightarrow> (JsonResp 200 (JObj [(U ''ok'', JBool True)]), d1))"

section \<open>The read-only item routes\<close>

definition ok_item :: "jval \<Rightarrow> http_resp" where
  "ok_item it = JsonResp 200 (JObj [(U ''ok'', JBool True), (U ''item'', it)])"

definition not_ok :: "nat \<Rightarrow> string \<Rightarrow> http_resp" where
  \<comment> \<open>\<open>{ ok: false, error }\<close>\<close>
  "not_ok st m = JsonResp st (JObj [(U ''ok'', JBool False), (U ''error'', JStr (U m))])"

definition get_post_item :: "ustr \<Rightarrow> doc \<Rightarrow> http_resp \<times> doc" where
  \<comment> \<open>\<open>GET /api/posts/[slug]\<close> over \<open>getPostBySlug\<close>\<close>
  "get_post_item slug d =
     (if slug = [] then (not_ok 400 ''Missing slug'', d)
      else case getPostBySlug (JStr slug) d of
        (Inl err, d1) \<Rightarrow> (ServerError err, d1)
      | (Inr r, d1) \<Rightarrow> (case r of Some it \<Rightarrow> if truthy it then (ok_item it, d1) else (not_ok 404 ''Not found'', d1)
                                | None \<Rightarrow> (not_ok 404 ''Not found'', d1)))"

definition get_review_item :: "(ustr \<Rightarrow> jval option js) \<Rightarrow> ustr \<Rightarrow> http_resp" where
  \<comment> \<open>\<open>GET /api/reviews/[slug]\<close>; \<open>getReviewBySlug\<close> is the parameter\<close>
  "get_review_item getReviewBySlug slug =
     (if slug = [] then not_ok 400 ''Missing slug''
      else case getReviewBySlug slug of
        Inl err \<Rightarrow> ServerError err
      | Inr r \<Rightarrow> if truthy_opt r then ok_item (case r of Some it \<Rightarrow> it | None \<Rightarrow> JNull) else not_ok 404 ''Not found'')"

definition or_null :: "jval option \<Rightarrow> jval" where
  \<comment> \<open>\<open>x || null\<close>\<close>
  "or_null v = or_default v JNull"

definition get_video_item :: "jval list js \<Rightarrow> ustr \<Rightarrow> http_resp" where
  \<comment> \<open>\<open>GET /api/videos/[slug]\<close>; the result of \<open>getAllVideos()\<close> is the parameter; \<open>prev\<close>
      and \<open>next\<close> are the neighbours in its order\<close>
  "get_video_item all slug =
     (if slug = [] then not_ok 400 ''Missing slug''
      else case all of
        Inl err \<Rightarrow> ServerError err
      | Inr items \<Rightarrow>
          (case js_find_index (\<lambda>v. js_bind (get_prop v SLUG) (\<lambda>s. Inr (or_default s (JStr []) = JStr slug))) items of
             Inl err \<Rightarrow> ServerError err
           | Inr None \<Rightarrow> not_ok 404 ''Not found''
           | Inr (Some i) \<Rightarrow>
               JsonResp 200 (JObj [(U ''ok'', JBool True), (U ''item'', items ! i),
                                   (U ''prev'', if i = 0 then JNull else or_null (Some (items ! (i - 1)))),
                                   (U ''next'', if Suc i < length items then or_null (Some (items ! Suc i)) else JNull)])))"

definition sitemap_list :: "ustr \<Rightarrow> http_resp" where
  \<comment> \<open>\<open>GET /api/sitemap/list\<close>, \<open>now\<close> the ISO time of the request\<close>
  "sitemap_list iso_now =
     (let page = (\<lambda>loc f p. JObj [(U ''loc'', JStr (U loc)), (U ''lastmod'', JStr iso_now),
                                 (U ''changefreq'', JStr (U f)), (U ''priority'', JNum (JFin p))])
      in JsonResp 200 (JObj [(U ''items'', JArr [page ''/services'' ''weekly'' (8 / 10), page ''/portfolio'' ''weekly'' (8 / 10),
                                                 page ''/blog'' ''daily'' (7 / 10)]),
                            (U ''page'', JNum (JFin 1)), (U ''hasMore'', JBool False)]))"

section \<open>Sample requests\<close>

definition blog_env :: env where
  "blog_env = \<lparr>now = 0, ymd = (2025, 3, 7), nfkd = id\<rparr>"

definition rename_req :: http_req where
  \<comment> \<open>a request with the admin flag asking to rename an item to \<open>___\<close>\<close>
  "rename_req = \<lparr>h_authorization = None, h_cookie = Some (U ''admin=1''), req_body = Some (JObj [(SLUG, JStr (U ''___''))])\<rparr>"

definition keywords_req :: http_req where
  \<comment> \<open>an anonymous request creating the article \<open>a\<close> with keywords and an image\<close>
  "keywords_req = \<lparr>h_authorization = None, h_cookie = None,
                   req_body = Some (JObj [(TITLE, JStr (U ''a'')), (U ''keywords'', JArr [JStr (U ''k'')]),
                                          (U ''image'', JStr (U ''i.png''))])\<rparr>"

section \<open>Lemmas\<close>

lemma uniq_from_props:
  "set (uniq_from seen xs) \<subseteq> set xs \<and> distinct (map js_lower (uniq_from seen xs))
   \<and> (\<forall>t \<in> set (uniq_from seen xs). js_lower t \<notin> set seen)"
proof (induction seen xs rule: uniq_from.induct)
  case (1 seen)
  then show ?case by simp
next
  case (2 seen v vs)
  show ?case
  proof (cases "js_lower v \<in> set seen")
    case True
    then show ?thesis using "2.IH"(1) by auto
  next
    case False
    then have u: "uniq_from seen (v # vs) = v # uniq_from (js_lower v # seen) vs" by simp
    have ih: "set (uniq_from (js_lower v # seen) vs) \<subseteq> set vs"
      "distinct (map js_lower (uniq_from (js_lower v # seen) vs))"
      "\<forall>t \<in> set (uniq_from (js_lower v # seen) vs). js_lower t \<notin> set (js_lower v # seen)"
      using "2.IH"(2)[OF False] by blast+
    have "js_lower v \<notin> js_lower ` set (uniq_from (js_lower v # seen) vs)" using ih(3) by auto
    then show ?thesis unfolding u using ih False by auto
  qed
qed

lemma toArray_route_shape: "\<exists>zs. toArray_route x = uniq (filter (\<lambda>s. s \<noteq> []) (map js_trim zs))"
proof (cases "\<exists>xs. x = Some (JArr xs)")
  case True
  then obtain xs where "x = Some (JArr xs)" by blast
  then have "toArray_route x = uniq (filter (\<lambda>s. s \<noteq> []) (map js_trim (map js_String xs)))"
    by (simp add: toArray_route_def comp_def)
  then show ?thesis by blast
next
  case False
  then have "toArray_route x = uniq (parseTokens x)"
    by (auto simp: toArray_route_def split: option.split jval.split)
  then show ?thesis unfolding parseTokens_def by blast
qed

lemma createArticle_item: "createArticle e p d = Inr (it, d') \<Longrightarrow> \<exists>s t. it = new_item e p s t"
  by (auto simp: createArticle_def js_bind_def Let_def split: sum.splits prod.splits if_splits)

lemma new_item_fields:
  "opt_prop (new_item e p s t) (U ''keywords'') = None \<and> opt_prop (new_item e p s t) (U ''image'') = None
   \<and> opt_prop (new_item e p s t) (U ''readingMinutes'') = None"
  by (simp add: new_item_def field_or_def opt_prop_def SLUG_def TITLE_def)

lemma rename_req_admin: "isAdmin ae rename_req"
  using admin_cookie_at[of "[]" "[]"] by (simp add: isAdmin_def rename_req_def header_str_def Let_def)

lemma removeBlog_keeps:
  assumes "loadAll d = Inr (xs, d1)" "list_all is_obj xs" "s \<noteq> []" "\<not> list_ex (has_slug s) xs"
  shows "removeBlog s d = Inr (False, d1)"
proof -
  have "js_filter (\<lambda>x. js_bind (slug_is s x) (\<lambda>b. Inr (\<not> b))) xs = Inr xs"
    using assms(2,4) js_filter_pure[of xs _ "Not \<circ> has_slug s"]
    by (simp add: list_all_iff list_ex_iff slug_is_obj)
  then show ?thesis using assms(1,3) by (simp add: removeBlog_def)
qed

lemma orphan_read: "s \<noteq> [] \<Longrightarrow> getBlog s (saveAll [JObj [(SLUG, JStr [])]]) = Inr (None, saveAll [JObj [(SLUG, JStr [])]])"
  by (simp add: getBlog_def loadAll_saveAll slug_is_def)

lemma keywords_req_created:
  "\<exists>it d'. post_blog blog_env keywords_req Missing = (JsonResp 200 (JObj [(U ''ok'', JBool True), (U ''item'', it)]), d')"
proof -
  define B where "B = JObj [(TITLE, JStr (U ''a'')), (U ''keywords'', JArr [JStr (U ''k'')]), (U ''image'', JStr (U ''i.png''))]"
  define P where "P = blog_item blog_env (opt_prop B) (U ''a'') (U ''a'')"
  have b: "body_or_empty keywords_req = B" by (simp add: keywords_req_def body_or_empty_def B_def)
  have t: "get_prop B TITLE = Inr (Some (JStr (U ''a'')))" by (simp add: B_def TITLE_def)
  have tr: "js_trim (U ''a'') = U ''a''" by (simp add: js_trim_def is_js_ws_def)
  have sl: "slugify_text id (U ''a'') = U ''a''" by (simp add: slug_eval)
  have ns: "opt_prop B SLUG = None" by (simp add: B_def opt_prop_def SLUG_def TITLE_def)
  have ti: "title_of P = Inr (U ''a'')" by (simp add: P_def blog_item_def title_of_def tr[simplified] SLUG_def TITLE_def)
  have "createArticle blog_env P Missing
        = Inr (new_item blog_env P (create_slug blog_env P (U ''a'') []) (U ''a''),
               saveAll ([] @ [new_item blog_env P (create_slug blog_env P (U ''a'') []) (U ''a'')]))"
    using createArticle_eq[OF loadAll_Missing, of blog_env P] ti by simp
  then obtain X Y where "createArticle blog_env P Missing = Inr (X, Y)" by blast
  then have c: "createArticle blog_env (blog_item blog_env (opt_prop B) [97] [97]) Missing = Inr (X, Y)"
    by (simp add: P_def)
  have n: "nfkd blog_env = id" by (simp add: blog_env_def)
  show ?thesis
    by (simp add: post_blog_def Let_def b t tr[simplified] ns sl[simplified] n c truthy_opt_def or_default_def)
qed

section \<open>Properties\<close>

text \<open>
  C26: The token lists of an update are clean: every tag or keyword the item route stores
  is non-empty and trimmed, and no two of them differ only in letter case (the first
  spelling is kept).
\<close>
theorem toArray_route_tokens:
  "list_all (\<lambda>t. t \<noteq> [] \<and> js_trim t = t) (toArray_route x) \<and> distinct (map js_lower (toArray_route x))"
proof -
  obtain zs where z: "toArray_route x = uniq (filter (\<lambda>s. s \<noteq> []) (map js_trim zs))"
    using toArray_route_shape by blast
  have u: "set (uniq ys) \<subseteq> set ys" "distinct (map js_lower (uniq ys))" for ys
    using uniq_from_props[of "[]" ys] by (simp_all add: uniq_def)
  show ?thesis
    using u[of "filter (\<lambda>s. s \<noteq> []) (map js_trim zs)"] trimmed_tokens[of zs] unfolding z list_all_iff
    by blast
qed

text \<open>
  C25: Creating an article drops fields the route computes. Whenever \<open>POST /api/blog\<close>
  answers 200, the created item has no \<open>keywords\<close>, no \<open>image\<close> and no
  \<open>readingMinutes\<close>: \<open>createArticle\<close> copies a fixed list of fields. The route asks for no
  credentials.
\<close>
theorem post_blog_drops_fields:
  assumes "post_blog e rq d = (JsonResp 200 (JObj [(U ''ok'', JBool True), (U ''item'', it)]), d')"
  shows "opt_prop it (U ''keywords'') = None \<and> opt_prop it (U ''image'') = None
       \<and> opt_prop it (U ''readingMinutes'') = None"
proof -
  obtain p where "createArticle e p d = Inr (it, d')"
    using assms by (auto simp: post_blog_def Let_def split: sum.splits if_splits prod.splits)
  then obtain s t where "it = new_item e p s t" using createArticle_item by blast
  then show ?thesis using new_item_fields by simp
qed

theorem post_blog_drops_fields_witness:
  "\<exists>it d'. post_blog blog_env keywords_req Missing = (JsonResp 200 (JObj [(U ''ok'', JBool True), (U ''item'', it)]), d')
        \<and> opt_prop it (U ''keywords'') = None \<and> opt_prop it (U ''image'') = None
        \<and> opt_prop it (U ''readingMinutes'') = None"
proof -
  obtain it d' where r: "post_blog blog_env keywords_req Missing
                           = (JsonResp 200 (JObj [(U ''ok'', JBool True), (U ''item'', it)]), d')"
    using keywords_req_created by blast
  show ?thesis using post_blog_drops_fields[OF r] r by blast
qed

text \<open>
  Deleting a slug that no item has succeeds: an admin's \<open>DELETE /api/blog/[slug]\<close>
  answers 200 \<open>{ ok: true }\<close> and leaves the file as read, since the route ignores the
  \<open>false\<close> that \<open>removeBlog\<close> returns.
\<close>
theorem delete_blog_item_missing:
  assumes "isAdmin ae rq" "s \<noteq> []" "loadAll d = Inr (xs, d1)" "list_all is_obj xs" "\<not> list_ex (has_slug s) xs"
  shows "delete_blog_item ae rq s d = (JsonResp 200 (JObj [(U ''ok'', JBool True)]), d1)"
  using assms removeBlog_keeps[OF assms(3,4,2,5)] by (simp add: delete_blog_item_def)

theorem delete_blog_item_missing_witness:
  "delete_blog_item default_auth rename_req (U ''b'') (saveAll [JObj [(SLUG, JStr (U ''a''))]])
     = (JsonResp 200 (JObj [(U ''ok'', JBool True)]), saveAll [JObj [(SLUG, JStr (U ''a''))]])"
proof -
  have l: "loadAll (saveAll [JObj [(SLUG, JStr (U ''a''))]])
           = Inr ([JObj [(SLUG, JStr (U ''a''))]], saveAll [JObj [(SLUG, JStr (U ''a''))]])"
    by (simp add: loadAll_saveAll)
  show ?thesis
    by (rule delete_blog_item_missing[OF rename_req_admin _ l]) (simp_all add: has_slug_def)
qed

text \<open>
  C24: An update can orphan an item. \<open>PUT /api/blog/a\<close> with the slug \<open>___\<close> passes it
  through \<open>slugify\<close> of \<open>lib/slugify.js\<close> (which keeps it) and then of \<open>lib/text.js\<close>
  (which removes every underscore), and stores the item under the empty slug; from then
  on no \<open>GET\<close> of the item route returns it and no \<open>DELETE\<close> removes it.
\<close>
theorem put_empty_slug_unreachable:
  "put_blog_item ae blog_env rename_req (U ''a'') (saveAll [JObj [(SLUG, JStr (U ''a''))]])
     = (JsonResp 200 (JObj [(SLUG, JStr [])]), saveAll [JObj [(SLUG, JStr [])]])
   \<and> (\<forall>s. fst (get_blog_item ae rq s (saveAll [JObj [(SLUG, JStr [])]])) \<noteq> JsonResp 200 (JObj [(SLUG, JStr [])]))
   \<and> (\<forall>s. snd (delete_blog_item ae rq s (saveAll [JObj [(SLUG, JStr [])]])) = saveAll [JObj [(SLUG, JStr [])]])"
proof (intro conjI allI)
  show "put_blog_item ae blog_env rename_req (U ''a'') (saveAll [JObj [(SLUG, JStr (U ''a''))]])
     = (JsonResp 200 (JObj [(SLUG, JStr [])]), saveAll [JObj [(SLUG, JStr [])]])"
    using rename_req_admin[of ae]
    by (simp add: put_blog_item_def normalize_patch_def rename_req_def body_or_empty_def blog_env_def blog_eval)
next
  fix s
  show "fst (get_blog_item ae rq s (saveAll [JObj [(SLUG, JStr [])]])) \<noteq> JsonResp 200 (JObj [(SLUG, JStr [])])"
    using orphan_read[of s] by (cases "s = []") (simp_all add: get_blog_item_def)
next
  fix s
  have l: "loadAll (saveAll [JObj [(SLUG, JStr [])]]) = Inr ([JObj [(SLUG, JStr [])]], saveAll [JObj [(SLUG, JStr [])]])"
    by (simp add: loadAll_saveAll)
  have "\<not> list_ex (has_slug s) [JObj [(SLUG, JStr [])]]" if "s \<noteq> []"
    using that by (simp add: has_slug_def)
  then have "s \<noteq> [] \<Longrightarrow> removeBlog s (saveAll [JObj [(SLUG, JStr [])]]) = Inr (False, saveAll [JObj [(SLUG, JStr [])]])"
    using removeBlog_keeps[OF l] by simp
  then show "snd (delete_blog_item ae rq s (saveAll [JObj [(SLUG, JStr [])]])) = saveAll [JObj [(SLUG, JStr [])]]"
    by (simp add: delete_blog_item_def)
qed

end
