(* ===== verification/Transcript.thy ===== *)
theory Transcript
  imports Text
begin

text \<open>
  The transcript and chapter generator and the text helpers of the video admin page,
  \<open>src/src/app/admin/vdo/page.jsx\<close> lines 39 to 216: \<open>slugifyTH\<close>, the CSV helpers of the
  tags and keywords inputs, \<open>timecodeToSeconds\<close> and \<open>secondsToTimecode\<close>, the line regular
  expression of \<open>parseTranscriptRaw\<close>, \<open>escapeHtml\<close>, the transcript HTML, \<open>guessLabel\<close>
  and the chapter de-duplication. All are pure functions of strings of UTF-16 code units.
\<close>

section \<open>slugifyTH\<close>

text \<open>
  The class \<open>[^\p{L}\p{N}\s-]\<close> needs the Unicode general categories. The model has them
  for ASCII, Latin-1 and the Thai block, where the site's text lives; for every other code
  unit the class is the parameter \<open>other\<close>. Thai vowel and tone marks are category Mn, not
  letters, so the class removes them.
\<close>

definition latin1_LN :: "nat \<Rightarrow> bool" where
  \<comment> \<open>letters and numbers below U+0100\<close>
  "latin1_LN c \<longleftrightarrow> (48 \<le> c \<and> c \<le> 57) \<or> (65 \<le> c \<and> c \<le> 90) \<or> (97 \<le> c \<and> c \<le> 122)
     \<or> c \<in> {170, 178, 179, 181, 185, 186, 188, 189, 190}
     \<or> (192 \<le> c \<and> c \<le> 255 \<and> c \<noteq> 215 \<and> c \<noteq> 247)"

definition thai_LN :: "nat \<Rightarrow> bool" where
  \<comment> \<open>U+0E01..U+0E30, U+0E32, U+0E33, U+0E40..U+0E46 (Lo, Lm) and the Thai digits (Nd)\<close>
  "thai_LN c \<longleftrightarrow> (3585 \<le> c \<and> c \<le> 3632) \<or> c = 3634 \<or> c = 3635 \<or> (3648 \<le> c \<and> c \<le> 3654)
     \<or> (3664 \<le> c \<and> c \<le> 3673)"

definition uni_LN :: "(nat \<Rightarrow> bool) \<Rightarrow> nat \<Rightarrow> bool" where
  "uni_LN other c = (if c < 256 then latin1_LN c else if 3584 \<le> c \<and> c \<le> 3711 then thai_LN c else other c)"

definition slugifyTH :: "(nat \<Rightarrow> bool) \<Rightarrow> ustr \<Rightarrow> ustr" where
  "slugifyTH other s =
     strip_one_hyphen (replace_runs is_hyphen 45 (replace_runs is_js_ws 45
       (filter (\<lambda>c. uni_LN other c \<or> is_js_ws c \<or> c = 45) (js_lower (js_trim s)))))"

section \<open>Arrays and CSV\<close>

definition safeArray :: "jval option \<Rightarrow> jval list" where
  "safeArray v = (case v of Some (JArr xs) \<Rightarrow> xs | _ \<Rightarrow> [])"

definition csvToArray :: "ustr \<Rightarrow> ustr list" where
  \<comment> \<open>\<open>String(s || "").split(",").map(trim).filter(Boolean)\<close> on the text of an input\<close>
  "csvToArray s = filter (\<lambda>x. x \<noteq> []) (map js_trim (js_split 44 s))"

definition arrayToCsv :: "jval option \<Rightarrow> ustr" where
  \<comment> \<open>\<open>safeArray(arr).join(", ")\<close>: \<open>join\<close> prints \<open>null\<close> as the empty string\<close>
  "arrayToCsv v = js_join [44, 32] (map (\<lambda>x. if x = JNull then [] else js_String x) (safeArray v))"

section \<open>Timecodes\<close>

definition timecodeToSeconds :: "ustr \<Rightarrow> jnum option" where
  \<comment> \<open>\<open>None\<close> is \<open>null\<close>\<close>
  "timecodeToSeconds tc =
     (let t = js_trim tc in
      if t = [] then None
      else let parts = map js_number_of_string (js_split 58 t) in
        if JNaN \<in> set parts then None
        else if length parts = 3 then
          Some (jadd (jadd (jmul (parts ! 0) (JFin 3600)) (jmul (parts ! 1) (JFin 60))) (parts ! 2))
        else if length parts = 2 then Some (jadd (jmul (parts ! 0) (JFin 60)) (parts ! 1))
        else if length parts = 1 then Some (parts ! 0)
        else None)"

definition secondsToTimecode :: "nat \<Rightarrow> ustr" where
  \<comment> \<open>on the whole seconds \<open>Math.max(0, Math.floor(sec))\<close>; \<open>padStart(2, "0")\<close> is \<open>pad2\<close>\<close>
  "secondsToTimecode s =
     (let h = s div 3600; m = s mod 3600 div 60; r = s mod 60 in
      if 0 < h then pad2 (to_radix 10 h) @ [58] @ pad2 (to_radix 10 m) @ [58] @ pad2 (to_radix 10 r)
      else pad2 (to_radix 10 m) @ [58] @ pad2 (to_radix 10 r))"

section \<open>parseTranscriptRaw\<close>

text \<open>
  The line pattern \<open>/^\[?(\d{1,2}:\d{2}(?::\d{2})?)\]?\s*(.*)$/\<close> is matched by
  backtracking: \<open>tc_candidates\<close> lists the ways the pattern can split a line, in the order
  the matcher tries them (greedy choices first), as the captured timecode and the rest that
  \<open>(.*)\<close> must take. The dot does not match a line terminator and \<open>$\<close> is the end of the
  input, so the first candidate whose rest has no line terminator is the match.
\<close>

definition colon_dd :: "ustr \<Rightarrow> bool" where
  \<comment> \<open>the string starts with \<open>:\d\d\<close>\<close>
  "colon_dd s \<longleftrightarrow> 3 \<le> length s \<and> s ! 0 = 58 \<and> is_digit (s ! 1) \<and> is_digit (s ! 2)"

definition ws_splits :: "ustr \<Rightarrow> ustr list" where
  \<comment> \<open>what \<open>\s*\<close> can leave, longest run of whitespace first\<close>
  "ws_splits s = map (\<lambda>k. drop k s) (rev [0..<Suc (length (takeWhile is_js_ws s))])"

definition tail_alts :: "ustr \<Rightarrow> (nat \<times> ustr) list" where
  \<comment> \<open>after \<open>\d{1,2}:\d{2}\<close>: the length of \<open>(?::\d{2})?\<close> and the rest after \<open>\]?\s*\<close>\<close>
  "tail_alts s3 =
     concat (map (\<lambda>q. let s4 = drop q s3 in
       concat (map (\<lambda>c. map (Pair q) (ws_splits (drop c s4)))
         (if s4 \<noteq> [] \<and> hd s4 = 93 then [1, 0] else [0])))
       (if colon_dd s3 then [3, 0] else [0]))"

definition digit_alts :: "ustr \<Rightarrow> (ustr \<times> ustr) list" where
  \<comment> \<open>after \<open>\[?\<close>: \<open>\d{1,2}\<close> with two digits first, then the rest of the pattern\<close>
  "digit_alts s1 =
     concat (map (\<lambda>d.
       if d \<le> length s1 \<and> list_all is_digit (take d s1) \<and> colon_dd (drop d s1)
       then map (\<lambda>(q, rest). (take (d + 3 + q) s1, rest)) (tail_alts (drop (d + 3) s1))
       else []) [2, 1])"

definition tc_candidates :: "ustr \<Rightarrow> (ustr \<times> ustr) list" where
  "tc_candidates l = concat (map (\<lambda>b. digit_alts (drop b l)) (if l \<noteq> [] \<and> hd l = 91 then [1, 0] else [0]))"

definition match_line :: "ustr \<Rightarrow> (ustr \<times> ustr) option" where
  "match_line l = find (\<lambda>(tc, rest). \<not> list_ex is_line_term rest) (tc_candidates l)"

definition transcript_lines :: "ustr \<Rightarrow> ustr list" where
  \<comment> \<open>\<open>String(raw || "").replace(/\r/g, "").split("\n").map(trim).filter(Boolean)\<close>\<close>
  "transcript_lines raw = filter (\<lambda>l. l \<noteq> []) (map js_trim (js_split 10 (filter (\<lambda>c. c \<noteq> 13) raw)))"

definition parse_line :: "ustr \<Rightarrow> ustr \<times> ustr" where
  \<comment> \<open>a matched line gives its timecode and trimmed caption, any other line the empty timecode\<close>
  "parse_line l = (case match_line l of Some (tc, rest) \<Rightarrow> (tc, js_trim rest) | None \<Rightarrow> ([], l))"

definition parseTranscriptRaw :: "ustr \<Rightarrow> (ustr \<times> ustr) list" where
  "parseTranscriptRaw raw = map parse_line (transcript_lines raw)"

section \<open>Transcript HTML\<close>

definition replace_all :: "nat \<Rightarrow> ustr \<Rightarrow> ustr \<Rightarrow> ustr" where
  \<comment> \<open>\<open>s.replaceAll(c, r)\<close> for a one-unit pattern\<close>
  "replace_all c r s = concat (map (\<lambda>x. if x = c then r else [x]) s)"

definition escapeHtml :: "ustr \<Rightarrow> ustr" where
  "escapeHtml s =
     replace_all 39 (U ''&#039;'') (replace_all 34 (U ''&quot;'') (replace_all 62 (U ''&gt;'')
       (replace_all 60 (U ''&lt;'') (replace_all 38 (U ''&amp;'') s))))"

definition badge_open :: ustr where
  \<open>badge_open = U ''<p class="mb-2"><span class="badge text-bg-secondary me-2">''\<close>

definition para_open :: ustr where
  \<open>para_open = U ''<p class="mb-2">''\<close>

definition div_open :: ustr where
  \<open>div_open = U ''<div class="transcript">''\<close>

definition item_html :: "ustr \<times> ustr \<Rightarrow> ustr" where
  "item_html it = (case it of (tc, text) \<Rightarrow>
     if tc \<noteq> [] then badge_open @ escapeHtml tc @ U ''</span>'' @ escapeHtml text @ U ''</p>''
     else para_open @ escapeHtml text @ U ''</p>'')"

definition buildTranscriptHtmlFromRaw :: "ustr \<Rightarrow> ustr" where
  "buildTranscriptHtmlFromRaw raw =
     (let items = parseTranscriptRaw raw in
      if items = [] then [] else div_open @ concat (map item_html items) @ U ''</div>'')"

section \<open>Chapters\<close>

definition guessLabel :: "ustr \<Rightarrow> ustr" where
  "guessLabel text =
     (let s = js_trim text in
      if s = [] then []
      else let tk = js_join [32] (take 10 (js_words s)) in
        if length tk \<le> 60 then tk else js_trim (take 60 tk) @ [8230])"

fun dedup_chapters :: "ustr list \<Rightarrow> (ustr \<times> ustr) list \<Rightarrow> (ustr \<times> ustr) list" where
  \<comment> \<open>the loop over \<open>chapters\<close> with the set \<open>seen\<close> of keys\<close>
  "dedup_chapters seen [] = []"
| "dedup_chapters seen ((t, lbl) # cs) =
     (let k = js_trim t in
      if k = [] \<or> k \<in> set seen then dedup_chapters seen cs else (k, lbl) # dedup_chapters (k # seen) cs)"

definition raw_chapters :: "(ustr \<times> ustr) list \<Rightarrow> (ustr \<times> ustr) list" where
  \<comment> \<open>the first loop: lines with a timecode and a non-empty label\<close>
  "raw_chapters items = filter (\<lambda>(t, lbl). lbl \<noteq> []) (map (\<lambda>(tc, text). (tc, guessLabel text))
                          (filter (\<lambda>(tc, text). tc \<noteq> []) items))"

definition buildChaptersFromRawTranscript :: "ustr \<Rightarrow> (ustr \<times> ustr) list" where
  "buildChaptersFromRawTranscript raw = dedup_chapters [] (raw_chapters (parseTranscriptRaw raw))"

section \<open>Reference readings\<close>

text \<open>
  \<open>esc_unit\<close> escapes one code unit and \<open>html_unescape\<close> decodes the five character
  references \<open>escapeHtml\<close> produces; \<open>tc_parse\<close> reads the line pattern deterministically:
  an optional \<open>[\<close>, two digits when there are two, \<open>:\d\d\<close>, an optional \<open>:\d\d\<close>, an
  optional \<open>]\<close> and the whitespace before the caption.
\<close>

definition esc_unit :: "nat \<Rightarrow> ustr" where
  "esc_unit c = (if c = 38 then U ''&amp;'' else if c = 60 then U ''&lt;'' else if c = 62 then U ''&gt;''
                 else if c = 34 then U ''&quot;'' else if c = 39 then U ''&#039;'' else [c])"

fun html_unescape :: "ustr \<Rightarrow> ustr" where
  "html_unescape [] = []"
| "html_unescape (c # cs) =
     (if c = 38 then
        (if take 4 cs = U ''amp;'' then 38 # html_unescape (drop 4 cs)
         else if take 3 cs = U ''lt;'' then 60 # html_unescape (drop 3 cs)
         else if take 3 cs = U ''gt;'' then 62 # html_unescape (drop 3 cs)
         else if take 5 cs = U ''quot;'' then 34 # html_unescape (drop 5 cs)
         else if take 5 cs = U ''#039;'' then 39 # html_unescape (drop 5 cs)
         else 38 # html_unescape cs)
      else c # html_unescape cs)"

definition tc_parse :: "ustr \<Rightarrow> (ustr \<times> ustr) option" where
  "tc_parse l =
     (let s1 = (if l \<noteq> [] \<and> hd l = 91 then tl l else l);
          d = (if 2 \<le> length s1 \<and> is_digit (s1 ! 0) \<and> is_digit (s1 ! 1) then 2 else 1)
      in if d \<le> length s1 \<and> list_all is_digit (take d s1) \<and> colon_dd (drop d s1) then
           (let s3 = drop (d + 3) s1; q = (if colon_dd s3 then 3 else 0); s4 = drop q s3;
                s5 = (if s4 \<noteq> [] \<and> hd s4 = 93 then tl s4 else s4)
            in Some (take (d + 3 + q) s1, dropWhile is_js_ws s5))
         else None)"

section \<open>Lemmas\<close>

lemma replace_all_concat:
  "replace_all c r (concat (map f s)) = concat (map (\<lambda>x. replace_all c r (f x)) s)"
  by (induction s) (simp_all add: replace_all_def)

lemma escapeHtml_unit: "escapeHtml s = concat (map esc_unit s)"
proof -
  have "escapeHtml s = concat (map (\<lambda>x. replace_all 39 (U ''&#039;'') (replace_all 34 (U ''&quot;'')
      (replace_all 62 (U ''&gt;'') (replace_all 60 (U ''&lt;'') (replace_all 38 (U ''&amp;'') [x]))))) s)"
    unfolding escapeHtml_def by (simp add: replace_all_def[of 38] replace_all_concat)
  also have "\<dots> = concat (map esc_unit s)"
    by (rule arg_cong[where f = concat], rule map_cong) (auto simp: replace_all_def esc_unit_def)
  finally show ?thesis .
qed

lemma html_unescape_esc: "html_unescape (esc_unit c @ s) = c # html_unescape s"
  by (simp add: esc_unit_def)

lemma ws_splits_hd: "ws_splits s \<noteq> [] \<and> hd (ws_splits s) = dropWhile is_js_ws s"
  by (simp add: ws_splits_def dropWhile_eq_drop[symmetric] upt_Suc_append)

lemma hd_map_ws_splits: "hd (map (Pair q) (ws_splits s)) = (q, dropWhile is_js_ws s)"
  using ws_splits_hd[of s] by (simp add: hd_map)

lemma hd_concat_map: "f x \<noteq> [] \<Longrightarrow> concat (map f (x # xs)) \<noteq> [] \<and> hd (concat (map f (x # xs))) = hd (f x)"
  by simp

lemma tail_alts_hd:
  "tail_alts s3 \<noteq> [] \<and>
   hd (tail_alts s3) = (let q = (if colon_dd s3 then 3 else 0); s4 = drop q s3;
                            s5 = (if s4 \<noteq> [] \<and> hd s4 = 93 then tl s4 else s4)
                        in (q, dropWhile is_js_ws s5))"
proof -
  define q where "q = (if colon_dd s3 then 3 else (0::nat))"
  define s4 where "s4 = drop q s3"
  have qs: "(if colon_dd s3 then [3, 0] else [0]) = q # (if colon_dd s3 then [0] else [])"
    by (simp add: q_def)
  have cs: "(if s4 \<noteq> [] \<and> hd s4 = 93 then [1, 0] else [0]) =
      (if s4 \<noteq> [] \<and> hd s4 = 93 then 1 else 0) # (if s4 \<noteq> [] \<and> hd s4 = 93 then [0] else [])"
    by simp
  have "drop (if s4 \<noteq> [] \<and> hd s4 = 93 then 1 else 0) s4 = (if s4 \<noteq> [] \<and> hd s4 = 93 then tl s4 else s4)"
    by (simp add: drop_Suc)
  moreover have "tl s4 = drop q (tl s3)" by (simp add: s4_def tl_drop)
  ultimately show ?thesis
    using ws_splits_hd unfolding tail_alts_def qs
    by (simp add: Let_def s4_def[symmetric] cs q_def[symmetric] hd_concat_map hd_map_ws_splits
        drop_Suc tl_drop)
qed

lemma digit_alts_det:
  "digit_alts s1 =
     (let d = (if 2 \<le> length s1 \<and> is_digit (s1 ! 0) \<and> is_digit (s1 ! 1) then 2 else 1)
      in if d \<le> length s1 \<and> list_all is_digit (take d s1) \<and> colon_dd (drop d s1)
         then map (\<lambda>(q, rest). (take (d + 3 + q) s1, rest)) (tail_alts (drop (d + 3) s1))
         else [])"
proof (cases s1)
  case Nil
  then show ?thesis by (simp add: digit_alts_def)
next
  case (Cons a t)
  then show ?thesis
    by (cases t) (auto simp: digit_alts_def colon_dd_def is_digit_def Let_def)
qed

lemma tc_candidates_det:
  "tc_candidates l = digit_alts (if l \<noteq> [] \<and> hd l = 91 then tl l else l)"
proof (cases "l \<noteq> [] \<and> hd l = 91")
  case True
  then obtain t where l: "l = 91 # t" by (cases l) auto
  have "digit_alts (91 # t) = []"
    unfolding digit_alts_det by (simp add: Let_def is_digit_def)
  then show ?thesis by (simp add: tc_candidates_def l)
next
  case False
  then show ?thesis by (simp only: tc_candidates_def if_False) simp
qed

lemma tail_alts_drop: "(q, r) \<in> set (tail_alts s3) \<Longrightarrow> \<exists>n. r = drop n s3"
  by (auto simp: tail_alts_def ws_splits_def Let_def drop_drop split: if_splits)

lemma digit_alts_drop: "(tc, r) \<in> set (digit_alts s1) \<Longrightarrow> \<exists>n. r = drop n s1"
  by (auto simp: digit_alts_def drop_drop split: if_splits dest!: tail_alts_drop)

lemma find_all: "(\<forall>x\<in>set xs. P x) \<Longrightarrow> find P xs = (if xs = [] then None else Some (hd xs))"
  by (cases xs) auto

lemma no_term_drop: "\<not> list_ex is_line_term l \<Longrightarrow> \<not> list_ex is_line_term (drop n l)"
  by (auto simp: list_ex_iff dest: in_set_dropD)

lemma match_line_first:
  assumes "\<not> list_ex is_line_term l"
  shows "match_line l = (let xs = digit_alts (if l \<noteq> [] \<and> hd l = 91 then tl l else l)
                         in if xs = [] then None else Some (hd xs))"
proof -
  define s1 where "s1 = (if l \<noteq> [] \<and> hd l = 91 then tl l else l)"
  have "\<not> list_ex is_line_term s1"
    using no_term_drop[OF assms, of 1] assms by (simp add: s1_def drop_Suc)
  then have "\<forall>x\<in>set (digit_alts s1). (\<lambda>(tc, rest). \<not> list_ex is_line_term rest) x"
    by (fastforce dest!: digit_alts_drop dest: no_term_drop)
  then show ?thesis
    by (simp add: match_line_def tc_candidates_det s1_def[symmetric] find_all Let_def)
qed

lemma dedup_chapters_mem:
  "k \<in> fst ` set (dedup_chapters seen cs) \<longleftrightarrow> k \<noteq> [] \<and> k \<notin> set seen \<and> k \<in> (\<lambda>c. js_trim (fst c)) ` set cs"
proof (induction seen cs rule: dedup_chapters.induct)
  case (2 seen t lbl cs)
  then show ?case by (cases "js_trim t = [] \<or> js_trim t \<in> set seen") (auto simp: Let_def)
qed simp

lemma dedup_chapters_distinct: "distinct (map fst (dedup_chapters seen cs))"
proof (induction seen cs rule: dedup_chapters.induct)
  case (2 seen t lbl cs)
  then show ?case by (auto simp: Let_def dedup_chapters_mem)
qed simp

lemma dedup_chapters_not_seen: "(k, lbl) \<in> set (dedup_chapters seen cs) \<Longrightarrow> k \<notin> set seen"
  using dedup_chapters_mem[of k seen cs] by force

lemma dedup_chapters_first:
  "(k, lbl) \<in> set (dedup_chapters seen cs) \<Longrightarrow> \<exists>t. find (\<lambda>c. js_trim (fst c) = k) cs = Some (t, lbl)"
proof (induction seen cs rule: dedup_chapters.induct)
  case (2 seen t l cs)
  have "k \<in> fst ` set (dedup_chapters seen ((t, l) # cs))"
    using 2(3) by force
  then have "k \<notin> set seen" and "k \<noteq> []" unfolding dedup_chapters_mem by simp_all
  with 2 show ?case by (auto simp: Let_def split: if_splits dest: dedup_chapters_not_seen)
qed simp

lemma slugifyTH_shape: "slug_shape (\<lambda>c. (uni_LN other c \<and> \<not> is_js_ws c) \<or> c = 45) (slugifyTH other s)"
proof -
  let ?k = "filter (\<lambda>c. uni_LN other c \<or> is_js_ws c \<or> c = 45) (js_lower (js_trim s))"
  let ?w = "replace_runs is_js_ws 45 ?k"
  let ?ok = "\<lambda>c. (uni_LN other c \<and> \<not> is_js_ws c) \<or> c = 45"
  have "set ?w \<subseteq> insert 45 {c \<in> set ?k. \<not> is_js_ws c}"
    unfolding replace_runs_def by (rule set_collapse_runs)
  then have ok: "list_all ?ok ?w" by (auto simp: list_all_iff)
  have nd: "no_double 45 (replace_runs is_hyphen 45 ?w)"
    using collapse_runs_no_double[of is_hyphen 45 False ?w] by (simp add: replace_runs_def is_hyphen_def)
  have "slug_shape ?ok (strip_hyphens (replace_runs is_hyphen 45 ?w))"
    using ok by (rule hyphen_tail_shape) simp
  then show ?thesis
    by (simp only: slugifyTH_def strip_one_hyphen_eq_strip_hyphens[OF nd])
qed

lemma digits_value_snoc: "digits_value b (xs @ [d]) = b * digits_value b xs + digit_val d"
  by (simp add: digits_value_def)

lemma digit_val_unit: "d < 10 \<Longrightarrow> digit_val (digit_unit d) = d"
  by (simp add: digit_val_def digit_unit_def)

lemma radix_digits_10: "radix_digits 10 n = (if n < 10 then [n] else radix_digits 10 (n div 10) @ [n mod 10])"
  by (simp add: radix_digits.simps[of 10 n])

lemma digits_value_to_radix: "digits_value 10 (to_radix 10 n) = n"
proof (induction n rule: less_induct)
  case (less n)
  show ?case
  proof (cases "n < 10")
    case True
    then show ?thesis by (simp add: to_radix_def radix_digits_10 digits_value_def digit_val_unit)
  next
    case False
    then have "digits_value 10 (to_radix 10 (n div 10)) = n div 10" by (intro less) simp
    then show ?thesis using False
      by (simp add: to_radix_def radix_digits_10[of n] digits_value_snoc digit_val_unit)
  qed
qed

lemma is_digit_unit: "d < 10 \<Longrightarrow> is_digit (digit_unit d)"
  by (simp add: is_digit_def digit_unit_def)

lemma to_radix_10_digits: "to_radix 10 n \<noteq> [] \<and> list_all is_digit (to_radix 10 n)"
proof (induction n rule: less_induct)
  case (less n)
  show ?case
  proof (cases "n < 10")
    case True
    then show ?thesis by (simp add: to_radix_def radix_digits_10 is_digit_def digit_unit_def)
  next
    case False
    then have "list_all is_digit (to_radix 10 (n div 10))" by (intro conjunct2[OF less]) simp
    then show ?thesis using False
      by (simp add: to_radix_def radix_digits_10[of n] is_digit_unit)
  qed
qed

lemma digits_value_zeros: "digits_value b (replicate k 48 @ s) = digits_value b s"
  by (induction k) (simp_all add: digits_value_def digit_val_def)

lemma js_number_of_digits:
  assumes "ds \<noteq> []" and "list_all is_digit ds"
  shows "js_number_of_string ds = JFin (of_nat (digits_value 10 ds))"
proof -
  have ws: "js_trim ds = ds"
    using assms(2) by (intro js_trim_id) (auto simp: list_all_iff is_digit_def is_js_ws_def)
  have h: "48 \<le> hd ds \<and> hd ds \<le> 57"
    using assms by (cases ds) (simp_all add: is_digit_def)
  have i: "48 \<le> ds ! 1 \<and> ds ! 1 \<le> 57" if "2 \<le> length ds"
    using assms that by (simp add: list_all_iff is_digit_def)
  have p: "\<not> (2 \<le> length ds \<and> hd ds = 48 \<and> (ds ! 1 = c1 \<or> ds ! 1 = c2))"
    if "57 < c1" "57 < c2" for c1 c2
    using i that by auto
  have sg: "sign_split ds = (True, ds)"
    using h by (simp add: sign_split_def)
  have inf: "ds \<noteq> U ''Infinity''" using h by auto
  have tw: "takeWhile is_digit ds = ds" and dw: "dropWhile is_digit ds = []"
    using assms(2) by (simp_all add: list_all_iff)
  have "parse_unsigned_decimal ds = Some (of_nat (digits_value 10 ds))"
    using assms(1) by (simp add: parse_unsigned_decimal_def tw dw parse_exponent_def pow10_def)
  then show ?thesis
    using assms(1) p[of 120 88] p[of 111 79] p[of 98 66] inf by (auto simp: js_number_of_string_def ws sg)
qed

lemma pad2_number:
  "pad2 (to_radix 10 n) \<noteq> [] \<and> list_all is_digit (pad2 (to_radix 10 n)) \<and>
   js_number_of_string (pad2 (to_radix 10 n)) = JFin (of_nat n)"
proof -
  have d: "to_radix 10 n \<noteq> []" "list_all is_digit (to_radix 10 n)"
    using to_radix_10_digits by auto
  then have "list_all is_digit (pad2 (to_radix 10 n))"
    by (auto simp: pad2_def list_all_iff is_digit_def dest: in_set_replicate[THEN iffD1])
  moreover have "digits_value 10 (pad2 (to_radix 10 n)) = n"
    by (simp add: pad2_def digits_value_zeros digits_value_to_radix)
  ultimately show ?thesis using d(1) js_number_of_digits[of "pad2 (to_radix 10 n)"]
    by (simp add: pad2_def)
qed

lemma digits_no_char: "list_all is_digit ds \<Longrightarrow> \<not> is_digit c \<Longrightarrow> c \<notin> set ds"
  by (auto simp: list_all_iff)

lemma digits_not_ws: "list_all is_digit ds \<Longrightarrow> \<forall>c \<in> set ds. \<not> is_js_ws c"
  by (auto simp: list_all_iff is_digit_def is_js_ws_def)

lemma sec_split: "(s::nat) = s div 3600 * 3600 + s mod 3600 div 60 * 60 + s mod 60"
proof -
  have "s mod 3600 = s mod 3600 div 60 * 60 + s mod 3600 mod 60" by simp
  moreover have "s mod 3600 mod 60 = s mod 60" by (simp add: mod_mod_cancel)
  ultimately show ?thesis by (metis add.assoc div_mult_mod_eq)
qed

lemma tc_nc: "58 \<notin> set (pad2 (to_radix 10 h))"
  using pad2_number[of h] digits_no_char[of _ 58] by (simp add: is_digit_def)

lemma tc_s: "(of_nat s :: rat) = of_nat (s div 3600) * 3600 + of_nat (s mod 3600 div 60) * 60 + of_nat (s mod 60)"
proof -
  have "(of_nat s :: rat) = of_nat (s div 3600 * 3600 + s mod 3600 div 60 * 60 + s mod 60)"
    using sec_split[of s] by simp
  then show ?thesis by (simp only: of_nat_add of_nat_mult of_nat_numeral)
qed


lemma guessLabel_trimmed: "js_trim (guessLabel text) = guessLabel text"
proof -
  define s where "s = js_trim text"
  define tk where "tk = js_join [32] (take 10 (js_words s))"
  have "js_trim tk = tk"
  proof (cases "take 10 (js_words s) = []")
    case True
    then show ?thesis by (simp add: tk_def js_join_def js_trim_def)
  next
    case False
    define ws where "ws = take 10 (js_words s)"
    have w: "\<forall>w \<in> set ws. w \<noteq> [] \<and> (\<forall>c \<in> set w. \<not> is_js_ws c)"
      unfolding ws_def using js_words_words by (meson in_set_takeD)
    have ne: "ws \<noteq> []" using False by (simp add: ws_def)
    then have "hd ws \<in> set ws" "last ws \<in> set ws" by simp_all
    then have "hd ws \<noteq> []" "last ws \<noteq> []" "\<not> is_js_ws (hd (hd ws))" "\<not> is_js_ws (last (last ws))"
      using w by (meson hd_in_set last_in_set)+
    then show ?thesis
      using js_join_ends[OF ne, of "[32]"] w unfolding tk_def ws_def[symmetric]
      by (intro js_trim_hd_last) simp_all
  qed
  moreover have "js_trim (js_trim (take 60 tk) @ [8230]) = js_trim (take 60 tk) @ [8230]"
  proof (cases "js_trim (take 60 tk) = []")
    case True
    then show ?thesis by simp (simp add: js_trim_def is_js_ws_def)
  next
    case False
    then show ?thesis using js_trim_ends[OF False]
      by (intro js_trim_hd_last) (simp_all add: is_js_ws_def)
  qed
  moreover have "guessLabel text = (if s = [] then [] else if length tk \<le> 60 then tk
      else js_trim (take 60 tk) @ [8230])"
    by (simp add: guessLabel_def Let_def s_def tk_def)
  moreover have "js_trim [] = []" by (simp add: js_trim_def)
  ultimately show ?thesis by simp
qed

lemma colon_dd_take: "colon_dd s \<Longrightarrow> take 3 s = [58, s ! 1, s ! 2]"
proof -
  assume "colon_dd s"
  then have "3 \<le> length s" "s ! 0 = 58" by (simp_all add: colon_dd_def)
  moreover obtain a b c t where "s = a # b # c # t"
    using \<open>3 \<le> length s\<close> by (metis Suc_le_length_iff numeral_3_eq_3)
  ultimately show ?thesis by simp
qed

lemma tail_alts_q: "(q, r) \<in> set (tail_alts s3) \<Longrightarrow> q = 0 \<or> (q = 3 \<and> colon_dd s3)"
  by (auto simp: tail_alts_def Let_def split: if_splits)

lemma digit_alts_tc:
  assumes "(tc, r) \<in> set (digit_alts s1)"
  shows "\<exists>ds x y rest. ds \<noteq> [] \<and> list_all is_digit ds \<and> is_digit x \<and> is_digit y \<and>
           (rest = [] \<or> (\<exists>z w. rest = [58, z, w] \<and> is_digit z \<and> is_digit w)) \<and> tc = ds @ [58, x, y] @ rest"
proof -
  obtain d where d: "d \<in> set [2, 1]" and m: "(tc, r) \<in> set (if d \<le> length s1 \<and> list_all is_digit (take d s1) \<and> colon_dd (drop d s1)
      then map (\<lambda>(q, rest). (take (d + 3 + q) s1, rest)) (tail_alts (drop (d + 3) s1)) else [])"
    using assms unfolding digit_alts_def set_concat set_map by blast
  have c: "d \<le> length s1" "list_all is_digit (take d s1)" "colon_dd (drop d s1)"
    using m by (auto split: if_splits)
  then have "(tc, r) \<in> set (map (\<lambda>(q, rest). (take (d + 3 + q) s1, rest)) (tail_alts (drop (d + 3) s1)))"
    using m by (simp only: simp_thms if_True)
  then obtain q where qr: "(q, r) \<in> set (tail_alts (drop (d + 3) s1))" and tc: "tc = take (d + 3 + q) s1"
    by auto
  have "take (d + 3 + q) s1 = take (d + 3) s1 @ take q (drop (d + 3) s1)" by (rule take_add)
  moreover have "take (d + 3) s1 = take d s1 @ take 3 (drop d s1)" by (rule take_add)
  ultimately have split: "take (d + 3 + q) s1 = take d s1 @ take 3 (drop d s1) @ take q (drop (d + 3) s1)"
    by simp
  have ds: "take d s1 \<noteq> []" using d c(1) by (auto simp: take_eq_Nil)
  have cd: "colon_dd (drop d s1)" using c(3) .
  then have xy: "is_digit (drop d s1 ! 1)" "is_digit (drop d s1 ! 2)" by (simp_all add: colon_dd_def)
  have "take q (drop (d + 3) s1) = [] \<or>
        (\<exists>z w. take q (drop (d + 3) s1) = [58, z, w] \<and> is_digit z \<and> is_digit w)"
    using tail_alts_q[OF qr] colon_dd_take[of "drop (d + 3) s1"] by (auto simp: colon_dd_def)
  then show ?thesis
    using ds c(2) xy colon_dd_take[OF cd] unfolding tc split by blast
qed

lemma digits_seconds:
  assumes "ds \<noteq> []" "list_all is_digit ds"
  shows "\<exists>r. js_number_of_string ds = JFin r"
  using js_number_of_digits[OF assms] by blast

lemma tc_seconds:
  assumes "ds \<noteq> []" "list_all is_digit ds" "is_digit x" "is_digit y"
    and "rest = [] \<or> (\<exists>z w. rest = [58, z, w] \<and> is_digit z \<and> is_digit w)"
  shows "\<exists>r. timecodeToSeconds (ds @ [58, x, y] @ rest) = Some (JFin r)"
proof -
  define tc where "tc = ds @ [58, x, y] @ rest"
  have c58: "\<not> is_js_ws 58" by (simp add: is_js_ws_def)
  have nr: "\<forall>c \<in> set rest. \<not> is_js_ws c" using assms(5) c58 digit_not_ws by auto
  have "\<forall>c \<in> set tc. \<not> is_js_ws c"
    using digits_not_ws[OF assms(2)] digit_not_ws[OF assms(3)] digit_not_ws[OF assms(4)] c58 nr
    by (auto simp: tc_def)
  then have t: "js_trim tc = tc" by (rule js_trim_id)
  have ne: "tc \<noteq> []" by (simp add: tc_def)
  have n58: "58 \<notin> set ds" using assms(2) digits_no_char[of ds 58] by (simp add: is_digit_def)
  have x58: "58 \<notin> set [x, y]" using assms(3,4) by (auto simp: is_digit_def)
  obtain a where a: "js_number_of_string ds = JFin a" using digits_seconds[OF assms(1,2)] by blast
  obtain b where b: "js_number_of_string [x, y] = JFin b" using digits_seconds[of "[x, y]"] assms(3,4) by auto
  show ?thesis
  proof (cases "rest = []")
    case True
    have "js_split 58 tc = [ds, [x, y]]"
      using js_split_append_sep[OF n58, of "[x, y]"] js_split_no_sep[OF x58] by (simp add: tc_def True)
    then have "map js_number_of_string (js_split 58 tc) = [JFin a, JFin b]" by (simp add: a b)
    then show ?thesis using t ne unfolding tc_def[symmetric] by (simp add: timecodeToSeconds_def)
  next
    case False
    then obtain z w where r: "rest = [58, z, w]" "is_digit z" "is_digit w" using assms(5) by blast
    have z58: "58 \<notin> set [z, w]" using r by (auto simp: is_digit_def)
    obtain c where c: "js_number_of_string [z, w] = JFin c" using digits_seconds[of "[z, w]"] r by auto
    have "js_split 58 tc = [ds, [x, y], [z, w]]"
      using js_split_append_sep[OF n58, of "[x, y, 58, z, w]"] js_split_append_sep[OF x58, of "[z, w]"]
        js_split_no_sep[OF z58] by (simp add: tc_def r)
    then have "map js_number_of_string (js_split 58 tc) = [JFin a, JFin b, JFin c]" by (simp add: a b c)
    then show ?thesis using t ne unfolding tc_def[symmetric] by (simp add: timecodeToSeconds_def)
  qed
qed

lemma dedup_chapters_origin:
  "(k, lbl) \<in> set (dedup_chapters seen cs) \<Longrightarrow> \<exists>t. (t, lbl) \<in> set cs \<and> k = js_trim t"
proof (induction seen cs rule: dedup_chapters.induct)
  case (2 seen t l cs)
  then show ?case by (cases "js_trim t = [] \<or> js_trim t \<in> set seen") (auto simp: Let_def)
qed simp

lemma raw_chapters_origin:
  "(t, lbl) \<in> set (raw_chapters items) \<Longrightarrow>
   \<exists>text. (t, text) \<in> set items \<and> t \<noteq> [] \<and> lbl = guessLabel text \<and> lbl \<noteq> []"
  by (auto simp: raw_chapters_def)

lemma parse_line_tc:
  assumes "parse_line l = (t, text)" and "t \<noteq> []"
  shows "\<exists>ds x y rest. ds \<noteq> [] \<and> list_all is_digit ds \<and> is_digit x \<and> is_digit y \<and>
           (rest = [] \<or> (\<exists>z w. rest = [58, z, w] \<and> is_digit z \<and> is_digit w)) \<and> t = ds @ [58, x, y] @ rest"
proof -
  obtain r where "match_line l = Some (t, r)"
    using assms by (auto simp: parse_line_def split: option.splits)
  then have "(t, r) \<in> set (tc_candidates l)" unfolding match_line_def by (rule find_Some_set)
  then obtain b where "(t, r) \<in> set (digit_alts (drop b l))"
    unfolding tc_candidates_def by auto
  then show ?thesis by (rule digit_alts_tc)
qed

lemma tc_no_ws:
  assumes "list_all is_digit ds" "is_digit x" "is_digit y"
    and "rest = [] \<or> (\<exists>z w. rest = [58, z, w] \<and> is_digit z \<and> is_digit w)"
  shows "js_trim (ds @ [58, x, y] @ rest) = ds @ [58, x, y] @ rest"
proof -
  have c58: "\<not> is_js_ws 58" by (simp add: is_js_ws_def)
  have nr: "\<forall>c \<in> set rest. \<not> is_js_ws c" using assms(4) c58 digit_not_ws by auto
  show ?thesis
    using digits_not_ws[OF assms(1)] digit_not_ws[OF assms(2)] digit_not_ws[OF assms(3)] c58 nr
    by (intro js_trim_id) auto
qed

lemma chapter_origin:
  assumes "(k, lbl) \<in> set (buildChaptersFromRawTranscript raw)"
  shows "(\<exists>ds x y rest. ds \<noteq> [] \<and> list_all is_digit ds \<and> is_digit x \<and> is_digit y \<and>
           (rest = [] \<or> (\<exists>z w. rest = [58, z, w] \<and> is_digit z \<and> is_digit w)) \<and> k = ds @ [58, x, y] @ rest)
         \<and> lbl \<noteq> [] \<and> js_trim lbl = lbl"
proof -
  obtain t where t: "(t, lbl) \<in> set (raw_chapters (parseTranscriptRaw raw))" and k: "k = js_trim t"
    using assms dedup_chapters_origin unfolding buildChaptersFromRawTranscript_def by blast
  obtain cap where "(t, cap) \<in> set (parseTranscriptRaw raw)" and ne: "t \<noteq> []"
    and l: "lbl = guessLabel cap" "lbl \<noteq> []"
    using raw_chapters_origin[OF t] by blast
  then obtain l0 where "parse_line l0 = (t, cap)" unfolding parseTranscriptRaw_def by auto
  from parse_line_tc[OF this ne] obtain ds x y rest where
    sh: "ds \<noteq> [] \<and> list_all is_digit ds \<and> is_digit x \<and> is_digit y \<and>
           (rest = [] \<or> (\<exists>z w. rest = [58, z, w] \<and> is_digit z \<and> is_digit w))" and tt: "t = ds @ [58, x, y] @ rest"
    by blast
  have "k = t" using tc_no_ws[of ds x y rest] sh by (simp add: k tt)
  moreover have "js_trim lbl = lbl" using l(1) guessLabel_trimmed by simp
  ultimately show ?thesis using sh tt l(2) by blast
qed

text \<open>The unfoldings that evaluate the transcript functions on a concrete text.\<close>

lemmas tc_eval = timecodeToSeconds_def js_trim_def is_js_ws_def js_number_of_string_def Let_def
  sign_split_def parse_unsigned_decimal_def parse_exponent_def is_digit_def digits_value_def
  digit_val_def pow10_def

lemmas line_eval = match_line_def tc_candidates_def digit_alts_def tail_alts_def ws_splits_def
  colon_dd_def is_digit_def is_js_ws_def is_line_term_def

lemmas chapters_eval = line_eval buildChaptersFromRawTranscript_def parseTranscriptRaw_def
  transcript_lines_def parse_line_def raw_chapters_def guessLabel_def js_trim_def js_join_def Let_def

section \<open>What modelling showed\<close>

text \<open>
  The line pattern takes one or two digits greedily and then exactly two more, so a line
  \<open>00:1234 x\<close> has the timecode \<open>00:12\<close> and the caption \<open>34 x\<close>.
\<close>

lemma parse_line_digits_greedy: "parse_line (U ''00:1234 x'') = (U ''00:12'', U ''34 x'')"
  by (simp add: parse_line_def line_eval js_trim_def)

text \<open>\<open>Number("")\<close> is 0, so an empty component of a timecode counts as zero.\<close>

lemma timecode_empty_component: "timecodeToSeconds (U '':30'') = Some (JFin 30)"
  by (simp add: tc_eval)

text \<open>The Thai vowel marks U+0E31 and U+0E35 are not letters: \<open>slugifyTH\<close> removes them.\<close>

lemma slugifyTH_drops_thai_marks:
  "slugifyTH (\<lambda>_. False) [3626, 3623, 3633, 3626, 3604, 3637] = [3626, 3623, 3626, 3604]"
  by (simp add: slugifyTH_def uni_LN_def latin1_LN_def thai_LN_def js_lower_def js_lower_unit_def
      js_trim_def is_js_ws_def is_hyphen_def replace_runs_def strip_one_hyphen_def)

section \<open>Properties\<close>

text \<open>C14: On a line without line terminators, the backtracking match of the line pattern
  of \<open>parseTranscriptRaw\<close> is the deterministic reading \<open>tc_parse\<close>: the first split the
  matcher tries is the one it returns.\<close>

theorem match_line_tc_parse: "\<not> list_ex is_line_term l \<Longrightarrow> match_line l = tc_parse l"
proof -
  assume nl: "\<not> list_ex is_line_term l"
  define s1 where "s1 = (if l \<noteq> [] \<and> hd l = 91 then tl l else l)"
  define d where "d = (if 2 \<le> length s1 \<and> is_digit (s1 ! 0) \<and> is_digit (s1 ! 1) then 2 else (1::nat))"
  define s3 where "s3 = drop (d + 3) s1"
  have m: "match_line l = (let xs = digit_alts s1 in if xs = [] then None else Some (hd xs))"
    using match_line_first[OF nl] by (simp add: s1_def)
  have da: "digit_alts s1 = (if d \<le> length s1 \<and> list_all is_digit (take d s1) \<and> colon_dd (drop d s1)
      then map (\<lambda>(q, rest). (take (d + 3 + q) s1, rest)) (tail_alts s3) else [])"
    by (simp only: digit_alts_det d_def s3_def Let_def)
  have tp: "tc_parse l = (if d \<le> length s1 \<and> list_all is_digit (take d s1) \<and> colon_dd (drop d s1)
      then (let q = (if colon_dd s3 then 3 else 0); s4 = drop q s3;
                s5 = (if s4 \<noteq> [] \<and> hd s4 = 93 then tl s4 else s4)
            in Some (take (d + 3 + q) s1, dropWhile is_js_ws s5)) else None)"
    by (simp only: tc_parse_def s1_def[symmetric] d_def[symmetric] s3_def[symmetric] Let_def)
  show ?thesis
    using tail_alts_hd[of s3] by (simp add: m da tp hd_map Let_def split: prod.splits)
qed

theorem match_line_tc_parse_witness:
  "\<not> list_ex is_line_term (U ''[01:30] Main topic'') \<and>
   match_line (U ''[01:30] Main topic'') = Some (U ''01:30'', U ''Main topic'')"
proof -
  have "tc_parse (U ''[01:30] Main topic'') = Some (U ''01:30'', U ''Main topic'')"
    by (simp add: tc_parse_def colon_dd_def is_digit_def is_js_ws_def)
  then show ?thesis
    using match_line_tc_parse[of "U ''[01:30] Main topic''"] by (simp add: is_line_term_def)
qed

text \<open>\<open>escapeHtml\<close> loses nothing: decoding its five character references gives the
  text back.\<close>

theorem html_unescape_escapeHtml: "html_unescape (escapeHtml s) = s"
  by (induction s) (simp_all add: escapeHtml_unit html_unescape_esc del: html_unescape.simps(2))

text \<open>The output of \<open>escapeHtml\<close> holds no \<open><\<close>, \<open>>\<close>, \<open>"\<close> or \<open>'\<close>, so a caption
  cannot open a tag or leave an attribute of the transcript HTML.\<close>

theorem escapeHtml_safe: "set (escapeHtml s) \<inter> {60, 62, 34, 39} = {}"
  by (auto simp: escapeHtml_unit esc_unit_def split: if_splits)

text \<open>C15: \<open>timecodeToSeconds\<close> reads back every timecode \<open>secondsToTimecode\<close> prints.\<close>

theorem timecode_roundtrip: "timecodeToSeconds (secondsToTimecode s) = Some (JFin (of_nat s))"
proof -
  let ?a = "pad2 (to_radix 10 (s div 3600))" and ?b = "pad2 (to_radix 10 (s mod 3600 div 60))"
    and ?c = "pad2 (to_radix 10 (s mod 60))"
  have nw: "\<forall>c \<in> set (?a @ [58] @ ?b @ [58] @ ?c). \<not> is_js_ws c"
    "\<forall>c \<in> set (?b @ [58] @ ?c). \<not> is_js_ws c"
    using pad2_number digits_not_ws by (auto simp: is_js_ws_def)
  have na: "js_number_of_string ?a = JFin (of_nat (s div 3600))"
    and nb: "js_number_of_string ?b = JFin (of_nat (s mod 3600 div 60))"
    and nc: "js_number_of_string ?c = JFin (of_nat (s mod 60))"
    using pad2_number by blast+
  have ne: "?a \<noteq> []" "?b \<noteq> []" using pad2_number by blast+
  show ?thesis
  proof (cases "0 < s div 3600")
    case True
    have "js_split 58 (?a @ [58] @ ?b @ [58] @ ?c) = [?a, ?b, ?c]"
      using tc_nc by (simp add: js_split_append_sep js_split_no_sep)
    then show ?thesis using True ne js_trim_id[OF nw(1)]
      by (simp add: timecodeToSeconds_def secondsToTimecode_def na nb nc tc_s[of s])
  next
    case False
    then have "s div 3600 = 0" by simp
    then have s: "(of_nat s :: rat) = of_nat (s mod 3600 div 60) * 60 + of_nat (s mod 60)"
      using tc_s[of s] by simp
    have "js_split 58 (?b @ [58] @ ?c) = [?b, ?c]"
      using tc_nc by (simp add: js_split_append_sep js_split_no_sep)
    moreover have "js_number_of_string (pad2 (to_radix 10 (s div 60))) = JFin (of_nat (s div 60))"
      using pad2_number by blast
    moreover have "(of_nat s :: rat) = of_nat (s div 60) * 60 + of_nat (s mod 60)"
      by (metis (mono_tags) div_mult_mod_eq of_nat_add of_nat_mult of_nat_numeral)
    ultimately show ?thesis using False ne js_trim_id[OF nw(2)]
      by (simp add: timecodeToSeconds_def secondsToTimecode_def nc Let_def)
  qed
qed

text \<open>The examples of the specification: \<open>01:02:03\<close> is 3723 seconds, \<open>02:03\<close> is 123
  and \<open>abc\<close> is \<open>null\<close>.\<close>

theorem timecode_spec_examples:
  "timecodeToSeconds (U ''01:02:03'') = Some (JFin 3723) \<and>
   timecodeToSeconds (U ''02:03'') = Some (JFin 123) \<and> timecodeToSeconds (U ''abc'') = None"
  by (simp add: tc_eval)

text \<open>The chapters built from a transcript have pairwise different timecodes.\<close>

theorem buildChapters_distinct: "distinct (map fst (buildChaptersFromRawTranscript raw))"
  by (simp add: buildChaptersFromRawTranscript_def dedup_chapters_distinct)

text \<open>Each chapter keeps the label of the first line with its timecode.\<close>

theorem buildChapters_first:
  "(k, lbl) \<in> set (buildChaptersFromRawTranscript raw) \<Longrightarrow>
   \<exists>t. find (\<lambda>c. js_trim (fst c) = k) (raw_chapters (parseTranscriptRaw raw)) = Some (t, lbl)"
  unfolding buildChaptersFromRawTranscript_def by (rule dedup_chapters_first)

theorem buildChapters_first_witness:
  "(U ''00:10'', U ''A'') \<in> set (buildChaptersFromRawTranscript (U ''00:10 A'' @ [10] @ U ''00:10 B'')) \<and>
   (\<exists>t. find (\<lambda>c. js_trim (fst c) = U ''00:10'')
          (raw_chapters (parseTranscriptRaw (U ''00:10 A'' @ [10] @ U ''00:10 B''))) = Some (t, U ''A''))"
proof -
  have "buildChaptersFromRawTranscript (U ''00:10 A'' @ [10] @ U ''00:10 B'') = [(U ''00:10'', U ''A'')]"
    by (simp add: chapters_eval)
  then show ?thesis
    using buildChapters_first[of "U ''00:10''" "U ''A''" "U ''00:10 A'' @ [10] @ U ''00:10 B''"] by simp
qed

text \<open>The end-to-end example of the specification: the transcript
  \<open>00:00 Intro\n01:30 Main topic\<close> gives the chapters \<open>00:00 Intro\<close> and \<open>01:30 Main topic\<close>.\<close>

theorem buildChapters_spec_example:
  "buildChaptersFromRawTranscript (U ''00:00 Intro'' @ [10] @ U ''01:30 Main topic'') =
   [(U ''00:00'', U ''Intro''), (U ''01:30'', U ''Main topic'')]"
  by (simp add: chapters_eval)

text \<open>A chapter label is at most 61 code units: 60 and the ellipsis.\<close>

theorem guessLabel_length: "length (guessLabel t) \<le> 61"
proof -
  have "length (js_trim (take 60 tk)) \<le> 60" for tk :: ustr
    using length_js_trim[of "take 60 tk"] by simp
  then show ?thesis by (simp add: guessLabel_def Let_def)
qed

text \<open>An array of trimmed strings without commas survives the CSV field of the form:
  \<open>csvToArray (arrayToCsv xs) = xs\<close>.\<close>

theorem csv_roundtrip:
  assumes "\<forall>x \<in> set xs. x \<noteq> [] \<and> 44 \<notin> set x \<and> js_trim x = x"
  shows "csvToArray (arrayToCsv (Some (JArr (map JStr xs)))) = xs"
proof (cases xs)
  case Nil
  then show ?thesis by (simp add: csvToArray_def arrayToCsv_def safeArray_def js_join_def js_trim_def)
next
  case (Cons x ys)
  have "arrayToCsv (Some (JArr (map JStr xs))) = js_join [44, 32] (x # ys)"
    by (simp add: arrayToCsv_def safeArray_def Cons comp_def)
  moreover have "js_split 44 (js_join [44, 32] (x # ys)) = x # map (\<lambda>y. [32] @ y) ys"
    using assms Cons by (intro js_split_join) auto
  moreover have "map js_trim (map (\<lambda>y. [32] @ y) ys) = ys"
    using assms Cons map_idI[of ys js_trim] by (simp add: comp_def js_trim_space)
  ultimately show ?thesis
    using assms Cons by (simp add: csvToArray_def filter_id_conv)
qed

theorem csv_roundtrip_witness:
  "csvToArray (arrayToCsv (Some (JArr (map JStr [U ''ads'', U ''google ads''])))) = [U ''ads'', U ''google ads'']"
  using csv_roundtrip[of "[U ''ads'', U ''google ads'']"] by (simp add: js_trim_def is_js_ws_def)

end
