(* ===== verification/Sitemap.thy ===== *)
theory Sitemap
  imports PostsStore Transcript
begin

text \<open>
  The XML sitemap of \<open>src/src/app/sitemap.xml/route.js\<close>: the base URL and \<open>absUrl\<close>,
  \<open>isoDate\<close>, the \<open>url\<close> entry printer, \<open>sortByRankOrViews\<close>, \<open>computePriority\<close> and the
  \<open>GET\<close> handler that reads the posts store and the (parameter) stores of videos and
  reviews. Numbers are exact rationals: \<open>toFixed\<close> rounds the exact value, half up, which
  is what JavaScript does except on binary ties such as \<open>0.995\<close>. The \<open>Date\<close> library
  (the current time, \<open>new Date(n)\<close> and \<open>new Date(s)\<close> with \<open>toISOString\<close>) and
  \<open>localeCompare\<close> are parameters.
\<close>

section \<open>Base URL\<close>

definition is_slash :: "nat \<Rightarrow> bool" where
  "is_slash c \<longleftrightarrow> c = 47"

definition RAW_SITE :: "ustr option \<Rightarrow> ustr" where
  \<comment> \<open>\<open>process.env.NEXT_PUBLIC_SITE_URL || ""\<close>\<close>
  "RAW_SITE e = (case e of Some s \<Rightarrow> s | None \<Rightarrow> [])"

definition SITE_BASE :: "ustr \<Rightarrow> ustr" where
  \<comment> \<open>\<open>RAW_SITE.replace(/\/+$/, "")\<close>: the trailing run of slashes goes\<close>
  "SITE_BASE raw = rev (dropWhile is_slash (rev raw))"

definition absUrl :: "ustr \<Rightarrow> ustr \<Rightarrow> ustr" where
  \<comment> \<open>\<open>SITE_BASE + "/" + String(path || "").replace(/^\/+/, "")\<close> on a string path\<close>
  "absUrl base path = base @ 47 # dropWhile is_slash path"

section \<open>Dates\<close>

record date_lib =
  now_iso :: ustr                        \<comment> \<open>\<open>new Date().toISOString()\<close>\<close>
  time_iso :: "jnum \<Rightarrow> ustr option"      \<comment> \<open>\<open>new Date(n).toISOString()\<close>, \<open>None\<close> on a \<open>RangeError\<close>\<close>
  parse_iso :: "ustr \<Rightarrow> ustr option"     \<comment> \<open>\<open>new Date(s).toISOString()\<close>, \<open>None\<close> on a \<open>RangeError\<close>\<close>

definition is_ymd :: "ustr \<Rightarrow> bool" where
  \<comment> \<open>\<open>/^\d{4}-\d{2}-\d{2}$/\<close>\<close>
  "is_ymd s \<longleftrightarrow> length s = 10 \<and> list_all is_digit (take 4 s) \<and> s ! 4 = 45 \<and>
     list_all is_digit (take 2 (drop 5 s)) \<and> s ! 7 = 45 \<and> list_all is_digit (drop 8 s)"

definition isoDate :: "date_lib \<Rightarrow> jval option \<Rightarrow> ustr" where
  "isoDate D d =
     (if \<not> truthy_opt d then now_iso D
      else let v = the d;
               r = (case v of
                      JNum n \<Rightarrow> time_iso D n
                    | _ \<Rightarrow> if is_ymd (js_String v) then parse_iso D (js_String v @ U ''T00:00:00Z'')
                         else if js_ToNumber v \<noteq> JNaN then time_iso D (js_ToNumber v)
                         else parse_iso D (js_String v))
           in case r of Some s \<Rightarrow> s | None \<Rightarrow> now_iso D)"

section \<open>Number.prototype.toFixed\<close>

definition round_half :: "nat \<Rightarrow> rat \<Rightarrow> nat" where
  \<comment> \<open>the \<open>n\<close> with \<open>n / 10^f - x\<close> nearest zero, the larger on a tie (\<open>x \<ge> 0\<close>)\<close>
  "round_half f x = nat \<lfloor>x * 10 ^ f + 1 / 2\<rfloor>"

definition to_fixed :: "nat \<Rightarrow> rat \<Rightarrow> ustr" where
  "to_fixed f x =
     (let s = (if x < 0 then [45] else []); a = \<bar>x\<bar> in
      if 10 ^ 21 \<le> a then s @ rat_to_string a
      else let m = to_radix 10 (round_half f a) in
           if f = 0 then s @ m
           else let m' = replicate (f + 1 - length m) 48 @ m; k = length m'
                in s @ take (k - f) m' @ 46 # drop (k - f) m')"

fun jnum_to_fixed :: "nat \<Rightarrow> jnum \<Rightarrow> ustr" where
  "jnum_to_fixed f (JFin x) = to_fixed f x"
| "jnum_to_fixed f n = jnum_to_string n"

definition fixed_num :: "nat \<Rightarrow> rat \<Rightarrow> jnum" where
  \<comment> \<open>\<open>+x.toFixed(f)\<close>\<close>
  "fixed_num f x = js_number_of_string (to_fixed f x)"

section \<open>Math.max and numeric fields\<close>

definition jmax :: "jnum \<Rightarrow> jnum \<Rightarrow> jnum" where
  \<comment> \<open>\<open>Math.max(a, b)\<close>: NaN if either is\<close>
  "jmax a b = (if a = JNaN \<or> b = JNaN then JNaN else if num_key a \<le> num_key b then b else a)"

definition jsub :: "jnum \<Rightarrow> jnum \<Rightarrow> jnum" where
  "jsub a b = jadd a (jmul (JFin (-1)) b)"

definition js_neq :: "jnum \<Rightarrow> jnum \<Rightarrow> bool" where
  \<comment> \<open>\<open>a !== b\<close> on numbers: NaN differs from itself\<close>
  "js_neq a b \<longleftrightarrow> a = JNaN \<or> b = JNaN \<or> a \<noteq> b"

definition num_opt :: "jval option \<Rightarrow> jnum" where
  \<comment> \<open>\<open>+v\<close>, \<open>undefined\<close> giving NaN\<close>
  "num_opt v = (case v of None \<Rightarrow> JNaN | Some x \<Rightarrow> js_ToNumber x)"

definition finite_num :: "jnum \<Rightarrow> rat option" where
  \<comment> \<open>\<open>Number.isFinite\<close>, with the value\<close>
  "finite_num n = (case n of JFin r \<Rightarrow> Some r | _ \<Rightarrow> None)"

definition RANK :: ustr where "RANK = U ''rank''"
definition VIEWS :: ustr where "VIEWS = U ''views''"
definition UPDATED :: ustr where "UPDATED = U ''updatedAt''"
definition DATE :: ustr where "DATE = U ''date''"
definition TAGS :: ustr where "TAGS = U ''tags''"

section \<open>sortByRankOrViews\<close>

definition rank_num :: "jval \<Rightarrow> jnum" where
  \<comment> \<open>\<open>Number.isFinite(+a?.rank) ? +a.rank : Infinity\<close>\<close>
  "rank_num a = (case finite_num (num_opt (opt_prop a RANK)) of Some r \<Rightarrow> JFin r | None \<Rightarrow> JInf True)"

definition views_num :: "jval \<Rightarrow> rat" where
  \<comment> \<open>\<open>Number.isFinite(+a?.views) ? +a.views : -1\<close>\<close>
  "views_num a = (case finite_num (num_opt (opt_prop a VIEWS)) of Some r \<Rightarrow> r | None \<Rightarrow> -1)"

definition updated_num :: "jval \<Rightarrow> jnum" where
  \<comment> \<open>\<open>Number(a?.updatedAt || 0)\<close>\<close>
  "updated_num a = js_ToNumber (or_default (opt_prop a UPDATED) (JNum (JFin 0)))"

definition date_str :: "jval \<Rightarrow> ustr" where
  \<comment> \<open>\<open>String(a?.date || "")\<close>\<close>
  "date_str a = js_String (or_default (opt_prop a DATE) (JStr []))"

definition rank_cmp :: "(ustr \<Rightarrow> ustr \<Rightarrow> int) \<Rightarrow> jval \<Rightarrow> jval \<Rightarrow> jnum" where
  \<comment> \<open>the comparator; \<open>lc s t\<close> is \<open>s.localeCompare(t)\<close>\<close>
  "rank_cmp lc a b =
     (if js_neq (rank_num a) (rank_num b) then jsub (rank_num a) (rank_num b)
      else if views_num a \<noteq> views_num b then JFin (views_num b - views_num a)
      else if js_neq (updated_num a) (updated_num b) then jsub (updated_num b) (updated_num a)
      else JFin (of_int (lc (date_str b) (date_str a))))"

definition cmp_lt :: "jnum \<Rightarrow> bool" where
  \<comment> \<open>\<open>SortCompare\<close> is negative; a NaN result counts as \<open>+0\<close>\<close>
  "cmp_lt v = (case v of JFin r \<Rightarrow> r < 0 | JInf s \<Rightarrow> \<not> s | JNaN \<Rightarrow> False)"

fun insort_cmp :: "('a \<Rightarrow> 'a \<Rightarrow> bool) \<Rightarrow> 'a \<Rightarrow> 'a list \<Rightarrow> 'a list" where
  "insort_cmp lt x [] = [x]"
| "insort_cmp lt x (y # ys) = (if lt x y then x # y # ys else y # insort_cmp lt x ys)"

definition sort_cmp :: "('a \<Rightarrow> 'a \<Rightarrow> bool) \<Rightarrow> 'a list \<Rightarrow> 'a list" where
  \<comment> \<open>\<open>Array.prototype.sort\<close>: stable, each element after those it is not below\<close>
  "sort_cmp lt xs = foldl (\<lambda>acc x. insort_cmp lt x acc) [] xs"

definition sortByRankOrViews :: "(ustr \<Rightarrow> ustr \<Rightarrow> int) \<Rightarrow> jval \<Rightarrow> jval list" where
  "sortByRankOrViews lc items =
     (case items of JArr xs \<Rightarrow> sort_cmp (\<lambda>a b. cmp_lt (rank_cmp lc a b)) xs | _ \<Rightarrow> [])"

definition rank_key :: "jval \<Rightarrow> (int \<times> rat) \<times> rat" where
  \<comment> \<open>rank ascending (unranked last), then views descending\<close>
  "rank_key a = (num_key (rank_num a), - views_num a)"

section \<open>computePriority\<close>

definition jpos :: "jnum \<Rightarrow> bool" where
  \<comment> \<open>\<open>n > 0\<close>\<close>
  "jpos n = (case n of JFin r \<Rightarrow> 0 < r | JInf s \<Rightarrow> s | JNaN \<Rightarrow> False)"

definition views_ratio :: "rat \<Rightarrow> jnum \<Rightarrow> rat" where
  \<comment> \<open>\<open>v / topViews\<close> with \<open>v = Math.max(0, Math.min(topViews, views))\<close>, for \<open>topViews > 0\<close>\<close>
  "views_ratio w tv = (case tv of JFin t \<Rightarrow> max 0 (min t w) / t | _ \<Rightarrow> 0)"

definition computePriority :: "jval \<Rightarrow> nat \<Rightarrow> jnum \<Rightarrow> rat \<Rightarrow> jnum" where
  "computePriority item index topViews base =
     (let tier = jmax (JFin (3 / 10)) (fixed_num 2 (base - of_nat (min index 10) * 2 / 100)) in
      case finite_num (num_opt (opt_prop item RANK)) of
        Some rk \<Rightarrow>
          (let r = max 1 (min 50 rk) in jmax (JFin (3 / 10)) (fixed_num 2 (1 - min (7 / 10) ((r - 1) * 4 / 100))))
      | None \<Rightarrow>
          (case finite_num (num_opt (opt_prop item VIEWS)) of
             Some w \<Rightarrow> if jpos topViews then fixed_num 2 (6 / 10 + 4 / 10 * views_ratio w topViews) else tier
           | None \<Rightarrow> tier))"

definition topViews :: "jval list \<Rightarrow> jnum" where
  \<comment> \<open>\<open>Math.max(0, ...xs.map((x) => Number(x?.views || 0)))\<close>\<close>
  "topViews xs = foldl jmax (JFin 0) (map (\<lambda>x. js_ToNumber (or_default (opt_prop x VIEWS) (JNum (JFin 0)))) xs)"

section \<open>The url printer\<close>

type_synonym url_args = "ustr \<times> jval option \<times> ustr \<times> jnum"
  \<comment> \<open>\<open>loc\<close>, \<open>lastmod\<close>, \<open>changefreq\<close>, \<open>priority\<close>\<close>

definition tag :: "string \<Rightarrow> ustr \<Rightarrow> ustr" where
  \<comment> \<open>\<open><t>body</t>\<close>\<close>
  "tag t body = U ''<'' @ U t @ U ''>'' @ body @ U ''</'' @ U t @ U ''>''"

definition url :: "date_lib \<Rightarrow> url_args \<Rightarrow> ustr" where
  "url D a =
     (case a of (loc, lastmod, changefreq, priority) \<Rightarrow>
        [10] @ U ''  <url>'' @ [10] @ U ''    '' @ tag ''loc'' loc @ [10] @ U ''    '' @
        (if truthy_opt lastmod then tag ''lastmod'' (isoDate D lastmod) else []) @ [10] @ U ''    '' @
        (if changefreq \<noteq> [] then tag ''changefreq'' changefreq else []) @ [10] @ U ''    '' @
        tag ''priority'' (jnum_to_fixed 1 priority) @ [10] @ U ''  </url>'')"

definition quoted :: "string \<Rightarrow> ustr" where
  "quoted s = [34] @ U s @ [34]"

definition XML_HEAD :: ustr where
  "XML_HEAD =
     U ''<?xml version='' @ quoted ''1.0'' @ U '' encoding='' @ quoted ''UTF-8'' @ U ''?>'' @ [10] @
     U ''<?xml-stylesheet type='' @ quoted ''text/xsl'' @ U '' href='' @ quoted ''/sitemap.xsl'' @ U ''?>'' @ [10] @
     U ''<urlset'' @ [10] @
     U ''  xmlns='' @ quoted ''http://www.sitemaps.org/schemas/sitemap/0.9'' @ [10] @
     U ''  xmlns:xhtml='' @ quoted ''http://www.w3.org/1999/xhtml'' @ [10] @ U ''>'' @ [10]"

definition XML_TAIL :: ustr where
  "XML_TAIL = [10] @ U ''</urlset>''"

section \<open>The entries of GET\<close>

definition first_lastmod :: "jval list \<Rightarrow> jval option" where
  \<comment> \<open>\<open>xs[0]?.updatedAt || xs[0]?.date\<close>\<close>
  "first_lastmod xs =
     (case xs of [] \<Rightarrow> None
      | x # _ \<Rightarrow> if truthy_opt (opt_prop x UPDATED) then opt_prop x UPDATED else opt_prop x DATE)"

definition STATIC_PAGES :: "jval list \<Rightarrow> jval list \<Rightarrow> jval list \<Rightarrow> (ustr \<times> ustr \<times> rat \<times> jval option) list" where
  \<comment> \<open>path, changefreq, priority, lastmod\<close>
  "STATIC_PAGES posts videos reviews =
     [(U ''/'', U ''daily'', 1, None),
      (U ''/services'', U ''monthly'', 1 / 2, None),
      (U ''/blog'', U ''daily'', 9 / 10, first_lastmod posts),
      (U ''/google-ads'', U ''weekly'', 7 / 10, None),
      (U ''/facebook-ads'', U ''weekly'', 7 / 10, None),
      (U ''/courses'', U ''weekly'', 6 / 10, None),
      (U ''/videos'', U ''daily'', 9 / 10, first_lastmod videos),
      (U ''/faq'', U ''monthly'', 1 / 2, None),
      (U ''/search'', U ''weekly'', 1 / 2, None),
      (U ''/contact'', U ''monthly'', 1 / 2, None),
      (U ''/reviews'', U ''weekly'', 4 / 5, first_lastmod reviews)]"

definition static_url :: "ustr \<Rightarrow> ustr \<times> ustr \<times> rat \<times> jval option \<Rightarrow> url_args" where
  "static_url base p = (case p of (path, cf, pr, lm) \<Rightarrow> (absUrl base path, lm, cf, JFin pr))"

definition item_url :: "ustr \<Rightarrow> ustr \<Rightarrow> jnum \<Rightarrow> rat \<Rightarrow> nat \<times> jval \<Rightarrow> url_args js" where
  \<comment> \<open>the body of \<open>xs.forEach((p, i) => ...)\<close> for the directory \<open>dir\<close>\<close>
  "item_url base dir tv b ip =
     (case ip of (i, p) \<Rightarrow>
        let pr = computePriority p i tv b in
        js_bind (get_prop p SLUG) (\<lambda>s.
          case encode_uri (js_String_opt s) of
            None \<Rightarrow> Inl uri_error
          | Some e \<Rightarrow>
              js_bind (get_prop p UPDATED) (\<lambda>u. js_bind (get_prop p DATE) (\<lambda>d.
                Inr (absUrl base (dir @ e), if truthy_opt u then u else d, U ''weekly'', pr)))))"

definition item_urls :: "ustr \<Rightarrow> ustr \<Rightarrow> rat \<Rightarrow> jval list \<Rightarrow> url_args list js" where
  "item_urls base dir b xs = js_map (item_url base dir (topViews xs) b) (enumerate 0 xs)"

definition post_tags :: "jval list \<Rightarrow> jval list js" where
  \<comment> \<open>\<open>posts.flatMap((p) => (Array.isArray(p.tags) ? p.tags : []))\<close>\<close>
  "post_tags ps = js_bind (js_map (\<lambda>p. js_bind (get_prop p TAGS) (\<lambda>t. Inr (safeArray t))) ps) (\<lambda>ts. Inr (concat ts))"

definition set_from :: "'a list \<Rightarrow> 'a list" where
  \<comment> \<open>\<open>Array.from(new Set(arr))\<close>: each value at its first occurrence\<close>
  "set_from xs = foldl (\<lambda>s x. if x \<in> set s then s else s @ [x]) [] xs"

definition uniquePostTags :: "jval list \<Rightarrow> ustr list js" where
  "uniquePostTags ps =
     js_bind (post_tags ps) (\<lambda>ts. Inr (set_from (filter (\<lambda>s. s \<noteq> []) (map (\<lambda>t. js_trim (js_String t)) ts))))"

definition has_tag :: "ustr \<Rightarrow> jval \<Rightarrow> bool js" where
  \<comment> \<open>\<open>Array.isArray(p.tags) && p.tags.includes(t)\<close>\<close>
  "has_tag t p = js_bind (get_prop p TAGS) (\<lambda>v. Inr (case v of Some (JArr xs) \<Rightarrow> JStr t \<in> set xs | _ \<Rightarrow> False))"

definition tag_url :: "ustr \<Rightarrow> jval list \<Rightarrow> ustr \<Rightarrow> url_args js" where
  "tag_url base posts t =
     (case encode_uri t of
        None \<Rightarrow> Inl uri_error
      | Some e \<Rightarrow>
          js_bind (js_find (has_tag t) posts) (\<lambda>p.
            Inr (absUrl base (U ''/blog/tag/'' @ e), Option.bind p (\<lambda>q. opt_prop q UPDATED), U ''weekly'', JFin (2 / 5))))"

definition GET :: "date_lib \<Rightarrow> (ustr \<Rightarrow> ustr \<Rightarrow> int) \<Rightarrow> ustr option \<Rightarrow> jval \<Rightarrow> jval \<Rightarrow> jval \<Rightarrow> ustr js" where
  \<comment> \<open>the handler on the three lists the stores gave (\<open>[]\<close> where a store threw)\<close>
  "GET D lc env postsRaw videosRaw reviewsRaw =
     (let posts = sortByRankOrViews lc postsRaw; videos = sortByRankOrViews lc videosRaw;
          reviews = sortByRankOrViews lc reviewsRaw; base = SITE_BASE (RAW_SITE env) in
      js_bind (uniquePostTags posts) (\<lambda>tags.
      js_bind (item_urls base (U ''/blog/'') (4 / 5) posts) (\<lambda>pu.
      js_bind (js_map (tag_url base posts) tags) (\<lambda>tu.
      js_bind (item_urls base (U ''/videos/'') (7 / 10) videos) (\<lambda>vu.
      js_bind (item_urls base (U ''/reviews/'') (3 / 5) reviews) (\<lambda>ru.
        Inr (XML_HEAD @ concat (map (url D) (map (static_url base) (STATIC_PAGES posts videos reviews) @
                                             pu @ tu @ vu @ ru)) @ XML_TAIL)))))))"

definition sitemap :: "date_lib \<Rightarrow> (ustr \<Rightarrow> ustr \<Rightarrow> int) \<Rightarrow> ustr option \<Rightarrow> doc \<Rightarrow> jval \<Rightarrow> jval \<Rightarrow> ustr js \<times> doc" where
  \<comment> \<open>\<open>GET\<close> with the posts of the store: \<open>getAllPosts().catch(() => [])\<close>\<close>
  "sitemap D lc env d videosRaw reviewsRaw =
     (case getAllPosts d of
        (r, d1) \<Rightarrow> (GET D lc env (case r of Inr xs \<Rightarrow> JArr xs | Inl _ \<Rightarrow> JArr []) videosRaw reviewsRaw, d1))"

definition printable :: "jval \<Rightarrow> bool" where
  \<comment> \<open>an item \<open>GET\<close> can list: not \<open>null\<close>, with a slug \<open>encodeURIComponent\<close> accepts\<close>
  "printable p \<longleftrightarrow> p \<noteq> JNull \<and> encode_uri (js_String_opt (opt_prop p SLUG)) \<noteq> None"

definition tags_printable :: "jval \<Rightarrow> bool" where
  \<comment> \<open>every tag of a post, trimmed, is accepted by \<open>encodeURIComponent\<close>\<close>
  "tags_printable p \<longleftrightarrow> (\<forall>t \<in> set (safeArray (opt_prop p TAGS)). encode_uri (js_trim (js_String t)) \<noteq> None)"

section \<open>Lemmas: the insertion sort\<close>

lemma mset_insort_cmp [simp]: "mset (insort_cmp lt x ys) = add_mset x (mset ys)"
  by (induction ys) auto

lemma set_insort_cmp [simp]: "set (insort_cmp lt x ys) = insert x (set ys)"
  by (induction ys) auto

lemma mset_sort_cmp [simp]: "mset (sort_cmp lt xs) = mset xs"
proof -
  have "mset (foldl (\<lambda>acc x. insort_cmp lt x acc) acc xs) = mset acc + mset xs" for acc
    by (induction xs arbitrary: acc) simp_all
  then show ?thesis by (simp add: sort_cmp_def)
qed

lemma sorted_insort_cmp:
  assumes lt: "\<And>a b. lt a b \<Longrightarrow> k a \<le> k b" and ge: "\<And>a b. \<not> lt a b \<Longrightarrow> k b \<le> k a"
    and "sorted (map k ys)"
  shows "sorted (map k (insort_cmp lt x ys))"
  using assms(3)
proof (induction ys)
  case (Cons y ys)
  show ?case
  proof (cases "lt x y")
    case True
    then show ?thesis using Cons.prems lt[OF True] by (auto intro: order_trans)
  next
    case False
    then show ?thesis using Cons ge[OF False] by auto
  qed
qed simp

lemma sorted_sort_cmp:
  assumes "\<And>a b. lt a b \<Longrightarrow> k a \<le> k b" and "\<And>a b. \<not> lt a b \<Longrightarrow> k b \<le> k a"
  shows "sorted (map k (sort_cmp lt xs))"
proof -
  have "sorted (map k acc) \<Longrightarrow> sorted (map k (foldl (\<lambda>acc x. insort_cmp lt x acc) acc xs))" for acc
    by (induction xs arbitrary: acc) (simp_all add: sorted_insort_cmp[OF assms])
  then show ?thesis by (simp add: sort_cmp_def)
qed

section \<open>Lemmas: the comparator\<close>

lemma rank_num_cases: "rank_num a = JInf True \<or> (\<exists>r. rank_num a = JFin r)"
  by (auto simp: rank_num_def split: option.split)

lemma rank_cmp_keys:
  "(cmp_lt (rank_cmp lc a b) \<longrightarrow> rank_key a \<le> rank_key b) \<and>
   (\<not> cmp_lt (rank_cmp lc a b) \<longrightarrow> rank_key b \<le> rank_key a)"
  using rank_num_cases[of a] rank_num_cases[of b]
  by (auto simp: rank_cmp_def rank_key_def js_neq_def jsub_def cmp_lt_def)

section \<open>Lemmas: toFixed read back\<close>

lemma js_number_of_decimal:
  assumes "ip \<noteq> []" and "list_all is_digit ip" and "list_all is_digit fp"
  shows "js_number_of_string (ip @ 46 # fp) = JFin (of_nat (digits_value 10 (ip @ fp)) / 10 ^ length fp)"
proof -
  let ?t = "ip @ 46 # fp"
  have ws: "js_trim ?t = ?t"
    using assms(2,3) by (intro js_trim_id) (auto simp: list_all_iff is_digit_def is_js_ws_def)
  have h: "48 \<le> hd ?t \<and> hd ?t \<le> 57"
    using assms by (cases ip) (simp_all add: is_digit_def)
  have i: "?t ! 1 = 46 \<or> (48 \<le> ?t ! 1 \<and> ?t ! 1 \<le> 57)"
    using assms(1,2) by (cases ip; cases "tl ip") (auto simp: is_digit_def)
  have p: "\<not> (2 \<le> length ?t \<and> hd ?t = 48 \<and> (?t ! 1 = c1 \<or> ?t ! 1 = c2))"
    if "57 < c1" "57 < c2" for c1 c2
    using i that by auto
  have sg: "sign_split ?t = (True, ?t)"
    using h by (simp add: sign_split_def)
  have inf: "?t \<noteq> U ''Infinity''" using h by auto
  have tw: "takeWhile is_digit ?t = ip" and dw: "dropWhile is_digit ?t = 46 # fp"
    using assms(2) by (simp_all add: list_all_iff takeWhile_append2 dropWhile_append2 is_digit_def)
  have tf: "takeWhile is_digit fp = fp" "dropWhile is_digit fp = []"
    using assms(3) by (simp_all add: list_all_iff)
  have "parse_unsigned_decimal ?t = Some (of_nat (digits_value 10 (ip @ fp)) / 10 ^ length fp)"
    using assms(1) by (simp add: parse_unsigned_decimal_def tw dw tf parse_exponent_def pow10_def)
  then show ?thesis
    using p[of 120 88] p[of 111 79] p[of 98 66] inf by (auto simp: js_number_of_string_def ws sg)
qed

lemma to_fixed_nonneg:
  assumes "0 \<le> x" and "x < 10 ^ 21"
  shows "fixed_num f x = JFin (of_nat (round_half f x) / 10 ^ f)"
proof (cases "f = 0")
  case True
  then show ?thesis
    using assms to_radix_10_digits[of "round_half 0 x"]
    by (simp add: fixed_num_def to_fixed_def js_number_of_digits digits_value_to_radix)
next
  case False
  define m where "m = to_radix 10 (round_half f x)"
  define m' where "m' = replicate (f + 1 - length m) 48 @ m"
  have d: "list_all is_digit m" using to_radix_10_digits by (simp add: m_def)
  have d': "list_all is_digit m'"
    using d by (auto simp: m'_def list_all_iff is_digit_def dest: in_set_replicate[THEN iffD1])
  have len: "f + 1 \<le> length m'" by (simp add: m'_def)
  have v: "digits_value 10 m' = round_half f x"
    by (simp add: m'_def m_def digits_value_zeros digits_value_to_radix)
  have "to_fixed f x = take (length m' - f) m' @ 46 # drop (length m' - f) m'"
    using assms False by (simp add: to_fixed_def Let_def m_def m'_def)
  moreover have "take (length m' - f) m' \<noteq> []" using len by (cases m') auto
  moreover have "list_all is_digit (take (length m' - f) m')" "list_all is_digit (drop (length m' - f) m')"
    using d' by (auto simp: list_all_iff dest: in_set_takeD in_set_dropD)
  ultimately show ?thesis
    using len v by (simp add: fixed_num_def js_number_of_decimal)
qed

section \<open>Lemmas: priorities\<close>

lemma jmax_fin [simp]: "jmax (JFin a) (JFin b) = JFin (max a b)"
  by (simp add: jmax_def max_def)

lemma fixed2_bounds:
  assumes "0 \<le> p" and "p \<le> 1" and "of_int k / 100 \<le> p"
  shows "\<exists>q. fixed_num 2 p = JFin q \<and> of_int k / 100 \<le> q \<and> q \<le> 1"
proof -
  have f: "fixed_num 2 p = JFin (of_nat (round_half 2 p) / 100)"
    using assms(1,2) to_fixed_nonneg[of p 2] by simp
  have "of_int k \<le> p * 100 + 1 / 2" using assms(3) by simp
  then have lo: "k \<le> int (round_half 2 p)"
    unfolding round_half_def by (simp add: le_floor_iff)
  have "p * 100 + 1 / 2 < of_int 101" using assms(2) by simp
  then have hi: "round_half 2 p \<le> 100"
    unfolding round_half_def by (simp add: floor_less_iff nat_le_iff)
  have "of_int k / 100 \<le> (of_nat (round_half 2 p) / 100 :: rat)"
    using lo by (simp add: divide_right_mono)
  moreover have "(of_nat (round_half 2 p) / 100 :: rat) \<le> 1" using hi by simp
  ultimately show ?thesis using f by blast
qed

lemma fixed2_max_bounds:
  assumes "0 \<le> p" and "p \<le> 1"
  shows "\<exists>q. jmax (JFin (3 / 10)) (fixed_num 2 p) = JFin q \<and> 3 / 10 \<le> q \<and> q \<le> 1"
proof -
  obtain q where "fixed_num 2 p = JFin q" "0 \<le> q" "q \<le> 1" using fixed2_bounds[of p 0] assms by auto
  then show ?thesis by (intro exI[of _ "max (3 / 10) q"]) simp
qed

lemma views_ratio_bounds: "jpos tv \<Longrightarrow> 0 \<le> views_ratio w tv \<and> views_ratio w tv \<le> 1"
  by (cases tv) (auto simp: jpos_def views_ratio_def)

section \<open>Lemmas: the entries of GET\<close>

lemma get_prop_nonnull: "p \<noteq> JNull \<Longrightarrow> get_prop p k = Inr (opt_prop p k)"
  by (cases p) (simp_all add: opt_prop_def)

lemma get_prop_Inl: "get_prop p k = Inl e \<Longrightarrow> p = JNull \<and> e = TypeError"
  by (cases p) auto

lemma js_map_Inr_mem: "js_map f xs = Inr ys \<Longrightarrow> x \<in> set xs \<Longrightarrow> \<exists>y \<in> set ys. f x = Inr y"
  by (induction xs arbitrary: ys) (auto simp: js_bind_Inr_iff)

lemma js_map_Inr_all: "\<forall>x \<in> set xs. \<exists>y. f x = Inr y \<Longrightarrow> \<exists>ys. js_map f xs = Inr ys"
  by (induction xs) (auto simp: js_bind_def)

lemma js_map_Inl:
  assumes "\<exists>x \<in> set xs. isl (f x)" and "\<forall>x \<in> set xs. \<forall>e. f x = Inl e \<longrightarrow> e = E"
  shows "js_map f xs = Inl E"
  using assms
proof (induction xs)
  case (Cons a xs)
  then show ?case by (cases "f a") (auto simp: js_bind_def split: sum.split)
qed simp

lemma set_sortByRankOrViews [simp]: "set (sortByRankOrViews lc (JArr xs)) = set xs"
  by (simp add: sortByRankOrViews_def flip: set_mset_mset)

lemma mem_enumerate: "p \<in> set xs \<Longrightarrow> \<exists>i. (i, p) \<in> set (enumerate 0 xs)"
proof -
  assume "p \<in> set xs"
  then obtain i where i: "i < length xs" "xs ! i = p" by (auto simp: in_set_conv_nth)
  then have "enumerate 0 xs ! i = (i, p)" by (simp add: nth_enumerate_eq)
  then show ?thesis using i(1) by (metis length_enumerate nth_mem)
qed

lemma concat_map_mem: "y \<in> set ys \<Longrightarrow> \<exists>a b. concat (map g ys) = a @ g y @ b"
  by (metis concat_append concat.simps(2) map_append list.simps(9) split_list)

lemma url_loc: "\<exists>a b. url D (loc, r) = a @ tag ''loc'' loc @ b"
proof -
  obtain lm cf pr where r: "r = (lm, cf, pr)" by (cases r)
  show ?thesis unfolding url_def r
    by (rule exI[of _ "[10] @ U ''  <url>'' @ [10] @ U ''    ''"], simp only: prod.case append_assoc, rule exI, rule refl)
qed

lemma set_set_from [simp]: "set (set_from xs) = set xs"
proof -
  have "set (foldl (\<lambda>s x. if x \<in> set s then s else s @ [x]) acc xs) = set acc \<union> set xs" for acc
    by (induction xs arbitrary: acc) auto
  then show ?thesis by (simp add: set_from_def)
qed

lemma mem_enumerate_set: "(i, p) \<in> set (enumerate n xs) \<Longrightarrow> p \<in> set xs"
  by (simp add: enumerate_eq_zip set_zip_rightD)

lemma item_url_printable:
  assumes "printable p"
  shows "\<exists>e r. encode_uri (js_String_opt (opt_prop p SLUG)) = Some e \<and>
               item_url base dir tv b (i, p) = Inr (absUrl base (dir @ e), r)"
  using assms by (auto simp: printable_def item_url_def get_prop_nonnull)

lemma item_urls_printable:
  assumes "\<forall>x \<in> set xs. printable x"
  shows "\<exists>us. item_urls base dir b xs = Inr us \<and>
           (\<forall>p \<in> set xs. \<forall>e. encode_uri (js_String_opt (opt_prop p SLUG)) = Some e \<longrightarrow>
              (\<exists>r. (absUrl base (dir @ e), r) \<in> set us))"
proof -
  let ?f = "item_url base dir (topViews xs) b"
  have "\<forall>ip \<in> set (enumerate 0 xs). \<exists>y. ?f ip = Inr y"
    using assms item_url_printable by (fastforce dest: mem_enumerate_set)
  then obtain us where us: "js_map ?f (enumerate 0 xs) = Inr us" using js_map_Inr_all by blast
  have "\<exists>r. (absUrl base (dir @ e), r) \<in> set us"
    if p: "p \<in> set xs" and e: "encode_uri (js_String_opt (opt_prop p SLUG)) = Some e" for p e
  proof -
    obtain i where i: "(i, p) \<in> set (enumerate 0 xs)" using mem_enumerate[OF p] by blast
    obtain y where y: "y \<in> set us" "?f (i, p) = Inr y" using js_map_Inr_mem[OF us i] by blast
    obtain r where "?f (i, p) = Inr (absUrl base (dir @ e), r)"
      using item_url_printable[of p base dir "topViews xs" b i] assms p e by auto
    then have "(absUrl base (dir @ e), r) \<in> set us" using y by simp
    then show ?thesis by blast
  qed
  then show ?thesis using us by (auto simp: item_urls_def)
qed

lemma post_tags_nonnull:
  assumes "\<forall>p \<in> set ps. p \<noteq> JNull"
  shows "post_tags ps = Inr (concat (map (\<lambda>p. safeArray (opt_prop p TAGS)) ps))"
proof -
  have "js_map (\<lambda>p. js_bind (get_prop p TAGS) (\<lambda>t. Inr (safeArray t))) ps =
        Inr (map (\<lambda>p. safeArray (opt_prop p TAGS)) ps)"
    using assms by (intro js_map_pure) (simp add: get_prop_nonnull)
  then show ?thesis by (simp add: post_tags_def)
qed

lemma uniquePostTags_printable:
  assumes "\<forall>p \<in> set ps. p \<noteq> JNull \<and> tags_printable p"
  shows "\<exists>ts. uniquePostTags ps = Inr ts \<and> (\<forall>t \<in> set ts. encode_uri t \<noteq> None)"
  using assms by (auto simp: uniquePostTags_def post_tags_nonnull tags_printable_def)

lemma tag_urls_ok:
  assumes "\<forall>p \<in> set ps. p \<noteq> JNull" and "\<forall>t \<in> set ts. encode_uri t \<noteq> None"
  shows "\<exists>tu. js_map (tag_url base ps) ts = Inr tu"
proof -
  have "\<forall>p \<in> set ps. has_tag t p = Inr (case opt_prop p TAGS of Some (JArr xs) \<Rightarrow> JStr t \<in> set xs | _ \<Rightarrow> False)" for t
    using assms(1) by (simp add: has_tag_def get_prop_nonnull)
  then have "js_find (has_tag t) ps = Inr (find (\<lambda>p. case opt_prop p TAGS of Some (JArr xs) \<Rightarrow> JStr t \<in> set xs | _ \<Rightarrow> False) ps)" for t
    by (rule js_find_pure)
  then show ?thesis
    using assms(2) by (intro js_map_Inr_all) (auto simp: tag_url_def)
qed

section \<open>Properties of the sitemap\<close>

text \<open>
  \<open>sortByRankOrViews\<close> returns a permutation of the items in which ranked items come
  first by ascending rank, the unranked ones after them, and equal ranks by descending views.
\<close>

theorem sortByRankOrViews_ranked:
  "mset (sortByRankOrViews lc (JArr xs)) = mset xs \<and> sorted (map rank_key (sortByRankOrViews lc (JArr xs)))"
  using rank_cmp_keys[of lc] by (simp add: sortByRankOrViews_def sorted_sort_cmp[of _ rank_key])

text \<open>
  C29: With a base priority between 0.3 and 1, \<open>computePriority\<close> returns a number between
  0.3 and 1 for every item, index and top view count.
\<close>

theorem computePriority_bounds:
  assumes "3 / 10 \<le> base" and "base \<le> 1"
  shows "\<exists>q. computePriority item i tv base = JFin q \<and> 3 / 10 \<le> q \<and> q \<le> 1"
proof -
  have t: "\<exists>q. jmax (JFin (3 / 10)) (fixed_num 2 (base - of_nat (min i 10) * 2 / 100)) = JFin q \<and> 3 / 10 \<le> q \<and> q \<le> 1"
  proof (intro fixed2_max_bounds)
    have "(of_nat (min i 10) :: rat) \<le> 10" by simp
    then show "0 \<le> base - of_nat (min i 10) * 2 / 100" using assms(1) by simp
  qed (use assms(2) in simp)
  have r: "\<exists>q. jmax (JFin (3 / 10)) (fixed_num 2 (1 - min (7 / 10) ((max 1 (min 50 rk) - 1) * 4 / 100))) = JFin q \<and>
              3 / 10 \<le> q \<and> q \<le> 1" for rk :: rat
    by (intro fixed2_max_bounds) (simp_all add: min_def max_def)
  have v: "\<exists>q. fixed_num 2 (6 / 10 + 4 / 10 * views_ratio w tv) = JFin q \<and> 3 / 10 \<le> q \<and> q \<le> 1"
    if "jpos tv" for w
  proof -
    have "0 \<le> views_ratio w tv" "views_ratio w tv \<le> 1" using views_ratio_bounds[OF that] by simp_all
    then obtain q where "fixed_num 2 (6 / 10 + 4 / 10 * views_ratio w tv) = JFin q" "of_int 60 / 100 \<le> q" "q \<le> 1"
      using fixed2_bounds[of "6 / 10 + 4 / 10 * views_ratio w tv" 60] by auto
    then show ?thesis by auto
  qed
  show ?thesis
    unfolding computePriority_def Let_def using t r v by (simp split: option.split)
qed

text \<open>
  \<open>+x.toFixed(f)\<close> reads back a number within half a unit of the \<open>f\<close>-th decimal of
  every non-negative \<open>x\<close> below \<open>10^21\<close>.
\<close>

theorem toFixed_read_back:
  assumes "0 \<le> x" and "x < 10 ^ 21"
  shows "\<exists>q. fixed_num f x = JFin q \<and> \<bar>q - x\<bar> \<le> 1 / (2 * 10 ^ f)"
proof -
  define n where "n = \<lfloor>x * 10 ^ f + 1 / 2\<rfloor>"
  have n0: "0 \<le> n" using assms(1) by (simp add: n_def)
  have "of_int n \<le> x * 10 ^ f + 1 / 2" "x * 10 ^ f + 1 / 2 < of_int n + 1"
    unfolding n_def using floor_correct[of "x * 10 ^ f + 1 / 2"] by simp_all
  then have "\<bar>of_int n - x * 10 ^ f\<bar> \<le> 1 / 2" by linarith
  then have "\<bar>of_int n / 10 ^ f - x\<bar> \<le> 1 / (2 * 10 ^ f)"
    by (simp add: abs_le_iff field_simps)
  moreover have "(of_nat (round_half f x) :: rat) = of_int n"
    using n0 by (simp add: round_half_def n_def)
  ultimately show ?thesis using to_fixed_nonneg[OF assms, of f] by auto
qed


text \<open>
  C27: When every post, video and review is printable (not \<open>null\<close>, slug and post tags
  accepted by \<open>encodeURIComponent\<close>), \<open>GET\<close> answers a document that holds a \<open><loc>\<close>
  entry \<open>SITE_BASE/blog/<encoded slug>\<close> for every post.
\<close>

theorem GET_lists_posts:
  assumes ps: "\<forall>p \<in> set ps. printable p \<and> tags_printable p"
    and vs: "\<forall>v \<in> set vs. printable v" and rs: "\<forall>r \<in> set rs. printable r"
    and p: "p \<in> set ps" and e: "encode_uri (js_String_opt (opt_prop p SLUG)) = Some e"
  shows "\<exists>a b. GET D lc env (JArr ps) (JArr vs) (JArr rs) =
                Inr (a @ tag ''loc'' (absUrl (SITE_BASE (RAW_SITE env)) (U ''/blog/'' @ e)) @ b)"
proof -
  let ?base = "SITE_BASE (RAW_SITE env)"
  let ?posts = "sortByRankOrViews lc (JArr ps)"
  let ?videos = "sortByRankOrViews lc (JArr vs)"
  let ?reviews = "sortByRankOrViews lc (JArr rs)"
  have nn: "\<forall>q \<in> set ?posts. q \<noteq> JNull" using ps by (simp add: printable_def)
  obtain ts where ts: "uniquePostTags ?posts = Inr ts" "\<forall>t \<in> set ts. encode_uri t \<noteq> None"
    using uniquePostTags_printable[of ?posts] ps by (auto simp: printable_def)
  obtain pu where pu: "item_urls ?base (U ''/blog/'') (4 / 5) ?posts = Inr pu"
    and loc: "\<exists>r. (absUrl ?base (U ''/blog/'' @ e), r) \<in> set pu"
    using item_urls_printable[of ?posts ?base "U ''/blog/''" "4 / 5"] ps p e by auto
  obtain tu where tu: "js_map (tag_url ?base ?posts) ts = Inr tu"
    using tag_urls_ok[OF nn ts(2)] by blast
  obtain vu where vu: "item_urls ?base (U ''/videos/'') (7 / 10) ?videos = Inr vu"
    using item_urls_printable[of ?videos ?base "U ''/videos/''" "7 / 10"] vs by auto
  obtain ru where ru: "item_urls ?base (U ''/reviews/'') (3 / 5) ?reviews = Inr ru"
    using item_urls_printable[of ?reviews ?base "U ''/reviews/''" "3 / 5"] rs by auto
  let ?es = "map (static_url ?base) (STATIC_PAGES ?posts ?videos ?reviews) @ pu @ tu @ vu @ ru"
  have G: "GET D lc env (JArr ps) (JArr vs) (JArr rs) = Inr (XML_HEAD @ concat (map (url D) ?es) @ XML_TAIL)"
    unfolding GET_def Let_def by (simp add: ts(1) pu[simplified] tu vu[simplified] ru[simplified])
  from loc obtain r where r: "(absUrl ?base (U ''/blog/'' @ e), r) \<in> set pu" by blast
  then have "(absUrl ?base (U ''/blog/'' @ e), r) \<in> set ?es" by (simp only: set_append Un_iff r simp_thms)
  then have "\<exists>a b. concat (map (url D) ?es) = a @ url D (absUrl ?base (U ''/blog/'' @ e), r) @ b"
    by (rule concat_map_mem)
  then obtain a b where ab: "concat (map (url D) ?es) = a @ url D (absUrl ?base (U ''/blog/'' @ e), r) @ b"
    by (elim exE)
  moreover obtain c d where cd: "url D (absUrl ?base (U ''/blog/'' @ e), r) = c @ tag ''loc'' (absUrl ?base (U ''/blog/'' @ e)) @ d"
    using url_loc[of D "absUrl ?base (U ''/blog/'' @ e)" r] by (elim exE)
  ultimately have "XML_HEAD @ concat (map (url D) ?es) @ XML_TAIL =
      (XML_HEAD @ a @ c) @ tag ''loc'' (absUrl ?base (U ''/blog/'' @ e)) @ (d @ b @ XML_TAIL)"
    by (simp only: ab cd append_assoc)
  then show ?thesis using G by metis
qed


text \<open>
  A \<open>null\<close> among the posts \<open>GET\<close> is given makes it throw the \<open>TypeError\<close> of
  \<open>p.tags\<close>: the route answers an error instead of a sitemap.
\<close>

theorem GET_null_post:
  assumes "JNull \<in> set ps"
  shows "GET D lc env (JArr ps) vs rs = Inl TypeError"
proof -
  let ?f = "\<lambda>p. js_bind (get_prop p TAGS) (\<lambda>t. Inr (safeArray t))"
  have "js_map ?f (sortByRankOrViews lc (JArr ps)) = Inl TypeError"
  proof (rule js_map_Inl)
    show "\<exists>x \<in> set (sortByRankOrViews lc (JArr ps)). isl (?f x)" using assms by force
    show "\<forall>x \<in> set (sortByRankOrViews lc (JArr ps)). \<forall>e. ?f x = Inl e \<longrightarrow> e = TypeError"
      by (auto simp: js_bind_def dest: get_prop_Inl split: sum.split)
  qed
  then show ?thesis by (simp add: GET_def Let_def uniquePostTags_def post_tags_def)
qed

text \<open>
  C28: The sitemap composed with the posts store: one \<open>null\<close> entry in a posts file of two
  or more entries makes the sort of \<open>getAllPosts\<close> throw, the route's \<open>catch\<close> turns that into
  \<open>[]\<close>, and the sitemap silently lists no post and no tag page.
\<close>

theorem sitemap_null_hides_posts:
  assumes "JNull \<in> set xs" and "2 \<le> length xs"
  shows "sitemap D lc env (writeAll xs) vs rs = (GET D lc env (JArr []) vs rs, writeAll xs)"
proof -
  have "js_map created_key (map json_roundtrip xs) = Inl TypeError"
  proof (rule js_map_Inl)
    show "\<exists>x \<in> set (map json_roundtrip xs). isl (created_key x)"
      using assms(1) by (auto simp: created_key_def intro!: bexI[of _ JNull])
    show "\<forall>x \<in> set (map json_roundtrip xs). \<forall>e. created_key x = Inl e \<longrightarrow> e = TypeError"
      by (auto simp: created_key_def js_bind_def dest: get_prop_Inl split: sum.split)
  qed
  then have "getAllPosts (writeAll xs) = (Inl TypeError, writeAll xs)"
    using assms(2) by (simp add: getAllPosts_def readAll_writeAll)
  then show ?thesis by (simp add: sitemap_def)
qed


lemma computePriority_bounds_witness:
  "3 / 10 \<le> (4 / 5 :: rat) \<and> (4 / 5 :: rat) \<le> 1 \<and>
   (\<exists>q. computePriority JNull 0 (JFin 0) (4 / 5) = JFin q \<and> 3 / 10 \<le> q \<and> q \<le> 1)"
  using computePriority_bounds[of "4 / 5" JNull 0 "JFin 0"] by simp

lemma toFixed_read_back_witness:
  "0 \<le> (1 / 3 :: rat) \<and> (1 / 3 :: rat) < 10 ^ 21 \<and>
   (\<exists>q. fixed_num 2 (1 / 3) = JFin q \<and> \<bar>q - 1 / 3\<bar> \<le> 1 / (2 * 10 ^ 2))"
  using toFixed_read_back[of "1 / 3" 2] by simp

lemma GET_lists_posts_witness:
  "printable (JObj [(SLUG, JStr (U ''a''))]) \<and> tags_printable (JObj [(SLUG, JStr (U ''a''))]) \<and>
   encode_uri (js_String_opt (opt_prop (JObj [(SLUG, JStr (U ''a''))]) SLUG)) = Some (U ''a'') \<and>
   (\<exists>a b. GET \<lparr>now_iso = [], time_iso = (\<lambda>_. None), parse_iso = (\<lambda>_. None)\<rparr> (\<lambda>_ _. 0) None
            (JArr [JObj [(SLUG, JStr (U ''a''))]]) (JArr []) (JArr []) =
          Inr (a @ tag ''loc'' (absUrl (SITE_BASE (RAW_SITE None)) (U ''/blog/'' @ U ''a'')) @ b))"
proof -
  have p: "printable (JObj [(SLUG, JStr (U ''a''))])" and t: "tags_printable (JObj [(SLUG, JStr (U ''a''))])"
    and e: "encode_uri (js_String_opt (opt_prop (JObj [(SLUG, JStr (U ''a''))]) SLUG)) = Some (U ''a'')"
    by (simp_all add: printable_def tags_printable_def opt_prop_def js_String_opt_def SLUG_def TAGS_def
                      safeArray_def uri_unreserved_def)
  show ?thesis
    using GET_lists_posts[of "[JObj [(SLUG, JStr (U ''a''))]]" "[]" "[]" "JObj [(SLUG, JStr (U ''a''))]" "U ''a''"
                           "\<lparr>now_iso = [], time_iso = (\<lambda>_. None), parse_iso = (\<lambda>_. None)\<rparr>" "\<lambda>_ _. 0" None]
          p t e by simp
qed

lemma GET_null_post_witness:
  "JNull \<in> set [JNull] \<and>
   GET \<lparr>now_iso = [], time_iso = (\<lambda>_. None), parse_iso = (\<lambda>_. None)\<rparr> (\<lambda>_ _. 0) None
       (JArr [JNull]) (JArr []) (JArr []) = Inl TypeError"
  using GET_null_post[of "[JNull]"] by simp

lemma sitemap_null_hides_posts_witness:
  "JNull \<in> set [JNull, JObj []] \<and> 2 \<le> length [JNull, JObj []] \<and>
   sitemap \<lparr>now_iso = [], time_iso = (\<lambda>_. None), parse_iso = (\<lambda>_. None)\<rparr> (\<lambda>_ _. 0) None
     (writeAll [JNull, JObj []]) (JArr []) (JArr []) =
   (GET \<lparr>now_iso = [], time_iso = (\<lambda>_. None), parse_iso = (\<lambda>_. None)\<rparr> (\<lambda>_ _. 0) None
      (JArr []) (JArr []) (JArr []), writeAll [JNull, JObj []])"
  using sitemap_null_hides_posts[of "[JNull, JObj []]"] by simp

end
