(* ===== verification/VideoJsonLd.thy ===== *)
theory VideoJsonLd
  imports JsonFile Transcript "HOL-Library.Product_Lexorder"
begin

text \<open>
  The Schema.org \<open>VideoObject\<close> of a video page, \<open>src/src/app/components/JsonLdVideo.jsx\<close>:
  its own copy of \<open>timecodeToSeconds\<close>, \<open>htmlToText\<close>, the \<open>Clip\<close> parts built from the
  chapters (kept, sorted by start offset, each ending where the next one starts) and the
  object with its undefined fields removed. The object is modelled before
  \<open>JSON.stringify\<close>, as a \<open>jval\<close>.
\<close>

section \<open>timecodeToSeconds and htmlToText\<close>

definition timecodeToSeconds_ld :: "ustr \<Rightarrow> jnum option" where
  \<comment> \<open>the copy at the top of \<open>JsonLdVideo.jsx\<close>\<close>
  "timecodeToSeconds_ld tc =
     (let t = js_trim tc in
      if t = [] then None
      else let parts = map js_number_of_string (js_split 58 t) in
        if JNaN \<in> set parts then None
        else if length parts = 3 then
          Some (jadd (jadd (jmul (parts ! 0) (JFin 3600)) (jmul (parts ! 1) (JFin 60))) (parts ! 2))
        else if length parts = 2 then Some (jadd (jmul (parts ! 0) (JFin 60)) (parts ! 1))
        else if length parts = 1 then Some (parts ! 0)
        else None)"

function strip_tags :: "ustr \<Rightarrow> ustr" where
  \<comment> \<open>\<open>replace(/<[^>]+>/g, " ")\<close>: a \<open><\<close> followed by at least one unit and a \<open>>\<close> is a tag\<close>
  "strip_tags [] = []"
| "strip_tags (c # cs) =
     (let inner = takeWhile (\<lambda>x. x \<noteq> 62) cs in
      if c = 60 \<and> inner \<noteq> [] \<and> length inner < length cs then 32 # strip_tags (drop (Suc (length inner)) cs)
      else c # strip_tags cs)"
  by pat_completeness auto
termination by (relation "measure length") auto

definition htmlToText :: "jval option \<Rightarrow> ustr" where
  "htmlToText h = js_trim (replace_runs is_js_ws 32 (strip_tags (js_String (or_default h (JStr [])))))"

section \<open>The Clip parts\<close>

record chapter_part =
  part_t :: ustr
  part_label :: ustr
  part_start :: "jnum option"     \<comment> \<open>\<open>null\<close> is \<open>None\<close>\<close>

definition has_t_label :: "jval \<Rightarrow> bool" where
  "has_t_label c \<longleftrightarrow> truthy_opt (opt_prop c (U ''t'')) \<and> truthy_opt (opt_prop c (U ''label''))"

definition to_part :: "jval \<Rightarrow> chapter_part" where
  "to_part c =
     (let tv = js_String (or_default (opt_prop c (U ''t'')) JNull)
      in \<lparr>part_t = js_trim tv,
          part_label = js_trim (js_String (or_default (opt_prop c (U ''label'')) JNull)),
          part_start = timecodeToSeconds_ld tv\<rparr>)"

definition part_kept :: "chapter_part \<Rightarrow> bool" where
  \<comment> \<open>\<open>x.label && typeof x.startOffset === "number"\<close>\<close>
  "part_kept p \<longleftrightarrow> part_label p \<noteq> [] \<and> part_start p \<noteq> None"

fun offset_key :: "jnum \<Rightarrow> int \<times> rat" where
  \<comment> \<open>the order of \<open>a.startOffset - b.startOffset\<close>; a NaN offset, for which the
      comparator is inconsistent and the order implementation-defined, is ranked as 0 to
      keep the model total; the order claims assume no NaN offset\<close>
  "offset_key (JInf False) = (-1, 0)"
| "offset_key (JFin r) = (0, r)"
| "offset_key (JInf True) = (1, 0)"
| "offset_key JNaN = (0, 0)"

definition start_desc :: "chapter_part \<Rightarrow> int \<times> rat" where
  \<comment> \<open>the reversed key: the stable descending sort by it is the ascending sort\<close>
  "start_desc p = (case part_start p of Some n \<Rightarrow> (case offset_key n of (a, b) \<Rightarrow> (- a, - b)) | None \<Rightarrow> (0, 0))"

definition hasPartRaw :: "jval list \<Rightarrow> chapter_part list" where
  "hasPartRaw cs = sort_desc start_desc (filter part_kept (map to_part (filter has_t_label cs)))"

definition jgt :: "jnum \<Rightarrow> jnum \<Rightarrow> bool" where
  \<comment> \<open>\<open>a > b\<close> on numbers: false when either is NaN\<close>
  "jgt a b \<longleftrightarrow> a \<noteq> JNaN \<and> b \<noteq> JNaN \<and> offset_key b < offset_key a"

definition start_of :: "chapter_part \<Rightarrow> jnum" where
  "start_of p = (case part_start p of Some n \<Rightarrow> n | None \<Rightarrow> JNaN)"

definition clip :: "jval option \<Rightarrow> chapter_part \<Rightarrow> chapter_part option \<Rightarrow> jval" where
  "clip url x next =
     JObj ([(U ''@type'', JStr (U ''Clip'')), (U ''name'', JStr (part_label x)),
            (U ''startOffset'', JNum (start_of x))]
       @ (case next of Some y \<Rightarrow> if part_start y \<noteq> None \<and> jgt (start_of y) (start_of x)
                                 then [(U ''endOffset'', JNum (start_of y))] else []
                     | None \<Rightarrow> [])
       @ (if truthy_opt url
          then [(U ''url'', JStr (js_String (the url) @ U ''#t='' @ jnum_to_string (start_of x)))] else []))"

fun clip_list :: "jval option \<Rightarrow> chapter_part list \<Rightarrow> jval list" where
  \<comment> \<open>\<open>hasPartRaw.map((x, idx) => ...)\<close> with \<open>next = hasPartRaw[idx + 1]\<close>\<close>
  "clip_list url [] = []"
| "clip_list url (x # rest) = clip url x (case rest of [] \<Rightarrow> None | y # _ \<Rightarrow> Some y) # clip_list url rest"

section \<open>The VideoObject\<close>

definition opt_field :: "ustr \<Rightarrow> jval option \<Rightarrow> (ustr \<times> jval) list" where
  \<comment> \<open>\<open>k: v || undefined\<close> after the undefined fields are deleted\<close>
  "opt_field k v = (if truthy_opt v then [(k, the v)] else [])"

definition keywords_text :: "jval option \<Rightarrow> ustr" where
  \<comment> \<open>\<open>keywords = []\<close>, then \<open>Array.isArray(keywords) ? keywords.join(", ") : String(keywords || "")\<close>\<close>
  "keywords_text k =
     (case k of None \<Rightarrow> []
      | Some (JArr xs) \<Rightarrow> js_join [44, 32] (map (\<lambda>x. if x = JNull then [] else js_String x) xs)
      | Some v \<Rightarrow> js_String (or_default (Some v) (JStr [])))"

definition chapters_list :: "jval option \<Rightarrow> jval list" where
  \<comment> \<open>\<open>chapters = []\<close>, then \<open>Array.isArray(chapters) ? chapters : []\<close>\<close>
  "chapters_list c = (case c of Some (JArr xs) \<Rightarrow> xs | _ \<Rightarrow> [])"

definition JsonLdVideo :: "jval option \<Rightarrow> jval option" where
  \<comment> \<open>\<open>None\<close>: the component renders \<open>null\<close>; otherwise the object it stringifies\<close>
  "JsonLdVideo video =
     (if \<not> truthy_opt video then None
      else let v = the video; f = opt_prop v;
               desc = js_trim (js_String (or_default (f (U ''description''))
                                 (or_default (f (U ''excerpt'')) (JStr []))));
               hasPart = clip_list (f (U ''url'')) (hasPartRaw (chapters_list (f (U ''chapters''))))
      in Some (JObj (
           [(U ''@context'', JStr (U ''https://schema.org'')), (U ''@type'', JStr (U ''VideoObject'')),
            (U ''name'', or_default (f (U ''title'')) (JStr [])),
            (U ''description'', JStr desc),
            (U ''thumbnailUrl'', or_default (f (U ''thumbnail'')) (JStr [])),
            (U ''duration'', or_default (f (U ''duration'')) (JStr (U ''PT0M'')))]
           @ opt_field (U ''uploadDate'') (f (U ''uploadDate''))
           @ (if truthy_opt (f (U ''author''))
              then [(U ''author'', JObj [(U ''@type'', JStr (U ''Person'')), (U ''name'', the (f (U ''author'')))])]
              else [])
           @ (if truthy_opt (f (U ''transcriptHtml''))
              then [(U ''transcript'', JStr (htmlToText (f (U ''transcriptHtml''))))] else [])
           @ [(U ''keywords'', JStr (keywords_text (f (U ''keywords''))))]
           @ (if hasPart \<noteq> [] then [(U ''hasPart'', JArr hasPart)] else [])
           @ opt_field (U ''contentUrl'') (f (U ''contentUrl''))
           @ opt_field (U ''url'') (f (U ''url'')))))"

definition chapter_obj :: "ustr \<times> ustr \<Rightarrow> jval" where
  \<comment> \<open>the chapter \<open>{ t, label }\<close> the admin page stores, \<open>dedup.push({ t: key, label: c.label })\<close>\<close>
  "chapter_obj c = (case c of (t, l) \<Rightarrow> JObj [(U ''t'', JStr t), (U ''label'', JStr l)])"

section \<open>Readers of a Clip\<close>

definition clip_start :: "jval \<Rightarrow> jnum option" where
  "clip_start c = (case c of JObj fs \<Rightarrow> (case map_of fs (U ''startOffset'') of Some (JNum n) \<Rightarrow> Some n | _ \<Rightarrow> None)
                   | _ \<Rightarrow> None)"

definition clip_end :: "jval \<Rightarrow> jnum option" where
  "clip_end c = (case c of JObj fs \<Rightarrow> (case map_of fs (U ''endOffset'') of Some (JNum n) \<Rightarrow> Some n | _ \<Rightarrow> None)
                 | _ \<Rightarrow> None)"

section \<open>Lemmas\<close>

lemma timecodeToSeconds_ld_eq: "timecodeToSeconds_ld = timecodeToSeconds"
  by (simp add: fun_eq_iff timecodeToSeconds_ld_def timecodeToSeconds_def)

lemma length_clip_list [simp]: "length (clip_list url ps) = length ps"
  by (induction ps) simp_all

lemma clip_list_nth:
  "i < length ps \<Longrightarrow>
   clip_list url ps ! i = clip url (ps ! i) (if Suc i < length ps then Some (ps ! Suc i) else None)"
proof (induction ps arbitrary: i)
  case (Cons x ps)
  then show ?case by (cases i) (auto split: list.splits)
qed simp

lemma clip_start_clip: "clip_start (clip url x nx) = Some (start_of x)"
  by (simp add: clip_start_def clip_def split: option.splits)

lemma clip_end_clip:
  "clip_end (clip url x nx) =
     (case nx of Some y \<Rightarrow> if part_start y \<noteq> None \<and> jgt (start_of y) (start_of x) then Some (start_of y) else None
               | None \<Rightarrow> None)"
  by (simp add: clip_end_def clip_def split: option.splits)

lemma neg_pair_le: "(case p of (a, b) \<Rightarrow> (- a, - b)) \<le> (case q of (a, b) \<Rightarrow> (- a, - b)) \<longleftrightarrow> q \<le> (p :: int \<times> rat)"
  by (cases p; cases q) (auto simp: less_eq_prod_def)

lemma hasPartRaw_kept: "p \<in> set (hasPartRaw cs) \<Longrightarrow> part_kept p"
proof -
  have "set (hasPartRaw cs) = set (filter part_kept (map to_part (filter has_t_label cs)))"
    unfolding hasPartRaw_def by (metis mset_sort_desc set_mset_mset)
  then show "p \<in> set (hasPartRaw cs) \<Longrightarrow> part_kept p" by simp
qed

lemma start_desc_kept: "part_kept p \<Longrightarrow> start_desc p = (case offset_key (start_of p) of (a, b) \<Rightarrow> (- a, - b))"
  by (auto simp: part_kept_def start_desc_def start_of_def)

lemma hasPartRaw_sorted:
  "i < j \<Longrightarrow> j < length (hasPartRaw cs) \<Longrightarrow>
   offset_key (start_of (hasPartRaw cs ! i)) \<le> offset_key (start_of (hasPartRaw cs ! j))"
proof -
  assume ij: "i < j" "j < length (hasPartRaw cs)"
  have "sorted_wrt (\<lambda>a b. start_desc b \<le> start_desc a) (hasPartRaw cs)"
    unfolding hasPartRaw_def by (rule sorted_sort_desc)
  then have "start_desc (hasPartRaw cs ! j) \<le> start_desc (hasPartRaw cs ! i)"
    using ij by (simp add: sorted_wrt_iff_nth_less)
  moreover have "\<forall>k < length (hasPartRaw cs). part_kept (hasPartRaw cs ! k)"
    using hasPartRaw_kept nth_mem by blast
  then have "part_kept (hasPartRaw cs ! i)" "part_kept (hasPartRaw cs ! j)"
    using ij by simp_all
  ultimately show ?thesis by (simp add: start_desc_kept neg_pair_le)
qed

lemma chapter_obj_part:
  assumes "c \<in> set (buildChaptersFromRawTranscript raw)"
  shows "has_t_label (chapter_obj c) \<and> part_kept (to_part (chapter_obj c)) \<and>
         (part_t (to_part (chapter_obj c)), part_label (to_part (chapter_obj c))) = c"
proof -
  obtain k lbl where c: "c = (k, lbl)" by (cases c)
  from chapter_origin[OF assms[unfolded c]] obtain ds x y rest where
    sh: "ds \<noteq> []" "list_all is_digit ds" "is_digit x" "is_digit y"
        "rest = [] \<or> (\<exists>z w. rest = [58, z, w] \<and> is_digit z \<and> is_digit w)"
    and k: "k = ds @ [58, x, y] @ rest" and l: "lbl \<noteq> []" "js_trim lbl = lbl"
    by blast
  obtain r where r: "timecodeToSeconds k = Some (JFin r)" using tc_seconds[OF sh] k by blast
  have kt: "js_trim k = k" using tc_no_ws[OF sh(2-5)] k by simp
  have kn: "k \<noteq> []" using k by simp
  have "opt_prop (chapter_obj c) (U ''t'') = Some (JStr k)"
    and "opt_prop (chapter_obj c) (U ''label'') = Some (JStr lbl)"
    by (simp_all add: opt_prop_def chapter_obj_def c)
  then show ?thesis using kn l r kt
    by (simp add: has_t_label_def truthy_opt_def to_part_def part_kept_def or_default_def
        timecodeToSeconds_ld_eq c)
qed

lemma example_tc_90: "timecodeToSeconds (U ''01:30'') = Some (JFin 90)"
  by (simp add: Transcript.tc_eval)
lemma example_tc_0: "timecodeToSeconds (U ''00:00'') = Some (JFin 0)"
  by (simp add: Transcript.tc_eval)
lemma example_parts: "map to_part (filter has_t_label [chapter_obj (U ''01:30'', U ''Main topic''), chapter_obj (U ''00:00'', U ''Intro'')])
  = [\<lparr>part_t = U ''01:30'', part_label = U ''Main topic'', part_start = Some (JFin 90)\<rparr>,
     \<lparr>part_t = U ''00:00'', part_label = U ''Intro'', part_start = Some (JFin 0)\<rparr>]"
  by (simp add: to_part_def has_t_label_def opt_prop_def chapter_obj_def truthy_opt_def or_default_def
      timecodeToSeconds_ld_eq example_tc_90[simplified] example_tc_0[simplified] js_trim_def is_js_ws_def Let_def)

lemma example_hasPartRaw: "hasPartRaw [chapter_obj (U ''01:30'', U ''Main topic''), chapter_obj (U ''00:00'', U ''Intro'')]
  = [\<lparr>part_t = U ''00:00'', part_label = U ''Intro'', part_start = Some (JFin 0)\<rparr>,
     \<lparr>part_t = U ''01:30'', part_label = U ''Main topic'', part_start = Some (JFin 90)\<rparr>]"
  unfolding hasPartRaw_def example_parts by (simp add: part_kept_def sort_desc_def start_desc_def)

lemma example_offsets_text: "rat_to_string 90 = U ''90''" "rat_to_string 0 = U ''0''"
  by (simp_all add: rat_to_string_def int_to_string_def to_radix_def digit_unit_def radix_digits_10)

lemma example_clips: "clip_list (Some (JStr (U ''u''))) [\<lparr>part_t = U ''00:00'', part_label = U ''Intro'', part_start = Some (JFin 0)\<rparr>,
     \<lparr>part_t = U ''01:30'', part_label = U ''Main topic'', part_start = Some (JFin 90)\<rparr>] =
  [JObj [(U ''@type'', JStr (U ''Clip'')), (U ''name'', JStr (U ''Intro'')), (U ''startOffset'', JNum (JFin 0)),
              (U ''endOffset'', JNum (JFin 90)), (U ''url'', JStr (U ''u#t=0''))],
        JObj [(U ''@type'', JStr (U ''Clip'')), (U ''name'', JStr (U ''Main topic'')), (U ''startOffset'', JNum (JFin 90)),
              (U ''url'', JStr (U ''u#t=90''))]]"
  by (simp add: clip_def start_of_def jgt_def truthy_opt_def example_offsets_text)


section \<open>Properties\<close>

text \<open>C39: When no kept chapter's \<open>startOffset\<close> is NaN (so that the comparator
  \<open>a.startOffset - b.startOffset\<close> is consistent and every stable sort gives the same
  order), in the \<open>hasPart\<close> list a clip that has an \<open>endOffset\<close> ends after it starts, and
  no later clip starts before that end: the clips are ordered and do not overlap. A NaN
  offset (from a timecode such as \<open>Infinity:-Infinity\<close>) leaves the order
  implementation-defined, and nothing is claimed then.\<close>

theorem clips_ordered:
  assumes "list_all (\<lambda>p. start_of p \<noteq> JNaN) (hasPartRaw cs)"
    and "i < length (hasPartRaw cs)" and "clip_end (clip_list url (hasPartRaw cs) ! i) = Some e"
  shows "(\<exists>s. clip_start (clip_list url (hasPartRaw cs) ! i) = Some s \<and> jgt e s) \<and>
         (\<forall>j. i < j \<and> j < length (hasPartRaw cs) \<longrightarrow>
            (\<exists>s'. clip_start (clip_list url (hasPartRaw cs) ! j) = Some s' \<and> offset_key e \<le> offset_key s'))"
proof -
  let ?ps = "hasPartRaw cs"
  have n: "Suc i < length ?ps" and e: "e = start_of (?ps ! Suc i)" and g: "jgt e (start_of (?ps ! i))"
    using assms(2,3) by (auto simp: clip_list_nth clip_end_clip split: if_splits)
  have "offset_key e \<le> offset_key (start_of (?ps ! j))" if "i < j" "j < length ?ps" for j
  proof (cases "j = Suc i")
    case False
    then show ?thesis using that e hasPartRaw_sorted[of "Suc i" j cs] by simp
  qed (simp add: e)
  then show ?thesis using assms(2) g by (simp add: clip_list_nth clip_start_clip)
qed

theorem clips_ordered_witness:
  "0 < length (hasPartRaw [chapter_obj (U ''01:30'', U ''Main topic''), chapter_obj (U ''00:00'', U ''Intro'')]) \<and>
   clip_end (clip_list (Some (JStr (U ''u'')))
     (hasPartRaw [chapter_obj (U ''01:30'', U ''Main topic''), chapter_obj (U ''00:00'', U ''Intro'')]) ! 0)
     = Some (JFin 90) \<and>
   (\<exists>s. clip_start (clip_list (Some (JStr (U ''u'')))
     (hasPartRaw [chapter_obj (U ''01:30'', U ''Main topic''), chapter_obj (U ''00:00'', U ''Intro'')]) ! 0) = Some s
     \<and> jgt (JFin 90) s)"
proof -
  have l: "0 < length (hasPartRaw [chapter_obj (U ''01:30'', U ''Main topic''), chapter_obj (U ''00:00'', U ''Intro'')])"
    by (simp only: example_hasPartRaw) simp
  have e: "clip_end (clip_list (Some (JStr (U ''u'')))
     (hasPartRaw [chapter_obj (U ''01:30'', U ''Main topic''), chapter_obj (U ''00:00'', U ''Intro'')]) ! 0)
     = Some (JFin 90)"
    by (simp only: example_hasPartRaw example_clips) (simp add: clip_end_def)
  have n: "list_all (\<lambda>p. start_of p \<noteq> JNaN)
             (hasPartRaw [chapter_obj (U ''01:30'', U ''Main topic''), chapter_obj (U ''00:00'', U ''Intro'')])"
    by (simp only: example_hasPartRaw) (simp add: start_of_def)
  show ?thesis using clips_ordered[OF n l e] l e by blast
qed

text \<open>C40: Composition with the chapter generator: every chapter that
  \<open>buildChaptersFromRawTranscript\<close> produces, stored as \<open>{ t, label }\<close>, becomes a clip of
  \<open>hasPart\<close>; none is dropped as unparsable and none is duplicated.\<close>

theorem chapters_all_clipped:
  "mset (map (\<lambda>p. (part_t p, part_label p))
     (hasPartRaw (map chapter_obj (buildChaptersFromRawTranscript raw))))
   = mset (buildChaptersFromRawTranscript raw)"
proof -
  let ?cs = "buildChaptersFromRawTranscript raw"
  let ?g = "\<lambda>p. (part_t p, part_label p)"
  have "\<forall>x \<in> set ?cs. has_t_label (chapter_obj x)" using chapter_obj_part by blast
  then have f1: "filter has_t_label (map chapter_obj ?cs) = map chapter_obj ?cs"
    by (simp add: filter_id_conv)
  have "\<forall>x \<in> set ?cs. part_kept (to_part (chapter_obj x))" using chapter_obj_part by blast
  then have f2: "filter part_kept (map to_part (map chapter_obj ?cs)) = map to_part (map chapter_obj ?cs)"
    by (simp add: filter_id_conv)
  have m: "map (?g \<circ> (to_part \<circ> chapter_obj)) ?cs = ?cs"
    by (rule map_idI) (simp add: chapter_obj_part)
  have "mset (map ?g (sort_desc start_desc (map to_part (map chapter_obj ?cs))))
      = mset (map ?g (map to_part (map chapter_obj ?cs)))"
    by (simp only: mset_map mset_sort_desc)
  also have "\<dots> = mset ?cs" by (simp only: map_map m)
  finally show ?thesis by (simp only: hasPartRaw_def f1 f2)
qed

text \<open>The end-to-end example of the specification: the chapters \<open>00:00 Intro\<close> and
  \<open>01:30 Main topic\<close>, given in the wrong order, become two clips sorted by offset; the first
  ends at 90 seconds where the second starts, and both link to the page with \<open>#t=\<close>.\<close>

theorem JsonLdVideo_spec_example:
  "JsonLdVideo (Some (JObj [(U ''title'', JStr (U ''T'')),
      (U ''chapters'', JArr [chapter_obj (U ''01:30'', U ''Main topic''), chapter_obj (U ''00:00'', U ''Intro'')]),
      (U ''url'', JStr (U ''u''))])) =
   Some (JObj [(U ''@context'', JStr (U ''https://schema.org'')), (U ''@type'', JStr (U ''VideoObject'')),
     (U ''name'', JStr (U ''T'')), (U ''description'', JStr []), (U ''thumbnailUrl'', JStr []),
     (U ''duration'', JStr (U ''PT0M'')), (U ''keywords'', JStr []),
     (U ''hasPart'', JArr [
        JObj [(U ''@type'', JStr (U ''Clip'')), (U ''name'', JStr (U ''Intro'')), (U ''startOffset'', JNum (JFin 0)),
              (U ''endOffset'', JNum (JFin 90)), (U ''url'', JStr (U ''u#t=0''))],
        JObj [(U ''@type'', JStr (U ''Clip'')), (U ''name'', JStr (U ''Main topic'')), (U ''startOffset'', JNum (JFin 90)),
              (U ''url'', JStr (U ''u#t=90''))]]),
     (U ''url'', JStr (U ''u''))])"
  by (simp add: JsonLdVideo_def opt_prop_def chapters_list_def truthy_opt_def or_default_def
      keywords_text_def opt_field_def js_trim_def Let_def example_hasPartRaw[simplified] example_clips[simplified])

end
