(* ===== verification/VideoAdmin.thy ===== *)
theory VideoAdmin
  imports VideoJsonLd Uri
begin

text \<open>
  The video admin page, \<open>src/src/app/admin/vdo/page.jsx\<close> lines 188 to 1004: the form
  normalisation \<open>cleanVideoForSave\<close>, the React state of \<open>AdminVideosPage\<close> as a record,
  its derived values (the filtered list, the transcript and chapter previews) and every
  handler the JSX wires to a button or an input, as events of one step function. The
  server is outside: a handler that calls \<open>fetch\<close> returns the request it sends, and the
  answer comes back as a later event.
\<close>

section \<open>State and environment\<close>

datatype vmode = ListMode | EditMode

record vstate =
  v_items :: "jval list"
  v_loading :: bool
  v_mode :: vmode
  v_video :: "(ustr \<times> jval) list"      \<comment> \<open>the form, a plain object\<close>
  v_raw :: ustr                        \<comment> \<open>\<open>rawTranscript\<close>\<close>
  v_autoHtml :: bool                   \<comment> \<open>\<open>autoBuildTranscriptHtml\<close>\<close>
  v_autoChapters :: bool               \<comment> \<open>\<open>autoBuildChapters\<close>\<close>
  v_q :: ustr                          \<comment> \<open>the search box\<close>

record venv =
  today :: ustr                        \<comment> \<open>\<open>new Date().toISOString().slice(0, 10)\<close> at module load\<close>
  other_LN :: "nat \<Rightarrow> bool"          \<comment> \<open>\<open>\p{L}\<close> or \<open>\p{N}\<close> outside Latin-1 and Thai\<close>

definition K :: "string \<Rightarrow> ustr" where
  \<comment> \<open>a property name\<close>
  "K s = U s"

definition emptyVideo :: "venv \<Rightarrow> (ustr \<times> jval) list" where
  "emptyVideo e =
     [(K ''slug'', JStr []), (K ''title'', JStr []), (K ''date'', JStr (today e)), (K ''excerpt'', JStr []),
      (K ''youtube'', JStr []), (K ''tags'', JArr []),
      (K ''author'', JStr [3607, 3637, 3617, 3623, 3636, 3604, 3637, 3650, 3629]),
      (K ''duration'', JStr (U ''PT5M'')), (K ''thumbnail'', JStr []),
      (K ''contentHtml'', JStr (U ''<p>'' @ [3626, 3619, 3640, 3611, 47, 3652, 3630, 3652, 3621, 3607, 3660,
                                3623, 3636, 3604, 3637, 3650, 3629, 8230] @ U ''</p>'')),
      (K ''keywords'', JArr []), (K ''transcriptHtml'', JStr []), (K ''faqs'', JArr []),
      (K ''chapters'', JArr []), (K ''contentUrl'', JStr []), (K ''uploadDate'', JStr [])]"

definition vinit :: "venv \<Rightarrow> vstate" where
  \<comment> \<open>the \<open>useState\<close> initial values\<close>
  "vinit e = \<lparr>v_items = [], v_loading = True, v_mode = ListMode, v_video = emptyVideo e, v_raw = [],
              v_autoHtml = True, v_autoChapters = True, v_q = []\<rparr>"

section \<open>cleanVideoForSave\<close>

definition str_trim :: "jval option \<Rightarrow> ustr" where
  \<comment> \<open>\<open>String(v || "").trim()\<close>\<close>
  "str_trim v = js_trim (js_String (or_default v (JStr [])))"

definition clean_pair :: "ustr \<Rightarrow> ustr \<Rightarrow> jval \<Rightarrow> jval" where
  \<comment> \<open>\<open>x => ({ a: String(x?.a || "").trim(), b: String(x?.b || "").trim() })\<close>\<close>
  "clean_pair a b x = JObj [(a, JStr (str_trim (opt_prop x a))), (b, JStr (str_trim (opt_prop x b)))]"

definition both_set :: "ustr \<Rightarrow> ustr \<Rightarrow> jval \<Rightarrow> bool" where
  \<comment> \<open>\<open>x => x.a && x.b\<close> on a cleaned pair\<close>
  "both_set a b x \<longleftrightarrow> truthy_opt (opt_prop x a) \<and> truthy_opt (opt_prop x b)"

definition clean_strings :: "jval option \<Rightarrow> jval" where
  \<comment> \<open>\<open>safeArray(v).map((x) => String(x).trim()).filter(Boolean)\<close>\<close>
  "clean_strings v = JArr (map JStr (filter (\<lambda>s. s \<noteq> []) (map (\<lambda>x. js_trim (js_String x)) (safeArray v))))"

definition cleanVideoForSave :: "venv \<Rightarrow> (ustr \<times> jval) list \<Rightarrow> (ustr \<times> jval) list" where
  "cleanVideoForSave e v =
     (let f = map_of v;
          str = (\<lambda>k fs. obj_set fs k (JStr (str_trim (f k))));
          o1 = obj_set v (K ''slug'')
                 (JStr (slugifyTH (other_LN e) (js_String (or_default (f (K ''slug'')) (or_default (f (K ''title'')) (JStr []))))));
          o2 = foldl (\<lambda>fs k. str k fs) o1
                 [K ''title'', K ''date'', K ''excerpt'', K ''youtube'', K ''thumbnail'', K ''author''];
          d = str_trim (f (K ''duration''));
          o3 = obj_set o2 (K ''duration'') (JStr (if d = [] then U ''PT0M'' else d));
          o4 = foldl (\<lambda>fs k. str k fs) o3 [K ''contentHtml'', K ''transcriptHtml'', K ''contentUrl'', K ''uploadDate''];
          o5 = obj_set (obj_set o4 (K ''tags'') (clean_strings (f (K ''tags''))))
                 (K ''keywords'') (clean_strings (f (K ''keywords'')));
          o6 = obj_set o5 (K ''faqs'')
                 (JArr (filter (both_set (K ''q'') (K ''a'')) (map (clean_pair (K ''q'') (K ''a'')) (safeArray (f (K ''faqs''))))))
      in obj_set o6 (K ''chapters'')
           (JArr (filter (both_set (K ''t'') (K ''label'')) (map (clean_pair (K ''t'') (K ''label'')) (safeArray (f (K ''chapters'')))))))"

section \<open>Derived values\<close>

definition js_includes :: "ustr \<Rightarrow> ustr \<Rightarrow> bool" where
  \<comment> \<open>\<open>hay.includes(s)\<close>\<close>
  "js_includes hay s \<longleftrightarrow> list_ex (\<lambda>i. take (length s) (drop i hay) = s) [0..<Suc (length hay)]"

definition join_sp :: "jval option \<Rightarrow> ustr" where
  \<comment> \<open>\<open>safeArray(v).join(" ")\<close>\<close>
  "join_sp v = js_join [32] (map (\<lambda>x. if x = JNull then [] else js_String x) (safeArray v))"

definition haystack :: "jval \<Rightarrow> ustr" where
  "haystack x =
     js_lower (js_String (or_default (opt_prop x (K ''title'')) (JStr [])) @ [32]
               @ js_String (or_default (opt_prop x (K ''slug'')) (JStr [])) @ [32]
               @ join_sp (opt_prop x (K ''tags'')) @ [32] @ join_sp (opt_prop x (K ''keywords'')))"

definition filtered :: "vstate \<Rightarrow> jval list" where
  "filtered st =
     (let s = js_lower (js_trim (v_q st)) in
      if s = [] then v_items st else filter (\<lambda>x. js_includes (haystack x) s) (v_items st))"

definition previewTranscriptHtml :: "vstate \<Rightarrow> jval" where
  "previewTranscriptHtml st =
     (if \<not> v_autoHtml st \<or> js_trim (v_raw st) = [] then or_default (map_of (v_video st) (K ''transcriptHtml'')) (JStr [])
      else JStr (buildTranscriptHtmlFromRaw (v_raw st)))"

definition previewChapters :: "vstate \<Rightarrow> jval list" where
  "previewChapters st =
     (let old = safeArray (map_of (v_video st) (K ''chapters'')) in
      if \<not> v_autoChapters st \<or> js_trim (v_raw st) = [] then old
      else let gen = buildChaptersFromRawTranscript (v_raw st) in
           if gen \<noteq> [] then map chapter_obj gen else old)"

section \<open>Handlers\<close>

definition loaded :: "jval option \<Rightarrow> vstate \<Rightarrow> vstate" where
  \<comment> \<open>the end of \<open>loadAll\<close>: \<open>Some\<close> the parsed body, \<open>None\<close> a failed request or parse\<close>
  "loaded r st =
     st\<lparr>v_items := (case r of Some j \<Rightarrow> (case opt_prop j (K ''items'') of Some (JArr xs) \<Rightarrow> xs | _ \<Rightarrow> [])
                             | None \<Rightarrow> []),
        v_loading := False\<rparr>"

definition newVideo :: "venv \<Rightarrow> vstate \<Rightarrow> vstate" where
  "newVideo e st = st\<lparr>v_mode := EditMode, v_video := emptyVideo e, v_raw := []\<rparr>"

definition editVideo :: "venv \<Rightarrow> jval \<Rightarrow> vstate \<Rightarrow> vstate" where
  "editVideo e v st =
     st\<lparr>v_mode := EditMode,
        v_video := foldl (\<lambda>fs k. obj_set fs k (JArr (safeArray (opt_prop v k)))) (obj_spread (emptyVideo e) v)
                     [K ''tags'', K ''keywords'', K ''chapters'', K ''faqs''],
        v_raw := []\<rparr>"

definition backToList :: "venv \<Rightarrow> vstate \<Rightarrow> vstate" where
  "backToList e st = st\<lparr>v_mode := ListMode, v_video := emptyVideo e, v_raw := []\<rparr>"

definition updateField :: "ustr \<Rightarrow> jval \<Rightarrow> vstate \<Rightarrow> vstate" where
  "updateField k x st = st\<lparr>v_video := obj_set (v_video st) k x\<rparr>"

definition js_array_set :: "jval list \<Rightarrow> nat \<Rightarrow> jval \<Rightarrow> jval list" where
  \<comment> \<open>\<open>a[i] = v\<close>: past the end the array grows; its holes print as \<open>null\<close>\<close>
  "js_array_set xs i v = (if i < length xs then xs[i := v] else xs @ replicate (i - length xs) JNull @ [v])"

definition js_splice1 :: "jval list \<Rightarrow> nat \<Rightarrow> jval list" where
  \<comment> \<open>\<open>a.splice(i, 1)\<close>\<close>
  "js_splice1 xs i = (if i < length xs then take i xs @ drop (Suc i) xs else xs)"

definition add_entry :: "ustr \<Rightarrow> jval \<Rightarrow> vstate \<Rightarrow> vstate" where
  "add_entry arr x st = updateField arr (JArr (safeArray (map_of (v_video st) arr) @ [x])) st"

definition update_entry :: "ustr \<Rightarrow> nat \<Rightarrow> ustr \<Rightarrow> jval \<Rightarrow> vstate \<Rightarrow> vstate" where
  \<comment> \<open>\<open>next[i] = { ...next[i], [key]: value }\<close> on a copy of the array\<close>
  "update_entry arr i k x st =
     (let next = safeArray (map_of (v_video st) arr);
          old = (if i < length next then spread_props (next ! i) else [])
      in updateField arr (JArr (js_array_set next i (JObj (obj_set old k x)))) st)"

definition remove_entry :: "ustr \<Rightarrow> nat \<Rightarrow> vstate \<Rightarrow> vstate" where
  "remove_entry arr i st = updateField arr (JArr (js_splice1 (safeArray (map_of (v_video st) arr)) i)) st"

definition addChapter :: "vstate \<Rightarrow> vstate" where
  "addChapter = add_entry (K ''chapters'') (JObj [(K ''t'', JStr (U ''00:00'')), (K ''label'', JStr [3627, 3633, 3623, 3586, 3657, 3629])])"

definition addFaq :: "vstate \<Rightarrow> vstate" where
  "addFaq = add_entry (K ''faqs'') (JObj [(K ''q'', JStr []), (K ''a'', JStr [])])"

definition applyGenerated :: "vstate \<Rightarrow> vstate" where
  \<comment> \<open>\<open>applyGeneratedTranscriptAndChapters\<close>\<close>
  "applyGenerated st =
     (let v = v_video st; raw = v_raw st; ok = js_trim raw \<noteq> [];
          v1 = (if v_autoHtml st \<and> ok then obj_set v (K ''transcriptHtml'') (JStr (buildTranscriptHtmlFromRaw raw)) else v);
          gen = buildChaptersFromRawTranscript raw;
          v2 = (if v_autoChapters st \<and> ok \<and> gen \<noteq> [] then obj_set v1 (K ''chapters'') (JArr (map chapter_obj gen)) else v1)
      in st\<lparr>v_video := v2\<rparr>)"

section \<open>save and del\<close>

datatype vmsg =
    MsgNeedTitleSlug | MsgSaveFailed | MsgSaved | MsgSaveNetwork
  | MsgDeleteFailed | MsgDeleted | MsgDeleteNetwork
  | MsgHtmlGenerated | MsgChaptersGenerated nat | MsgChaptersSynced
  | MsgPreviewHtmlCopied | MsgPreviewChaptersCopied

datatype vrequest = GetVideos | PostVideo jval | PutVideo ustr jval | DeleteVideo ustr

datatype veffect =
    Send vrequest
  | Alert vmsg
  | Unhandled js_error      \<comment> \<open>a throw outside the handler's \<open>try\<close>: the promise is rejected\<close>

definition undef_as_null :: "jval option \<Rightarrow> jval" where
  \<comment> \<open>\<open>{ ...video, k: video.k }\<close> with \<open>video.k\<close> undefined; \<open>cleanVideoForSave\<close> reads it as it reads \<open>null\<close>\<close>
  "undef_as_null v = (case v of Some x \<Rightarrow> x | None \<Rightarrow> JNull)"

definition save_payload :: "venv \<Rightarrow> vstate \<Rightarrow> (ustr \<times> jval) list" where
  \<comment> \<open>the payload \<open>save\<close> builds from the form of the current render\<close>
  "save_payload e st =
     (let v = v_video st; raw = v_raw st; ok = js_trim raw \<noteq> [];
          th = (if v_autoHtml st \<and> ok then JStr (buildTranscriptHtmlFromRaw raw)
                else undef_as_null (map_of v (K ''transcriptHtml'')));
          ch = (if v_autoChapters st \<and> ok then JArr (map chapter_obj (buildChaptersFromRawTranscript raw))
                else undef_as_null (map_of v (K ''chapters'')))
      in cleanVideoForSave e (obj_set (obj_set v (K ''transcriptHtml'') th) (K ''chapters'') ch))"

definition save :: "venv \<Rightarrow> vstate \<Rightarrow> vstate \<times> veffect list" where
  "save e st =
     (let st1 = applyGenerated st; p = save_payload e st; slug = map_of p (K ''slug'');
          body = JObj [(K ''video'', JObj p)]
      in if \<not> truthy_opt slug \<or> \<not> truthy_opt (map_of p (K ''title'')) then (st1, [Alert MsgNeedTitleSlug])
         else case js_some (\<lambda>x. js_bind (get_prop x (K ''slug'')) (\<lambda>v. Inr (v = slug))) (v_items st) of
                Inl err \<Rightarrow> (st1, [Unhandled err])
              | Inr ex \<Rightarrow>
                  if ex then (case encode_uri (js_String_opt slug) of
                                None \<Rightarrow> (st1, [Alert MsgSaveNetwork])
                              | Some u \<Rightarrow> (st1, [Send (PutVideo u body)]))
                  else (st1, [Send (PostVideo body)]))"

datatype vanswer = Answer bool | AnswerBroken    \<comment> \<open>\<open>res.ok\<close> with a JSON body, or a failed request or body\<close>

definition after_answer :: "vanswer \<Rightarrow> vmsg \<Rightarrow> vmsg \<Rightarrow> vstate \<Rightarrow> vstate \<times> veffect list" where
  \<comment> \<open>\<open>if (!res.ok) { alert(...); return; } await loadAll();\<close>, errors caught\<close>
  "after_answer a failed network st =
     (case a of Answer True \<Rightarrow> (st\<lparr>v_loading := True\<rparr>, [Send GetVideos])
              | Answer False \<Rightarrow> (st, [Alert failed])
              | AnswerBroken \<Rightarrow> (st, [Alert network]))"

definition del :: "jval option \<Rightarrow> bool \<Rightarrow> vstate \<Rightarrow> vstate \<times> veffect list" where
  \<comment> \<open>\<open>del(v.slug)\<close> after the answer to \<open>confirm\<close>\<close>
  "del slug confirmed st =
     (if \<not> confirmed then (st, [])
      else case encode_uri (js_String_opt slug) of
             None \<Rightarrow> (st, [Alert MsgDeleteNetwork])
           | Some u \<Rightarrow> (st, [Send (DeleteVideo u)]))"

section \<open>Events and the step function\<close>

text \<open>
  The events are grouped as the JSX groups its controls; each group has its step function.
  A handler returns the state after its \<open>set\<close> calls and the effects it has: the request
  it sends, the alert it shows, or the error that escapes it. Answers of the server are
  events too, allowed at any time (a superset of the real interleavings, so what is proved
  of every reachable state holds of the page).
\<close>

datatype vcont = AfterLoad | AfterSave | AfterDelete   \<comment> \<open>what the handler awaiting \<open>loadAll\<close> does next\<close>

datatype server_ev = LoadDone "jval option" vcont | SaveAnswer vanswer | DeleteAnswer vanswer

definition step_server :: "venv \<Rightarrow> server_ev \<Rightarrow> vstate \<Rightarrow> vstate \<times> veffect list" where
  \<comment> \<open>the continuations of \<open>loadAll\<close>, \<open>save\<close> and \<open>del\<close> after their \<open>await\<close>\<close>
  "step_server e ev st =
     (case ev of
        LoadDone r k \<Rightarrow>
          (let st1 = loaded r st in
           case k of AfterLoad \<Rightarrow> (st1, []) | AfterSave \<Rightarrow> (backToList e st1, [Alert MsgSaved])
                   | AfterDelete \<Rightarrow> (st1, [Alert MsgDeleted]))
      | SaveAnswer a \<Rightarrow> after_answer a MsgSaveFailed MsgSaveNetwork st
      | DeleteAnswer a \<Rightarrow> after_answer a MsgDeleteFailed MsgDeleteNetwork st)"

datatype list_ev = Refresh | NewVideo | SetQ ustr | EditVideo jval | Delete jval bool

definition only :: "vstate \<Rightarrow> vstate \<times> veffect list" where
  "only st = (st, [])"

definition step_list :: "venv \<Rightarrow> list_ev \<Rightarrow> vstate \<Rightarrow> vstate \<times> veffect list" where
  \<comment> \<open>the header buttons, the search box and the row buttons of the list view\<close>
  "step_list e ev st =
     (case ev of
        Refresh \<Rightarrow> (st\<lparr>v_loading := True\<rparr>, [Send GetVideos])
      | NewVideo \<Rightarrow> only (newVideo e st)
      | SetQ s \<Rightarrow> only (st\<lparr>v_q := s\<rparr>)
      | EditVideo v \<Rightarrow> only (editVideo e v st)
      | Delete v c \<Rightarrow> del (opt_prop v (K ''slug'')) c st)"

datatype vfield =
    FTitle | FDate | FSlug | FAuthor | FExcerpt | FYoutube | FThumbnail | FDuration
  | FUploadDate | FContentUrl | FContentHtml | FTranscriptHtml

fun field_key :: "vfield \<Rightarrow> ustr" where
  "field_key FTitle = K ''title''" | "field_key FDate = K ''date''" | "field_key FSlug = K ''slug''"
| "field_key FAuthor = K ''author''" | "field_key FExcerpt = K ''excerpt''" | "field_key FYoutube = K ''youtube''"
| "field_key FThumbnail = K ''thumbnail''" | "field_key FDuration = K ''duration''"
| "field_key FUploadDate = K ''uploadDate''" | "field_key FContentUrl = K ''contentUrl''"
| "field_key FContentHtml = K ''contentHtml''" | "field_key FTranscriptHtml = K ''transcriptHtml''"

definition fillSlug :: "venv \<Rightarrow> vstate \<Rightarrow> vstate" where
  \<comment> \<open>\<open>updateField("slug", slugifyTH(video.slug || video.title))\<close>\<close>
  "fillSlug e st =
     (let f = map_of (v_video st); x = (if truthy_opt (f (K ''slug'')) then f (K ''slug'') else f (K ''title''))
      in updateField (K ''slug'') (JStr (slugifyTH (other_LN e) (case x of None \<Rightarrow> [] | Some y \<Rightarrow> js_String y))) st)"

datatype form_ev = BackToList | Save | SetField vfield ustr | SetTags ustr | SetKeywords ustr | FillSlug

definition step_form :: "venv \<Rightarrow> form_ev \<Rightarrow> vstate \<Rightarrow> vstate \<times> veffect list" where
  \<comment> \<open>the header and footer buttons of the form and its inputs\<close>
  "step_form e ev st =
     (case ev of
        BackToList \<Rightarrow> only (backToList e st)
      | Save \<Rightarrow> save e st
      | SetField f s \<Rightarrow> only (updateField (field_key f) (JStr s) st)
      | SetTags s \<Rightarrow> only (updateField (K ''tags'') (JArr (map JStr (csvToArray s))) st)
      | SetKeywords s \<Rightarrow> only (updateField (K ''keywords'') (JArr (map JStr (csvToArray s))) st)
      | FillSlug \<Rightarrow> only (fillSlug e st))"

datatype transcript_ev = SetAutoHtml bool | SetAutoChapters bool | SetRaw ustr | GenHtml | GenChapters

definition step_transcript :: "transcript_ev \<Rightarrow> vstate \<Rightarrow> vstate \<times> veffect list" where
  \<comment> \<open>the two switches, the two generate buttons and the raw transcript\<close>
  "step_transcript ev st =
     (case ev of
        SetAutoHtml b \<Rightarrow> only (st\<lparr>v_autoHtml := b\<rparr>)
      | SetAutoChapters b \<Rightarrow> only (st\<lparr>v_autoChapters := b\<rparr>)
      | SetRaw s \<Rightarrow> only (st\<lparr>v_raw := s\<rparr>)
      | GenHtml \<Rightarrow>
          (updateField (K ''transcriptHtml'') (JStr (buildTranscriptHtmlFromRaw (v_raw st))) st, [Alert MsgHtmlGenerated])
      | GenChapters \<Rightarrow>
          (let ch = buildChaptersFromRawTranscript (v_raw st)
           in (updateField (K ''chapters'') (JArr (map chapter_obj ch)) st, [Alert (MsgChaptersGenerated (length ch))])))"

datatype chapter_ev =
    AddChapter | UpdateChapter nat bool ustr | RemoveChapter nat | SyncPreviewChapters
  | AddFaq | UpdateFaq nat bool ustr | RemoveFaq nat

definition step_chapters :: "chapter_ev \<Rightarrow> vstate \<Rightarrow> vstate \<times> veffect list" where
  \<comment> \<open>the chapter table and the FAQ list (\<open>True\<close> selects \<open>label\<close>, resp. \<open>a\<close>)\<close>
  "step_chapters ev st =
     (case ev of
        AddChapter \<Rightarrow> only (addChapter st)
      | UpdateChapter i lbl s \<Rightarrow> only (update_entry (K ''chapters'') i (if lbl then K ''label'' else K ''t'') (JStr s) st)
      | RemoveChapter i \<Rightarrow> only (remove_entry (K ''chapters'') i st)
      | SyncPreviewChapters \<Rightarrow> (updateField (K ''chapters'') (JArr (previewChapters st)) st, [Alert MsgChaptersSynced])
      | AddFaq \<Rightarrow> only (addFaq st)
      | UpdateFaq i isA s \<Rightarrow> only (update_entry (K ''faqs'') i (if isA then K ''a'' else K ''q'') (JStr s) st)
      | RemoveFaq i \<Rightarrow> only (remove_entry (K ''faqs'') i st))"

datatype quick_ev = QuickSlug | CopyPreviewHtml | CopyPreviewChapters

definition step_quick :: "venv \<Rightarrow> quick_ev \<Rightarrow> vstate \<Rightarrow> vstate \<times> veffect list" where
  \<comment> \<open>the quick actions beside the preview\<close>
  "step_quick e ev st =
     (case ev of
        QuickSlug \<Rightarrow> only (fillSlug e st)
      | CopyPreviewHtml \<Rightarrow>
          (updateField (K ''transcriptHtml'') (or_default (Some (previewTranscriptHtml st)) (JStr [])) st,
           [Alert MsgPreviewHtmlCopied])
      | CopyPreviewChapters \<Rightarrow>
          (updateField (K ''chapters'') (JArr (previewChapters st)) st, [Alert MsgPreviewChaptersCopied]))"

datatype vevent =
    ServerEv server_ev | ListEv list_ev | FormEv form_ev | TranscriptEv transcript_ev
  | ChapterEv chapter_ev | QuickEv quick_ev

definition vstep :: "venv \<Rightarrow> vevent \<Rightarrow> vstate \<Rightarrow> vstate \<times> veffect list" where
  "vstep e ev st =
     (case ev of
        ServerEv x \<Rightarrow> step_server e x st | ListEv x \<Rightarrow> step_list e x st | FormEv x \<Rightarrow> step_form e x st
      | TranscriptEv x \<Rightarrow> step_transcript x st | ChapterEv x \<Rightarrow> step_chapters x st
      | QuickEv x \<Rightarrow> step_quick e x st)"

definition row_index_ok :: "ustr \<Rightarrow> nat \<Rightarrow> vstate \<Rightarrow> bool" where
  \<comment> \<open>the rows of \<open>safeArray(video[arr]).map((c, i) => ...)\<close>\<close>
  "row_index_ok arr i st \<longleftrightarrow> i < length (safeArray (map_of (v_video st) arr))"

definition enabled :: "vstate \<Rightarrow> vevent \<Rightarrow> bool" where
  \<comment> \<open>the controls the JSX renders: the list view in list mode (\<open>Refresh\<close> disabled while
      loading, rows only once loaded), the form in edit mode with one row per chapter and FAQ\<close>
  "enabled st ev =
     (case ev of
        ServerEv x \<Rightarrow> True
      | ListEv x \<Rightarrow> v_mode st = ListMode \<and>
          (case x of Refresh \<Rightarrow> \<not> v_loading st
                   | EditVideo v \<Rightarrow> \<not> v_loading st \<and> v \<in> set (filtered st)
                   | Delete v c \<Rightarrow> \<not> v_loading st \<and> v \<in> set (filtered st)
                   | _ \<Rightarrow> True)
      | ChapterEv x \<Rightarrow> v_mode st = EditMode \<and>
          (case x of UpdateChapter i b s \<Rightarrow> row_index_ok (K ''chapters'') i st
                   | RemoveChapter i \<Rightarrow> row_index_ok (K ''chapters'') i st
                   | UpdateFaq i b s \<Rightarrow> row_index_ok (K ''faqs'') i st
                   | RemoveFaq i \<Rightarrow> row_index_ok (K ''faqs'') i st
                   | _ \<Rightarrow> True)
      | _ \<Rightarrow> v_mode st = EditMode)"

inductive vreach :: "venv \<Rightarrow> vstate \<Rightarrow> bool" for e where
  init: "vreach e (vinit e)"
| step: "vreach e st \<Longrightarrow> enabled st ev \<Longrightarrow> vreach e (fst (vstep e ev st))"

section \<open>Rendering\<close>

datatype list_view = ViewLoading | ViewEmpty | ViewTable "(jval option \<times> jval option \<times> jval option \<times> jval option) list"

definition date_of :: "jval \<Rightarrow> ustr" where
  \<comment> \<open>\<open>String(x?.date || "")\<close>, compared with \<open>localeCompare\<close> as code units\<close>
  "date_of x = js_String (or_default (opt_prop x (K ''date'')) (JStr []))"

definition list_rows :: "vstate \<Rightarrow> jval list" where
  \<comment> \<open>\<open>filtered.slice().sort((a, b) => String(b?.date || "").localeCompare(String(a?.date || "")))\<close>\<close>
  "list_rows st = sort_desc date_of (filtered st)"

definition list_row :: "jval \<Rightarrow> (jval option \<times> jval option \<times> jval option \<times> jval option) js" where
  \<comment> \<open>\<open>v.date\<close>, \<open>v.title\<close>, \<open>v.excerpt\<close> and \<open>v.slug\<close> of a row, shown with \<open>|| "-"\<close> and
      \<open>|| ""\<close>; a \<open>null\<close> row throws during rendering\<close>
  "list_row v =
     js_bind (get_prop v (K ''date'')) (\<lambda>d. js_bind (get_prop v (K ''title'')) (\<lambda>t.
       js_bind (get_prop v (K ''excerpt'')) (\<lambda>x. js_bind (get_prop v (K ''slug'')) (\<lambda>s.
         Inr (Some (or_default d (JStr (U ''-''))), Some (or_default t (JStr (U ''-''))), Some (or_default x (JStr [])), s)))))"

definition list_view :: "vstate \<Rightarrow> list_view js" where
  "list_view st =
     (if v_loading st then Inr ViewLoading
      else if filtered st = [] then Inr ViewEmpty
      else js_bind (js_map list_row (list_rows st)) (\<lambda>rs. Inr (ViewTable rs)))"

definition preview_chapter_items :: "vstate \<Rightarrow> (jval option \<times> jval option \<times> jnum option) list js" where
  \<comment> \<open>\<open>previewChapters.map((c, i) => ...)\<close>: the badge, the label and the start offset when it
      is a number; reading \<open>c.t\<close> of a \<open>null\<close> chapter throws during rendering\<close>
  "preview_chapter_items st =
     js_map (\<lambda>c. js_bind (get_prop c (K ''t'')) (\<lambda>t. js_bind (get_prop c (K ''label'')) (\<lambda>l.
               Inr (t, l, timecodeToSeconds (case t of None \<Rightarrow> [] | Some x \<Rightarrow> js_String x)))))
       (previewChapters st)"

section \<open>Sample states\<close>

definition sample_venv :: venv where
  "sample_venv = \<lparr>today = U ''2025-01-02'', other_LN = (\<lambda>_. False)\<rparr>"

definition draft_state :: "venv \<Rightarrow> vstate" where
  \<comment> \<open>new video, one chapter added by hand, a raw transcript without timecodes\<close>
  "draft_state e =
     fst (vstep e (TranscriptEv (SetRaw (U ''hello'')))
       (fst (vstep e (ChapterEv AddChapter) (fst (vstep e (ListEv NewVideo) (vinit e))))))"

section \<open>Lemmas\<close>

lemma fst_save: "fst (save e st) = applyGenerated st"
  by (simp add: save_def Let_def split: sum.splits option.splits)

lemma fst_del: "fst (del s c st) = st"
  by (simp add: del_def split: option.splits)

lemma fst_after_answer: "fst (after_answer a m1 m2 st) = (if a = Answer True then st\<lparr>v_loading := True\<rparr> else st)"
  by (simp add: after_answer_def split: vanswer.splits bool.splits)

lemmas step_defs = step_server_def step_list_def step_form_def step_transcript_def step_chapters_def
  step_quick_def fillSlug_def

lemmas vstate_defs = newVideo_def editVideo_def backToList_def updateField_def only_def loaded_def
  add_entry_def update_entry_def remove_entry_def addChapter_def addFaq_def applyGenerated_def
  fst_save fst_del fst_after_answer

lemma map_of_clean_chapters:
  "map_of (cleanVideoForSave e v) (K ''chapters'') =
   Some (JArr (filter (both_set (K ''t'') (K ''label'')) (map (clean_pair (K ''t'') (K ''label''))
     (safeArray (map_of v (K ''chapters''))))))"
  by (simp only: cleanVideoForSave_def Let_def map_of_obj_set fun_upd_same)

lemma map_of_clean_title:
  "map_of (cleanVideoForSave e v) (K ''title'') = Some (JStr (str_trim (map_of v (K ''title''))))"
  by (simp add: cleanVideoForSave_def Let_def map_of_obj_set K_def)

lemma safeArray_undef_as_null: "safeArray (Some (undef_as_null v)) = safeArray v"
  by (simp add: safeArray_def undef_as_null_def split: option.splits)

lemma chapter_obj_clean:
  assumes "c \<in> set (buildChaptersFromRawTranscript raw)"
  shows "clean_pair (K ''t'') (K ''label'') (chapter_obj c) = chapter_obj c \<and> both_set (K ''t'') (K ''label'') (chapter_obj c)"
proof -
  obtain k lbl where c: "c = (k, lbl)" by (cases c)
  from chapter_origin[OF assms[unfolded c]] obtain ds x y rest where
    sh: "ds \<noteq> []" "list_all is_digit ds" "is_digit x" "is_digit y"
        "rest = [] \<or> (\<exists>z w. rest = [58, z, w] \<and> is_digit z \<and> is_digit w)"
    and k: "k = ds @ [58, x, y] @ rest" and l: "lbl \<noteq> []" "js_trim lbl = lbl"
    by blast
  have kt: "js_trim k = k" using tc_no_ws[OF sh(2-5)] k by simp
  have kn: "k \<noteq> []" using k by simp
  show ?thesis using kt kn l
    by (simp add: c clean_pair_def both_set_def chapter_obj_def opt_prop_def str_trim_def or_default_def
        truthy_opt_def K_def)
qed

lemma K_neq: "K ''title'' \<noteq> K ''transcriptHtml''" "K ''title'' \<noteq> K ''chapters''"
  by (simp_all add: K_def)

section \<open>Properties\<close>

text \<open>C17: In every reachable state of the page, the list view holds no draft: the form is the
  empty video and the raw transcript is empty whenever the page shows the list. Proved by
  induction over the events the rendered controls allow.\<close>

theorem vreach_list_clean:
  "vreach e st \<Longrightarrow> v_mode st = ListMode \<Longrightarrow> v_video st = emptyVideo e \<and> v_raw st = []"
proof (induction rule: vreach.induct)
  case init
  then show ?case by (simp add: vinit_def)
next
  case (step st ev)
  then show ?case
    by (cases ev) (simp_all add: vstep_def enabled_def step_defs vstate_defs Let_def
        split: server_ev.splits list_ev.splits form_ev.splits transcript_ev.splits chapter_ev.splits
        quick_ev.splits vcont.splits if_splits)
qed

theorem vreach_list_clean_witness:
  "vreach sample_venv (fst (vstep sample_venv (FormEv BackToList)
      (fst (vstep sample_venv (FormEv (SetField FTitle (U ''x''))) (fst (vstep sample_venv (ListEv NewVideo) (vinit sample_venv))))))) \<and>
   v_mode (fst (vstep sample_venv (FormEv BackToList)
      (fst (vstep sample_venv (FormEv (SetField FTitle (U ''x''))) (fst (vstep sample_venv (ListEv NewVideo) (vinit sample_venv))))))) = ListMode \<and>
   v_video (fst (vstep sample_venv (FormEv BackToList)
      (fst (vstep sample_venv (FormEv (SetField FTitle (U ''x''))) (fst (vstep sample_venv (ListEv NewVideo) (vinit sample_venv)))))))
     = emptyVideo sample_venv"
proof -
  let ?s1 = "fst (vstep sample_venv (ListEv NewVideo) (vinit sample_venv))"
  let ?s2 = "fst (vstep sample_venv (FormEv (SetField FTitle (U ''x''))) ?s1)"
  let ?s3 = "fst (vstep sample_venv (FormEv BackToList) ?s2)"
  have r1: "vreach sample_venv ?s1" by (rule vreach.step[OF vreach.init]) (simp add: enabled_def vinit_def)
  have m1: "v_mode ?s1 = EditMode" by (simp add: vstep_def step_list_def newVideo_def only_def)
  have r2: "vreach sample_venv ?s2" by (rule vreach.step[OF r1]) (simp add: enabled_def m1)
  have m2: "v_mode ?s2 = EditMode"
    by (simp add: vstep_def step_form_def step_list_def only_def updateField_def newVideo_def)
  have r3: "vreach sample_venv ?s3" by (rule vreach.step[OF r2]) (simp add: enabled_def m2[simplified])
  have m3: "v_mode ?s3 = ListMode" by (simp add: vstep_def step_form_def only_def backToList_def)
  show ?thesis using vreach_list_clean[OF r3 m3] r3 m3 by blast
qed

text \<open>What \<open>save\<close> sends as chapters: with auto chapters on and a non-blank raw
  transcript, exactly the generated chapters, whatever was edited by hand (each generated
  chapter passes \<open>cleanVideoForSave\<close> unchanged); otherwise the hand-edited chapters, cleaned.\<close>

theorem save_chapters_override:
  "map_of (save_payload e st) (K ''chapters'') =
   Some (JArr (if v_autoChapters st \<and> js_trim (v_raw st) \<noteq> []
               then map chapter_obj (buildChaptersFromRawTranscript (v_raw st))
               else filter (both_set (K ''t'') (K ''label'')) (map (clean_pair (K ''t'') (K ''label''))
                      (safeArray (map_of (v_video st) (K ''chapters''))))))"
proof (cases "v_autoChapters st \<and> js_trim (v_raw st) \<noteq> []")
  case True
  let ?gen = "buildChaptersFromRawTranscript (v_raw st)"
  have "filter (both_set (K ''t'') (K ''label'')) (map (clean_pair (K ''t'') (K ''label'')) (map chapter_obj ?gen))
      = map chapter_obj ?gen"
    using chapter_obj_clean by (simp add: filter_id_conv map_idI)
  then show ?thesis using True
    by (simp add: save_payload_def Let_def map_of_clean_chapters map_of_obj_set safeArray_def)
next
  case False
  then have c: "(v_autoChapters st \<and> js_trim (v_raw st) \<noteq> []) = False" by simp
  show ?thesis
    by (simp only: save_payload_def Let_def c if_False map_of_clean_chapters map_of_obj_set
        fun_upd_same safeArray_undef_as_null)
qed

text \<open>C16: The preview and the save disagree: after adding a chapter by hand and typing a raw
  transcript without timecodes, the chapter preview shows the hand-made chapter, but the
  payload \<open>save\<close> builds has no chapters.\<close>

theorem save_drops_previewed_chapters:
  "vreach e (draft_state e) \<and>
   previewChapters (draft_state e) = [JObj [(K ''t'', JStr (U ''00:00'')), (K ''label'', JStr [3627, 3633, 3623, 3586, 3657, 3629])]] \<and>
   map_of (save_payload e (draft_state e)) (K ''chapters'') = Some (JArr [])"
proof -
  let ?s1 = "fst (vstep e (ListEv NewVideo) (vinit e))"
  let ?s2 = "fst (vstep e (ChapterEv AddChapter) ?s1)"
  have r1: "vreach e ?s1" by (rule vreach.step[OF vreach.init]) (simp add: enabled_def vinit_def)
  have m1: "v_mode ?s1 = EditMode" by (simp add: vstep_def step_list_def newVideo_def only_def)
  have r2: "vreach e ?s2" by (rule vreach.step[OF r1]) (simp add: enabled_def m1)
  have m2: "v_mode ?s2 = EditMode"
    using m1 by (simp add: vstep_def step_chapters_def only_def addChapter_def add_entry_def updateField_def)
  have r3: "vreach e (draft_state e)"
    unfolding draft_state_def by (rule vreach.step[OF r2]) (simp add: enabled_def m2)
  have gen: "buildChaptersFromRawTranscript (U ''hello'') = []"
    by (simp add: chapters_eval)
  have ch: "map_of (v_video (draft_state e)) (K ''chapters'') =
      Some (JArr [JObj [(K ''t'', JStr (U ''00:00'')), (K ''label'', JStr [3627, 3633, 3623, 3586, 3657, 3629])]])"
    by (simp add: draft_state_def vstep_def step_defs only_def newVideo_def addChapter_def add_entry_def
        updateField_def emptyVideo_def map_of_obj_set safeArray_def K_def)
  have raw: "v_raw (draft_state e) = U ''hello''" "v_autoChapters (draft_state e)"
    by (simp_all add: draft_state_def vstep_def step_defs only_def newVideo_def addChapter_def add_entry_def
        updateField_def vinit_def)
  have "previewChapters (draft_state e) =
      [JObj [(K ''t'', JStr (U ''00:00'')), (K ''label'', JStr [3627, 3633, 3623, 3586, 3657, 3629])]]"
    using gen by (simp add: previewChapters_def ch raw safeArray_def js_trim_def is_js_ws_def)
  moreover have "map_of (save_payload e (draft_state e)) (K ''chapters'') = Some (JArr [])"
    using gen by (simp add: save_payload_def Let_def raw js_trim_def is_js_ws_def map_of_clean_chapters
        map_of_obj_set safeArray_def)
  ultimately show ?thesis using r3 by blast
qed

text \<open>\<open>save\<close> sends nothing when the title is blank: it only alerts (after applying the
  generated transcript to the form).\<close>

theorem save_needs_title:
  "str_trim (map_of (v_video st) (K ''title'')) = [] \<Longrightarrow> save e st = (applyGenerated st, [Alert MsgNeedTitleSlug])"
proof -
  assume t: "str_trim (map_of (v_video st) (K ''title'')) = []"
  have "map_of (save_payload e st) (K ''title'') = Some (JStr [])"
    using t by (simp add: save_payload_def Let_def map_of_clean_title map_of_obj_set K_neq)
  then show ?thesis by (simp add: save_def Let_def truthy_opt_def)
qed

theorem save_needs_title_witness:
  "str_trim (map_of (v_video (newVideo sample_venv (vinit sample_venv))) (K ''title'')) = [] \<and>
   save sample_venv (newVideo sample_venv (vinit sample_venv)) =
     (applyGenerated (newVideo sample_venv (vinit sample_venv)), [Alert MsgNeedTitleSlug])"
proof -
  have t: "str_trim (map_of (v_video (newVideo sample_venv (vinit sample_venv))) (K ''title'')) = []"
    by (simp add: newVideo_def emptyVideo_def str_trim_def or_default_def truthy_opt_def js_trim_def K_def)
  show ?thesis using save_needs_title[OF t] t by simp
qed

end
