(* ===== verification/PostsAdmin.thy ===== *)
theory PostsAdmin
  imports VideoAdmin PostsStore
begin

text \<open>
  The posts admin page, \<open>src/src/app/admin/page.jsx\<close>: the thumbnail helpers
  \<open>normalizeThumbnail\<close> and \<open>resolveThumbnailUrl\<close>, the React state of \<open>AdminPosts\<close> as a
  record, and its handlers. Every handler that awaits a request is split at its \<open>await\<close>:
  the first half returns the request together with the continuation that holds what the
  closure captured (the form and the flags of the render that ran it), and the second half
  runs on the answer. A page is a state together with its pending requests, and the
  server answers any pending request at any time, so the interleavings of the model are
  those of the page.
\<close>

section \<open>Thumbnails\<close>

definition BASE_PUBLIC_URL :: ustr where
  "BASE_PUBLIC_URL = U ''https://myad-dev.com/public''"

definition DEFAULT_THUMB :: ustr where
  "DEFAULT_THUMB = U ''/default-thumb.jpg''"

definition starts_with :: "ustr \<Rightarrow> ustr \<Rightarrow> bool" where
  \<comment> \<open>\<open>s.startsWith(p)\<close>\<close>
  "starts_with s p \<longleftrightarrow> take (length p) s = p"

definition strip_base :: "ustr \<Rightarrow> ustr" where
  \<comment> \<open>\<open>s.startsWith(BASE_PUBLIC_URL) ? s.slice(BASE_PUBLIC_URL.length) : s\<close>\<close>
  "strip_base s = (if starts_with s BASE_PUBLIC_URL then drop (length BASE_PUBLIC_URL) s else s)"

definition normalizeThumbnail :: "jval \<Rightarrow> jval js" where
  \<comment> \<open>a truthy value that is not a string has no \<open>startsWith\<close>\<close>
  "normalizeThumbnail t =
     (if \<not> truthy t then Inr (JStr [])
      else case t of JStr s \<Rightarrow> Inr (JStr (strip_base s)) | _ \<Rightarrow> Inl TypeError)"

definition resolveThumbnailUrl :: "jval option \<Rightarrow> ustr js" where
  "resolveThumbnailUrl t =
     (if \<not> truthy_opt t then Inr DEFAULT_THUMB
      else case t of
             Some (JStr s) \<Rightarrow>
               Inr (if starts_with s (U ''http://'') \<or> starts_with s (U ''https://'') then s else BASE_PUBLIC_URL @ s)
           | _ \<Rightarrow> Inl TypeError)"

section \<open>State\<close>

definition emptyPost :: "ustr \<Rightarrow> (ustr \<times> jval) list" where
  \<comment> \<open>the date is \<open>new Date().toISOString().slice(0, 10)\<close> at module load\<close>
  "emptyPost day =
     [(K ''slug'', JStr []), (K ''title'', JStr []), (K ''date'', JStr day), (K ''excerpt'', JStr []),
      (K ''tags'', JArr []), (K ''author'', JStr DEFAULT_AUTHOR), (K ''thumbnail'', JStr []),
      (K ''contentHtml'', JStr DEFAULT_CONTENT), (K ''keywords'', JArr []), (K ''faqs'', JArr [])]"

datatype thumb_tab = TabUrl | TabUpload

record pstate =
  p_items :: jval                        \<comment> \<open>\<open>j?.items || []\<close> of the last load: any truthy value\<close>
  p_form :: "(ustr \<times> jval) list"
  p_filter :: ustr
  p_saving :: bool
  p_editMode :: bool
  p_originalSlug :: "jval option"        \<comment> \<open>\<open>post.slug\<close> of the post being edited\<close>
  p_thumbTab :: thumb_tab
  p_thumbFile :: "nat option"            \<comment> \<open>the chosen \<open>File\<close>, by identity\<close>
  p_thumbUploading :: bool
  p_faqQ :: ustr
  p_faqA :: ustr

definition pinit :: "ustr \<Rightarrow> pstate" where
  \<comment> \<open>the \<open>useState\<close> initial values\<close>
  "pinit day =
     \<lparr>p_items = JArr [], p_form = emptyPost day, p_filter = [], p_saving = False, p_editMode = False,
      p_originalSlug = Some (JStr []), p_thumbTab = TabUrl, p_thumbFile = None, p_thumbUploading = False,
      p_faqQ = [], p_faqA = []\<rparr>"

section \<open>Requests, answers and continuations\<close>

datatype prequest = ReqGetPosts | ReqPostPost jval | ReqDeletePost ustr | ReqUpload nat

datatype panswer =
    Reply bool "jval option"     \<comment> \<open>\<open>res.ok\<close>, and the body \<open>res.json()\<close> parses to, if it parses\<close>
  | NetFail                      \<comment> \<open>\<open>fetch\<close> rejects\<close>

datatype pcont =
    KLoad                                            \<comment> \<open>the mount effect\<close>
  | KDeleteOld "(ustr \<times> jval) list" bool            \<comment> \<open>\<open>onSubmit\<close> after the DELETE of \<open>originalSlug\<close>\<close>
  | KPost bool                                       \<comment> \<open>\<open>onSubmit\<close> after the POST\<close>
  | KReloadSaved bool                                \<comment> \<open>\<open>onSubmit\<close> in \<open>await reload()\<close>\<close>
  | KDelete "jval option" bool "jval option"         \<comment> \<open>\<open>onDelete(slug)\<close> after its DELETE\<close>
  | KReloadDeleted "jval option" bool "jval option"  \<comment> \<open>\<open>onDelete\<close> in \<open>await reload()\<close>\<close>
  | KUpload "(ustr \<times> jval) list"                   \<comment> \<open>\<open>handleUploadThumbnail\<close> after the upload\<close>

datatype pmsg =
    PMsgEdited | PMsgSaved | PMsgSaveRejected jval | PMsgSaveError
  | PMsgDeleted | PMsgDeleteFailed | PMsgUploaded | PMsgUploadFailed js_error | PMsgFaqIncomplete

datatype peffect =
    PSend prequest pcont     \<comment> \<open>a request, and the continuation that awaits its answer\<close>
  | PAlert pmsg
  | PUnhandled js_error      \<comment> \<open>an error outside any \<open>try\<close>: the handler's promise is rejected\<close>

definition ERR_TEXT :: ustr where
  \<comment> \<open>the Thai word for "error"\<close>
  "ERR_TEXT = [3612, 3636, 3604, 3614, 3621, 3634, 3604]"

definition UPLOAD_FAILED :: ustr where
  \<comment> \<open>the Thai words for "upload failed"\<close>
  "UPLOAD_FAILED = [3629, 3633, 3611, 3650, 3627, 3621, 3604, 3652, 3617, 3656, 3626, 3635, 3648, 3619, 3655, 3592]"

section \<open>Handlers\<close>

definition items_of :: "jval \<Rightarrow> jval" where
  \<comment> \<open>\<open>j?.items || []\<close>\<close>
  "items_of j = or_default (opt_prop j (K ''items'')) (JArr [])"

definition error_text :: "jval option \<Rightarrow> jval" where
  \<comment> \<open>\<open>j?.error || j?.message || "..."\<close>, \<open>j\<close> being \<open>{}\<close> when the body does not parse\<close>
  "error_text b =
     (let j = (case b of Some x \<Rightarrow> x | None \<Rightarrow> JObj [])
      in or_default (opt_prop j (K ''error'')) (or_default (opt_prop j (K ''message'')) (JStr ERR_TEXT)))"

definition set_field :: "ustr \<Rightarrow> jval \<Rightarrow> pstate \<Rightarrow> pstate" where
  \<comment> \<open>\<open>setForm({ ...form, k: v })\<close>\<close>
  "set_field k v st = st\<lparr>p_form := obj_set (p_form st) k v\<rparr>"

definition reset_form :: "ustr \<Rightarrow> pstate \<Rightarrow> pstate" where
  \<comment> \<open>\<open>setForm(emptyPost); setFaqQ(""); setFaqA(""); setEditMode(false); setOriginalSlug("")\<close>\<close>
  "reset_form day st =
     st\<lparr>p_form := emptyPost day, p_faqQ := [], p_faqA := [], p_editMode := False, p_originalSlug := Some (JStr [])\<rparr>"

definition onSubmit :: "pstate \<Rightarrow> pstate \<times> peffect list" where
  \<comment> \<open>up to the first \<open>await\<close>: in edit mode the DELETE of the original slug, else the POST\<close>
  "onSubmit st =
     (let st1 = st\<lparr>p_saving := True\<rparr>; f = p_form st; em = p_editMode st in
      if em \<and> truthy_opt (p_originalSlug st) then
        (case encode_uri (js_String_opt (p_originalSlug st)) of
           None \<Rightarrow> (st1\<lparr>p_saving := False\<rparr>, [PAlert PMsgSaveError])
         | Some u \<Rightarrow> (st1, [PSend (ReqDeletePost u) (KDeleteOld f em)]))
      else (st1, [PSend (ReqPostPost (JObj f)) (KPost em)]))"

definition onDelete :: "jval option \<Rightarrow> bool \<Rightarrow> pstate \<Rightarrow> pstate \<times> peffect list" where
  \<comment> \<open>\<open>onDelete(slug)\<close> after the answer to \<open>confirm\<close>; nothing here is inside a \<open>try\<close>\<close>
  "onDelete s confirmed st =
     (if \<not> confirmed then (st, [])
      else case encode_uri (js_String_opt s) of
             None \<Rightarrow> (st, [PUnhandled uri_error])
           | Some u \<Rightarrow> (st, [PSend (ReqDeletePost u) (KDelete s (p_editMode st) (p_originalSlug st))]))"

definition uploadImageFile_answer :: "panswer \<Rightarrow> jval js" where
  \<comment> \<open>what \<open>await uploadImageFile(thumbFile)\<close> gives on the answer: \<open>j?.url || null\<close>, or
      the error it throws\<close>
  "uploadImageFile_answer a =
     (case a of
        NetFail \<Rightarrow> Inl TypeError
      | Reply False b \<Rightarrow> Inl (Thrown UPLOAD_FAILED)
      | Reply True None \<Rightarrow> Inl SyntaxError
      | Reply True (Some j) \<Rightarrow> Inr (or_default (opt_prop j (K ''url'')) JNull))"

definition upload_reply :: "(ustr \<times> jval) list \<Rightarrow> panswer \<Rightarrow> pstate \<Rightarrow> pstate \<times> peffect list" where
  \<comment> \<open>the rest of \<open>handleUploadThumbnail\<close>: \<open>urlOrPath || ""\<close>, the prefix stripped, and the
      form of the render that started the upload set with the new thumbnail\<close>
  "upload_reply f a st =
     (let fail = (\<lambda>err. (st\<lparr>p_thumbUploading := False\<rparr>, [PAlert (PMsgUploadFailed err)])) in
      case uploadImageFile_answer a of
        Inl err \<Rightarrow> fail err
      | Inr v \<Rightarrow>
          (case or_default (Some v) (JStr []) of
             JStr s \<Rightarrow> (st\<lparr>p_form := obj_set f (K ''thumbnail'') (JStr (strip_base s)), p_thumbFile := None,
                          p_thumbTab := TabUrl, p_thumbUploading := False\<rparr>, [PAlert PMsgUploaded])
           | _ \<Rightarrow> fail TypeError))"

definition on_reply :: "ustr \<Rightarrow> pcont \<Rightarrow> panswer \<Rightarrow> pstate \<Rightarrow> pstate \<times> peffect list" where
  \<comment> \<open>the second halves of the handlers; \<open>reload()\<close> has no \<open>try\<close> of its own\<close>
  "on_reply day k a st =
     (case k of
        KLoad \<Rightarrow> (case a of Reply ok (Some j) \<Rightarrow> (st\<lparr>p_items := items_of j\<rparr>, []) | _ \<Rightarrow> (st, []))
      | KDeleteOld f em \<Rightarrow>
          (case a of NetFail \<Rightarrow> (st\<lparr>p_saving := False\<rparr>, [PAlert PMsgSaveError])
                   | Reply ok b \<Rightarrow> (st, [PSend (ReqPostPost (JObj f)) (KPost em)]))
      | KPost em \<Rightarrow>
          (case a of NetFail \<Rightarrow> (st\<lparr>p_saving := False\<rparr>, [PAlert PMsgSaveError])
                   | Reply True b \<Rightarrow> (reset_form day (st\<lparr>p_saving := False\<rparr>), [PSend ReqGetPosts (KReloadSaved em)])
                   | Reply False b \<Rightarrow> (st\<lparr>p_saving := False\<rparr>, [PAlert (PMsgSaveRejected (error_text b))]))
      | KReloadSaved em \<Rightarrow>
          (case a of Reply ok (Some j) \<Rightarrow> (st\<lparr>p_items := items_of j\<rparr>, [PAlert (if em then PMsgEdited else PMsgSaved)])
                   | _ \<Rightarrow> (st\<lparr>p_saving := False\<rparr>, [PAlert PMsgSaveError]))
      | KDelete s em os \<Rightarrow>
          (case a of NetFail \<Rightarrow> (st, [PUnhandled TypeError])
                   | Reply True b \<Rightarrow> (st, [PSend ReqGetPosts (KReloadDeleted s em os)])
                   | Reply False b \<Rightarrow> (st, [PAlert PMsgDeleteFailed]))
      | KReloadDeleted s em os \<Rightarrow>
          (case a of NetFail \<Rightarrow> (st, [PUnhandled TypeError])
                   | Reply ok None \<Rightarrow> (st, [PUnhandled SyntaxError])
                   | Reply ok (Some j) \<Rightarrow>
                       (let st1 = st\<lparr>p_items := items_of j\<rparr>
                        in (if em \<and> os = s then reset_form day st1 else st1, [PAlert PMsgDeleted])))
      | KUpload f \<Rightarrow> upload_reply f a st)"

definition handleUploadThumbnail :: "pstate \<Rightarrow> pstate \<times> peffect list" where
  "handleUploadThumbnail st =
     (case p_thumbFile st of
        None \<Rightarrow> (st, [])
      | Some file \<Rightarrow> (st\<lparr>p_thumbUploading := True\<rparr>, [PSend (ReqUpload file) (KUpload (p_form st))]))"

definition onEdit :: "ustr \<Rightarrow> jval \<Rightarrow> pstate \<Rightarrow> pstate \<times> peffect list" where
  \<comment> \<open>the object literal is built before \<open>setForm\<close> runs, so a throw leaves the state as it was\<close>
  "onEdit day post st =
     (let p = opt_prop post; arr = (\<lambda>k. JArr (safeArray (p k))) in
      if post = JNull then (st, [PUnhandled TypeError])
      else case normalizeThumbnail (or_default (p (K ''thumbnail'')) (JStr [])) of
        Inl err \<Rightarrow> (st, [PUnhandled err])
      | Inr th \<Rightarrow>
          (st\<lparr>p_form := [(K ''slug'', or_default (p (K ''slug'')) (JStr [])),
                          (K ''title'', or_default (p (K ''title'')) (JStr [])),
                          (K ''date'', or_default (p (K ''date'')) (JStr day)),
                          (K ''excerpt'', or_default (p (K ''excerpt'')) (JStr [])),
                          (K ''tags'', arr (K ''tags'')),
                          (K ''author'', or_default (p (K ''author'')) (JStr DEFAULT_AUTHOR)),
                          (K ''thumbnail'', th),
                          (K ''contentHtml'', or_default (p (K ''contentHtml'')) (JStr DEFAULT_CONTENT)),
                          (K ''keywords'', arr (K ''keywords'')),
                          (K ''faqs'', arr (K ''faqs''))],
              p_faqQ := [], p_faqA := [], p_editMode := True, p_originalSlug := p (K ''slug'')\<rparr>, []))"

section \<open>The filtered list\<close>

definition lower_field :: "jval \<Rightarrow> ustr \<Rightarrow> ustr js" where
  \<comment> \<open>\<open>(v.k || "").toLowerCase()\<close>: a truthy value that is not a string has no \<open>toLowerCase\<close>\<close>
  "lower_field v k =
     js_bind (get_prop v k) (\<lambda>x. case or_default x (JStr []) of JStr s \<Rightarrow> Inr (js_lower s) | _ \<Rightarrow> Inl TypeError)"

definition post_matches :: "ustr \<Rightarrow> jval \<Rightarrow> bool js" where
  \<comment> \<open>the callback of \<open>items.filter\<close>, with the short-circuit of \<open>||\<close>\<close>
  "post_matches q v =
     js_bind (lower_field v (K ''title'')) (\<lambda>t. if js_includes t q then Inr True else
     js_bind (lower_field v (K ''slug'')) (\<lambda>s. if js_includes s q then Inr True else
     js_bind (get_prop v (K ''keywords'')) (\<lambda>k.
       Inr (js_includes (case k of Some (JArr xs) \<Rightarrow> js_lower (join_sp k) | _ \<Rightarrow> []) q))))"

definition filtered_posts :: "pstate \<Rightarrow> jval list js" where
  "filtered_posts st =
     (case p_items st of JArr xs \<Rightarrow> js_filter (post_matches (js_lower (p_filter st))) xs | _ \<Rightarrow> Inl TypeError)"

section \<open>FAQ editor\<close>

definition faq_list :: "pstate \<Rightarrow> jval list" where
  \<comment> \<open>\<open>Array.isArray(form.faqs) ? [...form.faqs] : []\<close>\<close>
  "faq_list st = safeArray (map_of (p_form st) (K ''faqs''))"

definition set_faqs :: "jval list \<Rightarrow> pstate \<Rightarrow> pstate" where
  "set_faqs xs = set_field (K ''faqs'') (JArr xs)"

definition addFaq_posts :: "pstate \<Rightarrow> pstate \<times> peffect list" where
  \<comment> \<open>\<open>addFaq\<close>\<close>
  "addFaq_posts st =
     (let q = js_trim (p_faqQ st); a = js_trim (p_faqA st) in
      if q = [] \<or> a = [] then (st, [PAlert PMsgFaqIncomplete])
      else ((set_faqs (faq_list st @ [JObj [(K ''q'', JStr q), (K ''a'', JStr a)]]) st)\<lparr>p_faqQ := [], p_faqA := []\<rparr>, []))"

definition removeFaq :: "nat \<Rightarrow> pstate \<Rightarrow> pstate" where
  "removeFaq i st = set_faqs (js_splice1 (faq_list st) i) st"

definition moveFaq :: "nat \<Rightarrow> int \<Rightarrow> pstate \<Rightarrow> pstate" where
  \<comment> \<open>\<open>const [it] = arr.splice(from, 1); arr.splice(to, 0, it)\<close>; past the end \<open>it\<close> is
      \<open>undefined\<close>, which \<open>JSON.stringify\<close> writes as \<open>null\<close>\<close>
  "moveFaq i t st =
     (let arr = faq_list st in
      if t < 0 \<or> int (length arr) \<le> t then st
      else let it = (if i < length arr then arr ! i else JNull); rest = js_splice1 arr i
           in set_faqs (take (nat t) rest @ [it] @ drop (nat t) rest) st)"


section \<open>Rendering\<close>

datatype post_row = PostRow jval ustr ustr   \<comment> \<open>the post, the image \<open>src\<close>, the link to the post\<close>

definition row_of :: "jval \<Rightarrow> post_row js" where
  \<comment> \<open>a row of the table: the key \<open>`${v.slug}-${idx}`\<close> reads \<open>v.slug\<close> first\<close>
  "row_of v =
     js_bind (get_prop v (K ''slug'')) (\<lambda>s. js_bind (get_prop v (K ''thumbnail'')) (\<lambda>t.
       js_bind (resolveThumbnailUrl t) (\<lambda>img. Inr (PostRow v img (U ''/blog/'' @ js_String_opt s)))))"

definition posts_table :: "pstate \<Rightarrow> post_row list js" where
  "posts_table st = js_bind (filtered_posts st) (js_map row_of)"

definition table_posts :: "pstate \<Rightarrow> jval list" where
  \<comment> \<open>the posts of the rows the table shows, when it renders\<close>
  "table_posts st = (case posts_table st of Inr rs \<Rightarrow> map (\<lambda>r. case r of PostRow v i h \<Rightarrow> v) rs | Inl err \<Rightarrow> [])"

definition thumb_preview :: "pstate \<Rightarrow> ustr option js" where
  \<comment> \<open>\<open>{form.thumbnail && <img src={resolveThumbnailUrl(form.thumbnail)} />}\<close>\<close>
  "thumb_preview st =
     (let t = map_of (p_form st) (K ''thumbnail'') in
      if truthy_opt t then js_bind (resolveThumbnailUrl t) (\<lambda>u. Inr (Some u)) else Inr None)"

definition is_array :: "jval option \<Rightarrow> bool" where
  "is_array v \<longleftrightarrow> (case v of Some (JArr xs) \<Rightarrow> True | _ \<Rightarrow> False)"

definition page_ok :: "pstate \<Rightarrow> bool" where
  \<comment> \<open>the render does not throw: \<open>form.tags.join\<close>, \<open>form.keywords.join\<close>, the thumbnail
      preview and the table\<close>
  "page_ok st \<longleftrightarrow>
     is_array (map_of (p_form st) (K ''tags'')) \<and> is_array (map_of (p_form st) (K ''keywords''))
     \<and> \<not> isl (thumb_preview st) \<and> \<not> isl (posts_table st)"

section \<open>Events and the step function\<close>

datatype pfield = PSlug | PTitle | PDate | PAuthor | PExcerpt | PContentHtml

fun pfield_key :: "pfield \<Rightarrow> ustr" where
  "pfield_key PSlug = K ''slug''" | "pfield_key PTitle = K ''title''" | "pfield_key PDate = K ''date''"
| "pfield_key PAuthor = K ''author''" | "pfield_key PExcerpt = K ''excerpt''"
| "pfield_key PContentHtml = K ''contentHtml''"

datatype form_pev =
    Submit | CancelEdit | SetPField pfield ustr | SetThumbTab thumb_tab | SetThumbPath ustr
  | ChooseFile "nat option" | UploadThumb | SetPTags ustr | SetPKeywords ustr

datatype faq_pev = SetFaqQ ustr | SetFaqA ustr | AddFaqP | ClearFaqInputs | MoveFaqUp nat | MoveFaqDown nat | RemoveFaqP nat

datatype list_pev = SetFilter ustr | EditPost jval | DeletePost jval bool

datatype pui = FormPev form_pev | FaqPev faq_pev | ListPev list_pev

definition step_form_posts :: "ustr \<Rightarrow> form_pev \<Rightarrow> pstate \<Rightarrow> pstate \<times> peffect list" where
  \<comment> \<open>the form: its inputs (slug and thumbnail path trimmed), the thumbnail tabs and upload,
      the submit and the cancel buttons\<close>
  "step_form_posts day ev st =
     (case ev of
        Submit \<Rightarrow> onSubmit st
      | CancelEdit \<Rightarrow> (reset_form day st, [])
      | SetPField f s \<Rightarrow> (set_field (pfield_key f) (JStr (if f = PSlug then js_trim s else s)) st, [])
      | SetThumbTab t \<Rightarrow> (st\<lparr>p_thumbTab := t\<rparr>, [])
      | SetThumbPath s \<Rightarrow> (set_field (K ''thumbnail'') (JStr (js_trim s)) st, [])
      | ChooseFile f \<Rightarrow> (st\<lparr>p_thumbFile := f\<rparr>, [])
      | UploadThumb \<Rightarrow> handleUploadThumbnail st
      | SetPTags s \<Rightarrow> (set_field (K ''tags'') (JArr (map JStr (csvToArray s))) st, [])
      | SetPKeywords s \<Rightarrow> (set_field (K ''keywords'') (JArr (map JStr (csvToArray s))) st, []))"

definition step_faq :: "faq_pev \<Rightarrow> pstate \<Rightarrow> pstate \<times> peffect list" where
  \<comment> \<open>the FAQ editor: its two inputs, the add and clear buttons and the row buttons\<close>
  "step_faq ev st =
     (case ev of
        SetFaqQ s \<Rightarrow> (st\<lparr>p_faqQ := s\<rparr>, [])
      | SetFaqA s \<Rightarrow> (st\<lparr>p_faqA := s\<rparr>, [])
      | AddFaqP \<Rightarrow> addFaq_posts st
      | ClearFaqInputs \<Rightarrow> (st\<lparr>p_faqQ := [], p_faqA := []\<rparr>, [])
      | MoveFaqUp i \<Rightarrow> (moveFaq i (int i - 1) st, [])
      | MoveFaqDown i \<Rightarrow> (moveFaq i (int i + 1) st, [])
      | RemoveFaqP i \<Rightarrow> (removeFaq i st, []))"

definition step_list_posts :: "ustr \<Rightarrow> list_pev \<Rightarrow> pstate \<Rightarrow> pstate \<times> peffect list" where
  \<comment> \<open>the search box and the edit and delete buttons of a row\<close>
  "step_list_posts day ev st =
     (case ev of
        SetFilter s \<Rightarrow> (st\<lparr>p_filter := s\<rparr>, [])
      | EditPost v \<Rightarrow> onEdit day v st
      | DeletePost v c \<Rightarrow> onDelete (opt_prop v (K ''slug'')) c st)"

definition pstep :: "ustr \<Rightarrow> pui \<Rightarrow> pstate \<Rightarrow> pstate \<times> peffect list" where
  "pstep day ev st =
     (case ev of FormPev x \<Rightarrow> step_form_posts day x st | FaqPev x \<Rightarrow> step_faq x st
               | ListPev x \<Rightarrow> step_list_posts day x st)"

definition required_ok :: "pstate \<Rightarrow> bool" where
  \<comment> \<open>the \<open>required\<close> inputs (slug, title, date) are filled: the browser blocks the submit otherwise\<close>
  "required_ok st \<longleftrightarrow>
     list_all (\<lambda>k. js_String (or_default (map_of (p_form st) k) (JStr [])) \<noteq> []) [K ''slug'', K ''title'', K ''date'']"

definition penabled :: "pstate \<Rightarrow> pui \<Rightarrow> bool" where
  \<comment> \<open>the controls the JSX renders and does not disable, on a render that does not throw\<close>
  "penabled st ev \<longleftrightarrow> page_ok st \<and>
     (case ev of
        FormPev x \<Rightarrow>
          (case x of Submit \<Rightarrow> \<not> p_saving st \<and> required_ok st
                   | CancelEdit \<Rightarrow> p_editMode st
                   | SetThumbPath s \<Rightarrow> p_thumbTab st = TabUrl
                   | ChooseFile f \<Rightarrow> p_thumbTab st = TabUpload
                   | UploadThumb \<Rightarrow> p_thumbTab st = TabUpload \<and> p_thumbFile st \<noteq> None \<and> \<not> p_thumbUploading st
                   | _ \<Rightarrow> True)
      | FaqPev x \<Rightarrow>
          (case x of MoveFaqUp i \<Rightarrow> i < length (faq_list st) \<and> i \<noteq> 0
                   | MoveFaqDown i \<Rightarrow> Suc i < length (faq_list st)
                   | RemoveFaqP i \<Rightarrow> i < length (faq_list st)
                   | _ \<Rightarrow> True)
      | ListPev x \<Rightarrow>
          (case x of SetFilter s \<Rightarrow> True
                   | EditPost v \<Rightarrow> v \<in> set (table_posts st)
                   | DeletePost v c \<Rightarrow> v \<in> set (table_posts st)))"

definition sends :: "peffect list \<Rightarrow> (prequest \<times> pcont) list" where
  \<comment> \<open>the requests an effect list sends, with their continuations\<close>
  "sends es = concat (map (\<lambda>e. case e of PSend r k \<Rightarrow> [(r, k)] | _ \<Rightarrow> []) es)"

inductive preach :: "ustr \<Rightarrow> pstate \<Rightarrow> (prequest \<times> pcont) list \<Rightarrow> bool" for day where
  mount: "preach day (pinit day) [(ReqGetPosts, KLoad)]"
| ui: "preach day st ps \<Longrightarrow> penabled st ev \<Longrightarrow> pstep day ev st = (st', es) \<Longrightarrow> preach day st' (ps @ sends es)"
| reply: "preach day st ps \<Longrightarrow> (r, k) \<in> set ps \<Longrightarrow> on_reply day k a st = (st', es)
          \<Longrightarrow> preach day st' (remove1 (r, k) ps @ sends es)"

section \<open>Predicates of the model and a sample session\<close>

definition submitting :: "prequest \<times> pcont \<Rightarrow> bool" where
  \<comment> \<open>a pending request of \<open>onSubmit\<close> whose POST is not answered yet\<close>
  "submitting rk \<longleftrightarrow> (case snd rk of KDeleteOld f em \<Rightarrow> True | KPost em \<Rightarrow> True | _ \<Rightarrow> False)"

definition form_ok :: "(ustr \<times> jval) list \<Rightarrow> bool" where
  \<comment> \<open>a form the render reads without throwing: array tags and keywords, a string thumbnail\<close>
  "form_ok f \<longleftrightarrow> is_array (map_of f (K ''tags'')) \<and> is_array (map_of f (K ''keywords''))
                \<and> (case map_of f (K ''thumbnail'') of Some (JStr s) \<Rightarrow> True | _ \<Rightarrow> False)"

definition cont_ok :: "prequest \<times> pcont \<Rightarrow> bool" where
  \<comment> \<open>the form a pending upload captured is one the render reads\<close>
  "cont_ok rk \<longleftrightarrow> (case snd rk of KUpload f \<Rightarrow> form_ok f | _ \<Rightarrow> True)"

definition sample_day :: ustr where
  "sample_day = U ''2025-01-02''"

definition filled_state :: pstate where
  \<comment> \<open>the slug \<open>a\<close> and the title \<open>t\<close> typed into the empty form\<close>
  "filled_state =
     fst (pstep sample_day (FormPev (SetPField PTitle (U ''t'')))
       (fst (pstep sample_day (FormPev (SetPField PSlug (U ''a''))) (pinit sample_day))))"

section \<open>Lemmas\<close>

subsection \<open>The saving flag\<close>

lemma sends_simps [simp]:
  "sends [] = []" "sends (PSend r k # es) = (r, k) # sends es"
  "sends (PAlert m # es) = sends es" "sends (PUnhandled err # es) = sends es"
  by (simp_all add: sends_def)

lemma reset_form_saving [simp]: "p_saving (reset_form d st) = p_saving st"
  by (simp add: reset_form_def)

lemma set_field_saving [simp]: "p_saving (set_field k v st) = p_saving st"
  by (simp add: set_field_def)

lemma set_faqs_saving [simp]: "p_saving (set_faqs xs st) = p_saving st"
  by (simp add: set_faqs_def)

lemma pstep_saving:
  assumes "pstep d ev st = (st', es)" "p_saving st'"
  shows "p_saving st \<or> list_ex submitting (sends es)"
  using assms
  by (auto simp: pstep_def step_form_posts_def step_faq_def step_list_posts_def onSubmit_def onDelete_def
      onEdit_def handleUploadThumbnail_def addFaq_posts_def moveFaq_def removeFaq_def Let_def submitting_def
      split: pui.splits form_pev.splits faq_pev.splits list_pev.splits if_splits option.splits sum.splits)

lemma upload_reply_fst_saving: "p_saving (fst (upload_reply f a st)) = p_saving st"
  by (simp add: upload_reply_def uploadImageFile_answer_def Let_def split: panswer.splits bool.splits option.splits jval.splits sum.splits)

lemma upload_reply_saving: "upload_reply f a st = (st', es) \<Longrightarrow> p_saving st' = p_saving st"
  using upload_reply_fst_saving[of f a st] by simp

lemma on_reply_saving:
  assumes "on_reply d k a st = (st', es)" "p_saving st'"
  shows "p_saving st \<and> (submitting (r, k) \<longrightarrow> list_ex submitting (sends es))"
  using assms
  by (auto simp: on_reply_def Let_def submitting_def dest: upload_reply_saving
      split: pcont.splits panswer.splits bool.splits option.splits if_splits)

lemma preach_saving_pending:
  "preach d st ps \<Longrightarrow> p_saving st \<Longrightarrow> list_ex submitting ps"
proof (induction rule: preach.induct)
  case mount
  then show ?case by (simp add: pinit_def)
next
  case (ui st ps ev st' es)
  then show ?case using pstep_saving[OF ui.hyps(3)] by auto
next
  case (reply st ps r k a st' es)
  from on_reply_saving[OF reply.hyps(3) reply.prems, of r] reply.IH
  show ?case by (cases "submitting (r, k)") (auto intro: list_ex_remove1)
qed

subsection \<open>Steps of a session\<close>

lemma preach_ui_step:
  "preach d st ps \<Longrightarrow> penabled st ev \<Longrightarrow> preach d (fst (pstep d ev st)) (ps @ sends (snd (pstep d ev st)))"
  using preach.ui[of d st ps ev "fst (pstep d ev st)" "snd (pstep d ev st)"] by simp

lemma preach_reply_step:
  "preach d st ps \<Longrightarrow> (r, k) \<in> set ps \<Longrightarrow>
   preach d (fst (on_reply d k a st)) (remove1 (r, k) ps @ sends (snd (on_reply d k a st)))"
  using preach.reply[of d st ps r k a "fst (on_reply d k a st)" "snd (on_reply d k a st)"] by simp

lemmas pstep_eval = pstep_def step_form_posts_def step_faq_def step_list_posts_def set_field_def onSubmit_def
  reset_form_def

lemmas penabled_eval = penabled_def page_ok_def thumb_preview_def posts_table_def filtered_posts_def is_array_def
  required_ok_def K_def Let_def truthy_opt_def

lemmas trace_eval = pstep_eval penabled_eval pinit_def emptyPost_def js_trim_def is_js_ws_def U_def map_of_obj_set
  DEFAULT_AUTHOR_def DEFAULT_CONTENT_def sample_day_def or_default_def

lemma preach_filled: "preach sample_day filled_state [(ReqGetPosts, KLoad)]"
proof -
  define s1 where "s1 = fst (pstep sample_day (FormPev (SetPField PSlug (U ''a''))) (pinit sample_day))"
  have "preach sample_day s1
          ([(ReqGetPosts, KLoad)] @ sends (snd (pstep sample_day (FormPev (SetPField PSlug (U ''a''))) (pinit sample_day))))"
    unfolding s1_def by (rule preach_ui_step[OF preach.mount]) (simp add: trace_eval)
  then have p1: "preach sample_day s1 [(ReqGetPosts, KLoad)]" by (simp add: pstep_eval)
  have "preach sample_day filled_state
          ([(ReqGetPosts, KLoad)] @ sends (snd (pstep sample_day (FormPev (SetPField PTitle (U ''t''))) s1)))"
    unfolding filled_state_def s1_def[symmetric] by (rule preach_ui_step[OF p1]) (simp add: trace_eval s1_def)
  then show ?thesis by (simp add: pstep_eval)
qed

lemma preach_submitted:
  "preach sample_day (fst (pstep sample_day (FormPev Submit) filled_state))
     [(ReqGetPosts, KLoad), (ReqPostPost (JObj (p_form filled_state)), KPost False)]"
  using preach_ui_step[OF preach_filled, of "FormPev Submit"] by (simp add: trace_eval filled_state_def)

lemma submitted_saving: "p_saving (fst (pstep sample_day (FormPev Submit) filled_state))"
  by (simp add: trace_eval filled_state_def)

subsection \<open>The FAQ list\<close>

lemma faq_list_set_faqs [simp]: "faq_list (set_faqs xs st) = xs"
  by (simp add: faq_list_def set_faqs_def set_field_def map_of_obj_set safeArray_def)

lemma move_down_list:
  assumes "Suc i < length xs"
  shows "(let rest = js_splice1 xs i in take (nat (int i + 1)) rest @ [xs ! i] @ drop (nat (int i + 1)) rest)
         = xs[i := xs ! Suc i, Suc i := xs ! i]"
proof -
  obtain ys a b zs where xs: "xs = ys @ a # b # zs" "length ys = i"
    using assms by (metis Cons_nth_drop_Suc Suc_lessD append_take_drop_id length_take min.absorb4)
  have "nat (int i + 1) = Suc i" by simp
  then show ?thesis by (simp add: xs js_splice1_def nth_append list_update_append)
qed

lemma move_up_list:
  assumes "Suc i < length xs"
  shows "(let rest = js_splice1 xs (Suc i) in take (nat (int (Suc i) - 1)) rest @ [xs ! Suc i] @ drop (nat (int (Suc i) - 1)) rest)
         = xs[i := xs ! Suc i, Suc i := xs ! i]"
proof -
  obtain ys a b zs where xs: "xs = ys @ a # b # zs" "length ys = i"
    using assms by (metis Cons_nth_drop_Suc Suc_lessD append_take_drop_id length_take min.absorb4)
  show ?thesis by (simp add: xs js_splice1_def nth_append list_update_append)
qed

subsection \<open>The form the render reads\<close>

lemma K_form_keys [simp]:
  "K ''slug'' \<noteq> K ''tags''" "K ''slug'' \<noteq> K ''keywords''" "K ''slug'' \<noteq> K ''thumbnail''"
  "K ''title'' \<noteq> K ''tags''" "K ''title'' \<noteq> K ''keywords''" "K ''title'' \<noteq> K ''thumbnail''"
  "K ''date'' \<noteq> K ''tags''" "K ''date'' \<noteq> K ''keywords''" "K ''date'' \<noteq> K ''thumbnail''"
  "K ''author'' \<noteq> K ''tags''" "K ''author'' \<noteq> K ''keywords''" "K ''author'' \<noteq> K ''thumbnail''"
  "K ''excerpt'' \<noteq> K ''tags''" "K ''excerpt'' \<noteq> K ''keywords''" "K ''excerpt'' \<noteq> K ''thumbnail''"
  "K ''contentHtml'' \<noteq> K ''tags''" "K ''contentHtml'' \<noteq> K ''keywords''" "K ''contentHtml'' \<noteq> K ''thumbnail''"
  "K ''faqs'' \<noteq> K ''tags''" "K ''faqs'' \<noteq> K ''keywords''" "K ''faqs'' \<noteq> K ''thumbnail''"
  "K ''tags'' \<noteq> K ''keywords''" "K ''tags'' \<noteq> K ''thumbnail''" "K ''keywords'' \<noteq> K ''thumbnail''"
  by (simp_all add: K_def U_def)

lemmas K_form_keys' [simp] = K_form_keys[THEN not_sym]

lemma form_ok_emptyPost [simp]: "form_ok (emptyPost d)"
  by (simp add: form_ok_def emptyPost_def is_array_def)

lemma form_ok_set_field [simp]:
  "k \<noteq> K ''tags'' \<Longrightarrow> k \<noteq> K ''keywords'' \<Longrightarrow> k \<noteq> K ''thumbnail'' \<Longrightarrow>
   form_ok (p_form (set_field k v st)) = form_ok (p_form st)"
  by (simp add: form_ok_def set_field_def map_of_obj_set)

lemma form_ok_set_arr [simp]:
  "form_ok (p_form st) \<Longrightarrow> form_ok (p_form (set_field (K ''tags'') (JArr xs) st))"
  "form_ok (p_form st) \<Longrightarrow> form_ok (p_form (set_field (K ''keywords'') (JArr xs) st))"
  by (simp_all add: form_ok_def set_field_def map_of_obj_set is_array_def)

lemma form_ok_set_thumb [simp]:
  "form_ok f \<Longrightarrow> form_ok (obj_set f (K ''thumbnail'') (JStr s))"
  by (simp add: form_ok_def map_of_obj_set)

lemma form_ok_set_thumb_field [simp]:
  "form_ok (p_form st) \<Longrightarrow> form_ok (p_form (set_field (K ''thumbnail'') (JStr s) st))"
  by (simp add: set_field_def)

lemma form_ok_reset [simp]: "form_ok (p_form (reset_form d st))"
  by (simp add: reset_form_def)

lemma normalizeThumbnail_str: "normalizeThumbnail t = Inr x \<Longrightarrow> \<exists>s. x = JStr s"
  by (auto simp: normalizeThumbnail_def split: if_splits jval.splits)

lemma pfield_key_ne [simp]:
  "pfield_key f \<noteq> K ''tags''" "pfield_key f \<noteq> K ''keywords''" "pfield_key f \<noteq> K ''thumbnail''"
  by (cases f; simp)+

lemma form_ok_set_faqs [simp]: "form_ok (p_form (set_faqs xs st)) = form_ok (p_form st)"
  by (simp add: set_faqs_def)

lemma onEdit_form_ok:
  "onEdit d v st = (st', es) \<Longrightarrow> form_ok (p_form st) \<Longrightarrow> form_ok (p_form st') \<and> sends es = []"
  by (auto simp: onEdit_def Let_def form_ok_def is_array_def dest: normalizeThumbnail_str split: sum.splits if_splits)

lemma pstep_form_ok:
  assumes "form_ok (p_form st)" "pstep d ev st = (st', es)"
  shows "form_ok (p_form st') \<and> list_all cont_ok (sends es)"
proof (cases ev)
  case (FormPev x)
  then show ?thesis using assms
    by (cases x) (auto simp: pstep_def step_form_posts_def onSubmit_def handleUploadThumbnail_def cont_ok_def
                    Let_def split: option.splits if_splits)
next
  case (FaqPev x)
  then show ?thesis using assms
    by (cases x) (auto simp: pstep_def step_faq_def addFaq_posts_def moveFaq_def removeFaq_def Let_def split: if_splits)
next
  case (ListPev x)
  then show ?thesis using assms
    by (cases x) (auto simp: pstep_def step_list_posts_def onDelete_def cont_ok_def dest: onEdit_form_ok
                    split: option.splits if_splits)
qed

lemma upload_reply_form_ok:
  "form_ok (p_form st) \<Longrightarrow> form_ok f \<Longrightarrow> form_ok (p_form (fst (upload_reply f a st))) \<and> sends (snd (upload_reply f a st)) = []"
  by (simp add: upload_reply_def uploadImageFile_answer_def Let_def split: panswer.splits bool.splits option.splits jval.splits sum.splits)

lemma upload_reply_form_ok':
  "upload_reply f a st = (st', es) \<Longrightarrow> form_ok (p_form st) \<Longrightarrow> form_ok f \<Longrightarrow> form_ok (p_form st') \<and> sends es = []"
  using upload_reply_form_ok[of st f a] by simp

lemma on_reply_form_ok:
  assumes "form_ok (p_form st)" "cont_ok (r, k)" "on_reply d k a st = (st', es)"
  shows "form_ok (p_form st') \<and> list_all cont_ok (sends es)"
  using assms
  by (auto simp: on_reply_def cont_ok_def Let_def dest: upload_reply_form_ok'

      split: pcont.splits panswer.splits bool.splits option.splits)

lemma preach_form_ok: "preach d st ps \<Longrightarrow> form_ok (p_form st) \<and> list_all cont_ok ps"
proof (induction rule: preach.induct)
  case mount
  then show ?case by (simp add: pinit_def cont_ok_def)
next
  case (ui st ps ev st' es)
  then show ?case using pstep_form_ok[OF _ ui.hyps(3)] by simp
next
  case (reply st ps r k a st' es)
  then have "cont_ok (r, k)" by (auto simp: list_all_iff)
  then show ?case using reply on_reply_form_ok[OF _ _ reply.hyps(3)] by (simp add: list_all_remove1)
qed


section \<open>Properties\<close>

text \<open>
  C18: Editing is delete-then-create. In edit mode with an original slug, submitting sends
  the DELETE of that slug first; whatever status the DELETE answers, the POST that follows
  carries the form of the render that was submitted, so edits typed while the DELETE is in
  flight are not sent.
\<close>
theorem edit_deletes_then_posts:
  assumes "p_editMode st" "truthy_opt (p_originalSlug st)" "encode_uri (js_String_opt (p_originalSlug st)) = Some u"
  shows "onSubmit st = (st\<lparr>p_saving := True\<rparr>, [PSend (ReqDeletePost u) (KDeleteOld (p_form st) True)])
       \<and> (\<forall>ok b s. on_reply d (KDeleteOld (p_form st) True) (Reply ok b) s
                     = (s, [PSend (ReqPostPost (JObj (p_form st))) (KPost True)]))"
  using assms by (simp add: onSubmit_def on_reply_def)

theorem edit_deletes_then_posts_witness:
  "onSubmit ((pinit sample_day)\<lparr>p_editMode := True, p_originalSlug := Some (JStr (U ''a''))\<rparr>)
     = ((pinit sample_day)\<lparr>p_editMode := True, p_originalSlug := Some (JStr (U ''a'')), p_saving := True\<rparr>,
        [PSend (ReqDeletePost (U ''a'')) (KDeleteOld (emptyPost sample_day) True)])"
proof -
  have e: "encode_uri (js_String_opt (Some (JStr (U ''a'')))) = Some (U ''a'')"
    by (simp add: js_String_opt_def U_def uri_unreserved_def)
  show ?thesis
    using edit_deletes_then_posts[of "(pinit sample_day)\<lparr>p_editMode := True, p_originalSlug := Some (JStr (U ''a''))\<rparr>"]
          e by (simp add: pinit_def truthy_opt_def U_def)
qed

text \<open>
  C19: The save button comes back. In every reachable session in which \<open>saving\<close> is set,
  a request of \<open>onSubmit\<close> is pending, and whatever the server answers to it, at most two
  answers clear \<open>saving\<close> (the DELETE of an edit, then the POST).
\<close>
theorem saving_released:
  assumes "preach d st ps" "p_saving st"
  shows "\<exists>r k. (r, k) \<in> set ps \<and>
           (\<forall>a. \<not> p_saving (fst (on_reply d k a st))
                \<or> (\<exists>r' k'. snd (on_reply d k a st) = [PSend r' k']
                            \<and> (\<forall>a'. \<not> p_saving (fst (on_reply d k' a' (fst (on_reply d k a st)))))))"
proof -
  obtain r k where rk: "(r, k) \<in> set ps" "submitting (r, k)"
    using preach_saving_pending[OF assms] by (auto simp: list_ex_iff)
  have "\<not> p_saving (fst (on_reply d k a st))
        \<or> (\<exists>r' k'. snd (on_reply d k a st) = [PSend r' k']
                  \<and> (\<forall>a'. \<not> p_saving (fst (on_reply d k' a' (fst (on_reply d k a st))))))" for a
    using rk(2)
    by (auto simp: submitting_def on_reply_def reset_form_def split: pcont.splits panswer.splits bool.splits)
  then show ?thesis using rk(1) by blast
qed

theorem saving_released_witness:
  "preach sample_day (fst (pstep sample_day (FormPev Submit) filled_state))
     [(ReqGetPosts, KLoad), (ReqPostPost (JObj (p_form filled_state)), KPost False)]
   \<and> p_saving (fst (pstep sample_day (FormPev Submit) filled_state))
   \<and> (\<exists>r k. (r, k) \<in> set [(ReqGetPosts, KLoad), (ReqPostPost (JObj (p_form filled_state)), KPost False)] \<and>
        (\<forall>a. \<not> p_saving (fst (on_reply sample_day k a (fst (pstep sample_day (FormPev Submit) filled_state))))
             \<or> (\<exists>r' k'. snd (on_reply sample_day k a (fst (pstep sample_day (FormPev Submit) filled_state))) = [PSend r' k']
                 \<and> (\<forall>a'. \<not> p_saving (fst (on_reply sample_day k' a'
                          (fst (on_reply sample_day k a (fst (pstep sample_day (FormPev Submit) filled_state))))))))))"
  using saving_released[OF preach_submitted submitted_saving] preach_submitted submitted_saving by blast

text \<open>
  C20: Two saves can be in flight at once. A save whose reload fails clears \<open>saving\<close> in
  its \<open>catch\<close> even when a later save is still pending, which re-enables the submit
  button: a reachable session has two pending POSTs of \<open>onSubmit\<close>.
\<close>
theorem double_submit_reachable:
  "\<exists>st ps. preach sample_day st ps \<and> 2 \<le> length (filter submitting ps)"
proof -
  define s3 where "s3 = fst (pstep sample_day (FormPev Submit) filled_state)"
  define r3 where "r3 = ReqPostPost (JObj (p_form filled_state))"
  have p3: "preach sample_day s3 [(ReqGetPosts, KLoad), (r3, KPost False)]"
    using preach_submitted unfolding s3_def r3_def .
  define s4 where "s4 = fst (on_reply sample_day (KPost False) (Reply True None) s3)"
  have p4: "preach sample_day s4 [(ReqGetPosts, KLoad), (ReqGetPosts, KReloadSaved False)]"
    using preach_reply_step[OF p3, of r3 "KPost False" "Reply True None"] unfolding s4_def
    by (simp add: on_reply_def)
  define s5 where "s5 = fst (pstep sample_day (FormPev (SetPField PSlug (U ''b''))) s4)"
  have p5: "preach sample_day s5 [(ReqGetPosts, KLoad), (ReqGetPosts, KReloadSaved False)]"
    using preach_ui_step[OF p4, of "FormPev (SetPField PSlug (U ''b''))"] unfolding s5_def
    by (simp add: trace_eval s4_def s3_def filled_state_def on_reply_def)
  define s6 where "s6 = fst (pstep sample_day (FormPev (SetPField PTitle (U ''u''))) s5)"
  have p6: "preach sample_day s6 [(ReqGetPosts, KLoad), (ReqGetPosts, KReloadSaved False)]"
    using preach_ui_step[OF p5, of "FormPev (SetPField PTitle (U ''u''))"] unfolding s6_def
    by (simp add: trace_eval s5_def s4_def s3_def filled_state_def on_reply_def)
  define s7 where "s7 = fst (pstep sample_day (FormPev Submit) s6)"
  define r7 where "r7 = ReqPostPost (JObj (p_form s6))"
  have p7: "preach sample_day s7 [(ReqGetPosts, KLoad), (ReqGetPosts, KReloadSaved False), (r7, KPost False)]"
    using preach_ui_step[OF p6, of "FormPev Submit"] unfolding s7_def r7_def
    by (simp add: trace_eval s6_def s5_def s4_def s3_def filled_state_def on_reply_def)
  define s8 where "s8 = fst (on_reply sample_day (KReloadSaved False) NetFail s7)"
  have p8: "preach sample_day s8 [(ReqGetPosts, KLoad), (r7, KPost False)]"
    using preach_reply_step[OF p7, of ReqGetPosts "KReloadSaved False" NetFail] unfolding s8_def
    by (simp add: on_reply_def)
  define s9 where "s9 = fst (pstep sample_day (FormPev Submit) s8)"
  define r9 where "r9 = ReqPostPost (JObj (p_form s8))"
  have p9: "preach sample_day s9 [(ReqGetPosts, KLoad), (r7, KPost False), (r9, KPost False)]"
    using preach_ui_step[OF p8, of "FormPev Submit"] unfolding s9_def r9_def
    by (simp add: trace_eval s8_def s7_def s6_def s5_def s4_def s3_def filled_state_def on_reply_def)
  then show ?thesis
    by (intro exI[of _ s9] exI[of _ "[(ReqGetPosts, KLoad), (r7, KPost False), (r9, KPost False)]"])
       (simp add: submitting_def)
qed

text \<open>
  C21: An upload overwrites the form. When the upload answers with a URL, the form becomes
  the one captured when the upload started, with the new thumbnail: whatever was typed
  into the form meanwhile is lost.
\<close>
theorem upload_reverts_form:
  assumes "u \<noteq> []"
  shows "fst (on_reply d (KUpload f) (Reply True (Some (JObj [(K ''url'', JStr u)]))) st)
         = st\<lparr>p_form := obj_set f (K ''thumbnail'') (JStr (strip_base u)), p_thumbFile := None,
               p_thumbTab := TabUrl, p_thumbUploading := False\<rparr>"
  using assms by (simp add: on_reply_def upload_reply_def uploadImageFile_answer_def opt_prop_def or_default_def truthy_opt_def)

theorem upload_reverts_form_witness:
  "map_of (p_form filled_state) (K ''title'') = Some (JStr (U ''t''))
   \<and> map_of (p_form (fst (on_reply sample_day (KUpload (emptyPost sample_day))
         (Reply True (Some (JObj [(K ''url'', JStr (U ''/x.jpg''))]))) filled_state))) (K ''title'') = Some (JStr [])"
proof -
  have "U ''/x.jpg'' \<noteq> []" by (simp add: U_def)
  from upload_reverts_form[OF this, of sample_day "emptyPost sample_day" filled_state]
  show ?thesis by (simp add: filled_state_def trace_eval map_of_obj_set K_def)
qed

text \<open>
  C22: The form never breaks the render. In every reachable session the form's tags and
  keywords are arrays (so \<open>join\<close> works) and its thumbnail preview resolves without a
  \<open>TypeError\<close>: the handlers only ever store strings there, \<open>onEdit\<close> and the upload included.
\<close>
theorem form_renders:
  assumes "preach d st ps"
  shows "is_array (map_of (p_form st) (K ''tags'')) \<and> is_array (map_of (p_form st) (K ''keywords''))
       \<and> \<not> isl (thumb_preview st)"
  using preach_form_ok[OF assms]
  by (auto simp: form_ok_def thumb_preview_def resolveThumbnailUrl_def truthy_opt_def split: option.splits jval.splits)

theorem form_renders_witness:
  "preach sample_day filled_state [(ReqGetPosts, KLoad)]
   \<and> is_array (map_of (p_form filled_state) (K ''tags'')) \<and> is_array (map_of (p_form filled_state) (K ''keywords''))
   \<and> \<not> isl (thumb_preview filled_state)"
  using form_renders[OF preach_filled] preach_filled by blast

text \<open>
  Thumbnails are stored relative and shown absolute. A non-empty path that is not a
  URL resolves to \<open>BASE_PUBLIC_URL\<close> followed by the path, and normalising that URL gives the
  path back.
\<close>
theorem thumbnail_roundtrip:
  assumes "p \<noteq> []" "\<not> starts_with p (U ''http://'')" "\<not> starts_with p (U ''https://'')"
  shows "resolveThumbnailUrl (Some (JStr p)) = Inr (BASE_PUBLIC_URL @ p)
       \<and> normalizeThumbnail (JStr (BASE_PUBLIC_URL @ p)) = Inr (JStr p)"
  using assms
  by (simp add: resolveThumbnailUrl_def normalizeThumbnail_def strip_base_def starts_with_def truthy_opt_def)

theorem thumbnail_roundtrip_witness:
  "resolveThumbnailUrl (Some (JStr (U ''/blog/thumb1.jpg''))) = Inr (U ''https://myad-dev.com/public/blog/thumb1.jpg'')
   \<and> normalizeThumbnail (JStr (U ''https://myad-dev.com/public/blog/thumb1.jpg'')) = Inr (JStr (U ''/blog/thumb1.jpg''))"
  using thumbnail_roundtrip[of "U ''/blog/thumb1.jpg''"]
  by (simp add: U_def starts_with_def BASE_PUBLIC_URL_def)

text \<open>
  The arrow buttons of the FAQ editor swap neighbours: moving row \<open>i\<close> down, or row
  \<open>i + 1\<close> up, exchanges the two entries and leaves the others in place.
\<close>
theorem moveFaq_swaps:
  assumes "Suc i < length (faq_list st)"
  shows "faq_list (fst (pstep d (FaqPev (MoveFaqDown i)) st)) = (faq_list st)[i := faq_list st ! Suc i, Suc i := faq_list st ! i]
       \<and> faq_list (fst (pstep d (FaqPev (MoveFaqUp (Suc i))) st)) = (faq_list st)[i := faq_list st ! Suc i, Suc i := faq_list st ! i]"
  using assms move_down_list[OF assms] move_up_list[OF assms]
  by (simp add: pstep_def step_faq_def moveFaq_def Let_def)

theorem moveFaq_swaps_witness:
  "faq_list (fst (pstep sample_day (FaqPev (MoveFaqDown 0))
      ((pinit sample_day)\<lparr>p_form := [(K ''faqs'', JArr [JStr (U ''x''), JStr (U ''y'')])]\<rparr>)))
     = [JStr (U ''y''), JStr (U ''x'')]"
proof -
  have "Suc 0 < length (faq_list ((pinit sample_day)\<lparr>p_form := [(K ''faqs'', JArr [JStr (U ''x''), JStr (U ''y'')])]\<rparr>))"
    by (simp add: faq_list_def safeArray_def)
  from moveFaq_swaps[OF this, of sample_day] show ?thesis
    by (simp add: faq_list_def safeArray_def)
qed

end
