(* ===== verification/VideoDetail.thy ===== *)
theory VideoDetail
  imports Sitemap PostsAdmin
begin

text \<open>
  The helpers and the related-videos list of
  \<open>src/src/app/videos/[slug]/VideoDetailClient.jsx\<close>: \<open>extractYoutubeId\<close> (with the URL
  parser of the platform as a parameter), \<open>resolveThumbUrl\<close>, \<open>isoDurationToSeconds\<close>, the
  scoring and ordering of \<open>RelatedList\<close> over the list \<open>/api/videos\<close> answered, and the
  values the page computes for its head and tag links.
\<close>

section \<open>extractYoutubeId\<close>

definition id_char :: "nat \<Rightarrow> bool" where
  \<comment> \<open>\<open>[a-zA-Z0-9_-]\<close>\<close>
  "id_char c \<longleftrightarrow> (65 \<le> c \<and> c \<le> 90) \<or> (97 \<le> c \<and> c \<le> 122) \<or> is_digit c \<or> c = 95 \<or> c = 45"

definition is_yt_id :: "ustr \<Rightarrow> bool" where
  \<comment> \<open>\<open>/^[a-zA-Z0-9_-]{11}$/.test(s)\<close>\<close>
  "is_yt_id s \<longleftrightarrow> length s = 11 \<and> list_all id_char s"

record url_parts =
  hostname :: ustr
  param_v :: "ustr option"  \<comment> \<open>\<open>u.searchParams.get("v")\<close>\<close>
  pathname :: ustr

fun js_includes :: "ustr \<Rightarrow> ustr \<Rightarrow> bool" where
  \<comment> \<open>\<open>s.includes(t)\<close>, written \<open>js_includes t s\<close>\<close>
  "js_includes t [] = (t = [])"
| "js_includes t (c # cs) = (take (length t) (c # cs) = t \<or> js_includes t cs)"

definition replace_first :: "nat \<Rightarrow> ustr \<Rightarrow> ustr" where
  \<comment> \<open>\<open>s.replace(c, "")\<close> with a one-unit string: the first occurrence goes\<close>
  "replace_first c s = takeWhile (\<lambda>x. x \<noteq> c) s @ drop 1 (dropWhile (\<lambda>x. x \<noteq> c) s)"

definition youtube_host_id :: "url_parts \<Rightarrow> ustr option" where
  \<comment> \<open>the \<open>youtube.com\<close> branch: the \<open>v\<close> parameter, else the last path segment\<close>
  "youtube_host_id u =
     (case param_v u of
        Some i \<Rightarrow> if i \<noteq> [] \<and> is_yt_id i then Some i else None
      | None \<Rightarrow> None)"

definition extractYoutubeId :: "(ustr \<Rightarrow> url_parts option) \<Rightarrow> jval \<Rightarrow> ustr" where
  \<comment> \<open>\<open>parse s\<close> is \<open>new URL(s)\<close>, \<open>None\<close> when it throws\<close>
  "extractYoutubeId parse input =
     (let s = js_trim (js_String input) in
      if s = [] then []
      else if is_yt_id s then s
      else case parse s of
        None \<Rightarrow> []
      | Some u \<Rightarrow>
          (let from_yt =
             (if js_includes (U ''youtube.com'') (hostname u) then
                (case youtube_host_id u of
                   Some i \<Rightarrow> Some i
                 | None \<Rightarrow> let last = List.last (js_split 47 (pathname u)) in
                           if is_yt_id last then Some last else None)
              else None)
           in case from_yt of
                Some i \<Rightarrow> i
              | None \<Rightarrow>
                  if hostname u = U ''youtu.be'' then
                    (let last = replace_first 47 (pathname u) in if is_yt_id last then last else [])
                  else []))"

section \<open>resolveThumbUrl\<close>

definition resolveThumbUrl :: "jval option \<Rightarrow> ustr \<Rightarrow> ustr" where
  "resolveThumbUrl thumb baseUrl =
     (let t = js_trim (js_String (or_default thumb (JStr []))) in
      if t = [] then []
      else if starts_with t (U ''http://'') \<or> starts_with t (U ''https://'') then t
      else if starts_with t (U ''//'') then U ''https:'' @ t
      else if baseUrl = [] then t
      else if starts_with t (U ''/'') then baseUrl @ t
      else baseUrl @ [47] @ t)"

section \<open>isoDurationToSeconds\<close>

definition digits_then :: "nat \<Rightarrow> ustr \<Rightarrow> ustr option \<times> ustr" where
  \<comment> \<open>the optional group \<open>(?:(\d+)X)?\<close>: the greedy digits and the letter, or nothing\<close>
  "digits_then x s =
     (let ds = takeWhile is_digit s; r = dropWhile is_digit s in
      if ds \<noteq> [] \<and> r \<noteq> [] \<and> hd r = x then (Some ds, tl r) else (None, s))"

definition dur_match :: "ustr \<Rightarrow> (ustr option \<times> ustr option \<times> ustr option) option" where
  \<comment> \<open>\<open>s.match(/^PT(?:(\d+)H)?(?:(\d+)M)?(?:(\d+)S)?$/)\<close>, the three groups\<close>
  "dur_match s =
     (if take 2 s \<noteq> U ''PT'' then None
      else let (h, r1) = digits_then 72 (drop 2 s); (m, r2) = digits_then 77 r1; (sec, r3) = digits_then 83 r2
           in if r3 = [] then Some (h, m, sec) else None)"

definition group_num :: "ustr option \<Rightarrow> jnum" where
  \<comment> \<open>\<open>Number(m[i] || 0)\<close>\<close>
  "group_num g = (case g of None \<Rightarrow> JFin 0 | Some ds \<Rightarrow> js_number_of_string ds)"

definition isoDurationToSeconds :: "jval option \<Rightarrow> jnum" where
  "isoDurationToSeconds d =
     (let s = js_trim (js_String (or_default d (JStr []))) in
      if s = [] then JFin 0
      else case dur_match s of
        None \<Rightarrow> JFin 0
      | Some (h, m, sec) \<Rightarrow>
          jadd (jadd (jmul (group_num h) (JFin 3600)) (jmul (group_num m) (JFin 60))) (group_num sec))"

section \<open>RelatedList\<close>

definition tag_set :: "jval \<Rightarrow> ustr list js" where
  \<comment> \<open>\<open>new Set((tags || []).map((t) => String(t).toLowerCase()))\<close>: a truthy
      \<open>tags\<close> that is not an array has no \<open>map\<close> and throws\<close>
  "tag_set tags =
     (if \<not> truthy tags then Inr []
      else case tags of JArr xs \<Rightarrow> Inr (map (\<lambda>t. js_lower (js_String t)) xs) | _ \<Rightarrow> Inl TypeError)"

definition related_keep :: "jval \<Rightarrow> jval \<Rightarrow> bool" where
  \<comment> \<open>\<open>x && x.slug && x.slug !== currentSlug\<close>\<close>
  "related_keep cur x \<longleftrightarrow> truthy x \<and> truthy_opt (opt_prop x SLUG) \<and> opt_prop x SLUG \<noteq> Some cur"

definition overlap :: "ustr list \<Rightarrow> jval \<Rightarrow> nat" where
  \<comment> \<open>the tags of \<open>x\<close> whose lower-case form is in the set, counted with repetition\<close>
  "overlap S x = length (filter (\<lambda>t. js_lower (js_String t) \<in> set S) (safeArray (opt_prop x TAGS)))"

definition dateScore :: "jval \<Rightarrow> jnum" where
  \<comment> \<open>\<open>Number(String(x.date || "").replaceAll("-", "")) || 0\<close>\<close>
  "dateScore x =
     (let n = js_number_of_string (filter (\<lambda>c. c \<noteq> 45) (js_String (or_default (opt_prop x DATE) (JStr []))))
      in if truthy (JNum n) then n else JFin 0)"

type_synonym scored = "jval \<times> nat \<times> jnum"

definition related_cmp :: "scored \<Rightarrow> scored \<Rightarrow> jnum" where
  \<comment> \<open>\<open>b.score - a.score || b.dateScore - a.dateScore\<close>\<close>
  "related_cmp a b =
     (let d = JFin (of_nat (fst (snd b)) - of_nat (fst (snd a))) in
      if truthy (JNum d) then d else jsub (snd (snd b)) (snd (snd a)))"

definition related_list :: "jval \<Rightarrow> jval \<Rightarrow> jval list \<Rightarrow> jval list js" where
  \<comment> \<open>the memoised \<open>list\<close> of \<open>RelatedList\<close> for \<open>currentSlug\<close>, \<open>tags\<close> and the items\<close>
  "related_list cur tags items =
     js_bind (tag_set tags) (\<lambda>S.
       Inr (map fst (take 6 (sort_cmp (\<lambda>a b. cmp_lt (related_cmp a b))
             (map (\<lambda>x. (x, overlap S x, dateScore x)) (filter (related_keep cur) items))))))"

section \<open>The page\<close>

definition baseUrl_of :: "ustr option \<Rightarrow> ustr \<Rightarrow> ustr" where
  \<comment> \<open>\<open>process.env.NEXT_PUBLIC_SITE_URL || getBaseUrl() || ""\<close>, the origin of the window\<close>
  "baseUrl_of env origin = (case env of Some e \<Rightarrow> if e \<noteq> [] then e else origin | None \<Rightarrow> origin)"

definition pageUrl :: "ustr \<Rightarrow> jval \<Rightarrow> ustr" where
  "pageUrl base v = (if base = [] then [] else base @ U ''/videos/'' @ js_String_opt (opt_prop v SLUG))"

definition relatedKeywords :: "jval \<Rightarrow> jval list" where
  "relatedKeywords v = take 6 (safeArray (opt_prop v (K ''keywords'')))"

definition join_values :: "ustr \<Rightarrow> jval list \<Rightarrow> ustr" where
  \<comment> \<open>\<open>xs.join(sep)\<close>: \<open>null\<close> prints as the empty string\<close>
  "join_values sep xs = js_join sep (map (\<lambda>x. if x = JNull then [] else js_String x) xs)"

definition keywords_meta :: "jval \<Rightarrow> ustr option" where
  "keywords_meta v = (if relatedKeywords v = [] then None else Some (join_values (U '', '') (relatedKeywords v)))"

definition duration_meta :: "jval \<Rightarrow> ustr option" where
  \<comment> \<open>\<open>String(isoDurationToSeconds(v.duration) || "")\<close> when \<open>v.duration\<close> is set\<close>
  "duration_meta v =
     (if truthy_opt (opt_prop v (K ''duration'')) then
        Some (let n = isoDurationToSeconds (opt_prop v (K ''duration'')) in
              if truthy (JNum n) then jnum_to_string n else [])
      else None)"

datatype player = Embed ustr | Poster ustr

definition player_of :: "(ustr \<Rightarrow> url_parts option) \<Rightarrow> ustr \<Rightarrow> jval \<Rightarrow> player" where
  \<comment> \<open>the iframe of the extracted id, else the thumbnail image\<close>
  "player_of parse base v =
     (let yt = extractYoutubeId parse (or_default (opt_prop v (K ''youtube'')) (JStr []));
          th = resolveThumbUrl (opt_prop v (K ''thumbnail'')) base in
      if yt \<noteq> [] then Embed (U ''https://www.youtube.com/embed/'' @ yt)
      else Poster (if th \<noteq> [] then th else U ''/default-thumb.jpg''))"

definition faq_items :: "jval \<Rightarrow> jval list" where
  \<comment> \<open>\<open>v.faqs.filter((x) => x?.q && x?.a).slice(0, 12)\<close>\<close>
  "faq_items v =
     take 12 (filter (\<lambda>x. truthy_opt (opt_prop x (K ''q'')) \<and> truthy_opt (opt_prop x (K ''a'')))
                     (safeArray (opt_prop v (K ''faqs''))))"

definition tag_href :: "jval \<Rightarrow> ustr js" where
  \<comment> \<open>\<open>`/videos?tag=${encodeURIComponent(t)}`\<close>\<close>
  "tag_href t = (case encode_uri (js_String t) of None \<Rightarrow> Inl uri_error | Some e \<Rightarrow> Inr (U ''/videos?tag='' @ e))"

definition tag_links :: "jval \<Rightarrow> ustr list js" where
  \<comment> \<open>the tag badges, then the keyword badges\<close>
  "tag_links v =
     js_bind (js_map tag_href (safeArray (opt_prop v TAGS))) (\<lambda>a.
     js_bind (js_map tag_href (relatedKeywords v)) (\<lambda>b. Inr (a @ b)))"

definition page_related :: "jval \<Rightarrow> jval list \<Rightarrow> jval list js" where
  \<comment> \<open>\<open><RelatedList currentSlug={v?.slug || ""} tags={v?.tags || []} />\<close>\<close>
  "page_related v items =
     related_list (or_default (opt_prop v SLUG) (JStr [])) (or_default (opt_prop v TAGS) (JArr [])) items"

section \<open>Lemmas\<close>

lemma related_cmp_keys:
  "(cmp_lt (related_cmp a b) \<longrightarrow> - int (fst (snd a)) \<le> - int (fst (snd b))) \<and>
   (\<not> cmp_lt (related_cmp a b) \<longrightarrow> - int (fst (snd b)) \<le> - int (fst (snd a)))"
  by (auto simp: related_cmp_def cmp_lt_def Let_def)

lemma tag_set_arr: "tag_set (JArr ts) = Inr (map (\<lambda>t. js_lower (js_String t)) ts)"
  by (simp add: tag_set_def)

lemma digits_then_radix:
  assumes "\<not> is_digit x"
  shows "digits_then x (to_radix 10 n @ x # r) = (Some (to_radix 10 n), r)"
proof -
  have d: "list_all is_digit (to_radix 10 n)" "to_radix 10 n \<noteq> []" using to_radix_10_digits by auto
  then have "takeWhile is_digit (to_radix 10 n @ x # r) = to_radix 10 n"
    "dropWhile is_digit (to_radix 10 n @ x # r) = x # r"
    using assms by (simp_all add: list_all_iff takeWhile_append2 dropWhile_append2)
  then show ?thesis using d(2) by (simp add: digits_then_def)
qed

lemma group_num_radix: "group_num (Some (to_radix 10 n)) = JFin (of_nat n)"
  using to_radix_10_digits[of n] by (simp add: group_num_def js_number_of_digits digits_value_to_radix)

lemma related_list_string_tags: "s \<noteq> [] \<Longrightarrow> related_list cur (JStr s) items = Inl TypeError"
  by (simp add: related_list_def tag_set_def)

section \<open>Properties of the video page\<close>

text \<open>
  C35: \<open>extractYoutubeId\<close> returns the empty string or an eleven-character id of letters,
  digits, \<open>_\<close> and \<open>-\<close>, whatever the input and whatever the URL parser answers.
\<close>

theorem extractYoutubeId_shape:
  "extractYoutubeId parse x = [] \<or> is_yt_id (extractYoutubeId parse x)"
  by (auto simp: extractYoutubeId_def Let_def youtube_host_id_def split: option.split)

text \<open>
  \<open>isoDurationToSeconds\<close> reads back the seconds of every duration
  \<open>PT<h>H<m>M<s>S\<close> written with decimal numbers.
\<close>

theorem isoDuration_roundtrip:
  "isoDurationToSeconds (Some (JStr (U ''PT'' @ to_radix 10 h @ U ''H'' @ to_radix 10 m @ U ''M'' @ to_radix 10 s @ U ''S''))) =
   JFin (of_nat (h * 3600 + m * 60 + s))"
proof -
  let ?w = "U ''PT'' @ to_radix 10 h @ U ''H'' @ to_radix 10 m @ U ''M'' @ to_radix 10 s @ U ''S''"
  have nd: "\<not> is_digit 72" "\<not> is_digit 77" "\<not> is_digit 83" by (simp_all add: is_digit_def)
  have "\<forall>c \<in> set ?w. \<not> is_js_ws c"
    using to_radix_10_digits[of h] to_radix_10_digits[of m] to_radix_10_digits[of s]
    by (auto simp: list_all_iff is_js_ws_ascii dest: digit_not_ws)
  then have tr: "js_trim ?w = ?w" by (rule js_trim_id)
  have "dur_match ?w = Some (Some (to_radix 10 h), Some (to_radix 10 m), Some (to_radix 10 s))"
    using digits_then_radix[OF nd(1), of h] digits_then_radix[OF nd(2), of m] digits_then_radix[OF nd(3), of s "[]"]
    by (simp add: dur_match_def)
  then show ?thesis
    using tr by (simp add: isoDurationToSeconds_def group_num_radix or_default_def truthy_opt_def)
qed

text \<open>
  C34: The related list of a video holds at most six videos, each of them an item of the
  list that is not the current video and has a slug, in descending order of tag overlap.
\<close>

theorem related_list_top:
  "\<exists>ys. related_list cur (JArr ts) items = Inr ys \<and> length ys \<le> 6 \<and>
        (\<forall>y \<in> set ys. y \<in> set items \<and> related_keep cur y) \<and>
        sorted (map (\<lambda>y. - int (overlap (map (\<lambda>t. js_lower (js_String t)) ts) y)) ys)"
proof -
  let ?S = "map (\<lambda>t. js_lower (js_String t)) ts"
  let ?k = "\<lambda>a :: scored. - int (fst (snd a))"
  let ?xs = "sort_cmp (\<lambda>a b. cmp_lt (related_cmp a b))
               (map (\<lambda>x. (x, overlap ?S x, dateScore x)) (filter (related_keep cur) items))"
  have srt: "sorted (map ?k ?xs)"
    using related_cmp_keys by (intro sorted_sort_cmp) blast+
  have st: "set ?xs = (\<lambda>x. (x, overlap ?S x, dateScore x)) ` {x \<in> set items. related_keep cur x}"
    by (simp flip: set_mset_mset)
  have srt6: "sorted (map ?k (take 6 ?xs))" using srt by (simp add: take_map[symmetric])
  have mem: "fst a \<in> set items \<and> related_keep cur (fst a) \<and> fst (snd a) = overlap ?S (fst a)"
    if "a \<in> set (take 6 ?xs)" for a
  proof -
    have "a \<in> set ?xs" using that by (rule in_set_takeD)
    then show ?thesis unfolding st by auto
  qed
  have eq: "map ?k (take 6 ?xs) = map (\<lambda>y. - int (overlap ?S y)) (map fst (take 6 ?xs))"
    unfolding map_map by (rule map_cong) (simp_all add: mem)
  have "sorted (map (\<lambda>y. - int (overlap ?S y)) (map fst (take 6 ?xs)))" using srt6 unfolding eq .
  moreover have "\<forall>y \<in> set (map fst (take 6 ?xs)). y \<in> set items \<and> related_keep cur y"
    using mem by auto
  moreover have "length (map fst (take 6 ?xs)) \<le> 6" by simp
  moreover have "related_list cur (JArr ts) items = Inr (map fst (take 6 ?xs))"
    by (simp add: related_list_def tag_set_arr)
  ultimately show ?thesis by blast
qed


lemma related_list_top_witness:
  "\<exists>ys. related_list (JStr (U ''a'')) (JArr [JStr (U ''seo'')]) [JObj [(SLUG, JStr (U ''b''))]] = Inr ys \<and> length ys \<le> 6"
  using related_list_top[of "JStr (U ''a'')" "[JStr (U ''seo'')]" "[JObj [(SLUG, JStr (U ''b''))]]"] by blast

end
