(* ===== verification/IndexPages.thy ===== *)
theory IndexPages
  imports VideoDetail Auth
begin

text \<open>
  The list pages over the stores: the blog index (\<open>src/src/app/blog/BlogIndexClient.jsx\<close>),
  the videos index (\<open>src/src/app/videos/VideosIndexClient.jsx\<close>), the ranking of videos
  (\<open>src/src/app/components/VideoRanking.jsx\<close>), the reviews list
  (\<open>src/src/app/reviews/ReviewsClient.jsx\<close>) and the blog tag page
  (\<open>src/src/app/blog/tag/[tag]/page.jsx\<close>), which reads the posts store. Each page is the
  list it renders, computed from the list its request answered; a throw is the render failing.
\<close>

section \<open>Blog index\<close>

definition SITE_ORIGIN :: "ustr option \<Rightarrow> ustr option \<Rightarrow> ustr" where
  \<comment> \<open>\<open>process.env.NEXT_PUBLIC_SITE_URL || process.env.SITE_ORIGIN || ""\<close>\<close>
  "SITE_ORIGIN e1 e2 =
     (case e1 of Some s \<Rightarrow> if s \<noteq> [] then s else RAW_SITE e2 | None \<Rightarrow> RAW_SITE e2)"

definition BASE_PUBLIC_URL_index :: "ustr \<Rightarrow> ustr" where
  \<comment> \<open>\<open>SITE_ORIGIN ? SITE_ORIGIN.replace(/\/+$/, "") : ""\<close>\<close>
  "BASE_PUBLIC_URL_index origin = (if origin \<noteq> [] then SITE_BASE origin else [])"

definition is_http_url :: "ustr \<Rightarrow> bool" where
  \<comment> \<open>\<open>/^https?:\/\//i\<close>\<close>
  "is_http_url s \<longleftrightarrow> starts_with (map ascii_lower s) (U ''http://'') \<or> starts_with (map ascii_lower s) (U ''https://'')"

definition resolveThumbnailUrl_index :: "ustr \<Rightarrow> jval option \<Rightarrow> ustr" where
  "resolveThumbnailUrl_index base thumbnail =
     (if \<not> truthy_opt thumbnail then U ''/default-thumb.jpg''
      else let s = js_trim (js_String (the thumbnail)) in
           if is_http_url s then s
           else if base \<noteq> [] then (if starts_with s (U ''/'') then base @ s else base @ 47 # dropWhile is_slash s)
           else if s \<noteq> [] then s else U ''/default-thumb.jpg'')"

definition has_tag_ci :: "ustr \<Rightarrow> jval \<Rightarrow> bool js" where
  \<comment> \<open>\<open>Array.isArray(p.tags) && p.tags.some((t) => String(t).toLowerCase() === q)\<close>\<close>
  "has_tag_ci q p =
     js_bind (get_prop p TAGS) (\<lambda>v. Inr (case v of Some (JArr ts) \<Rightarrow> list_ex (\<lambda>t. js_lower (js_String t) = q) ts | _ \<Rightarrow> False))"

definition tag_filtered :: "ustr \<Rightarrow> jval list \<Rightarrow> jval list js" where
  \<comment> \<open>the memoised \<open>filtered\<close> of the blog index for the \<open>?tag=\<close> parameter\<close>
  "tag_filtered tg posts = (if tg = [] then Inr posts else js_filter (has_tag_ci (js_lower tg)) posts)"

definition blog_card :: "ustr \<Rightarrow> jval \<Rightarrow> ustr \<times> ustr" where
  \<comment> \<open>the image source and the link of a post's card\<close>
  "blog_card base p =
     (resolveThumbnailUrl_index base (opt_prop p (U ''thumbnail'')), U ''/blog/'' @ js_String_opt (opt_prop p SLUG))"

section \<open>Videos index\<close>

definition hasThumb :: "jval \<Rightarrow> bool" where
  "hasThumb v \<longleftrightarrow> js_trim (js_String (or_default (opt_prop v (U ''thumbnail'')) (JStr []))) \<noteq> []"

definition videos_filtered :: "ustr \<Rightarrow> jval list \<Rightarrow> jval list js" where
  \<comment> \<open>the same filter as the blog index, on \<open>v.tags\<close>\<close>
  "videos_filtered tg videos = (if tg = [] then Inr videos else js_filter (has_tag_ci (js_lower tg)) videos)"

definition video_card :: "jval \<Rightarrow> ustr option \<times> ustr" where
  \<comment> \<open>the thumbnail (\<open>None\<close>: the placeholder) and the link of a video's card\<close>
  "video_card v =
     (if hasThumb v then Some (js_trim (js_String (the (opt_prop v (U ''thumbnail''))))) else None,
      U ''/videos/'' @ js_String_opt (opt_prop v SLUG))"

section \<open>Video ranking\<close>

definition js_strict_eq :: "jval \<Rightarrow> jval \<Rightarrow> bool" where
  \<comment> \<open>\<open>a === b\<close> on JSON values: NaN differs from itself; objects compare by value here\<close>
  "js_strict_eq a b = (case (a, b) of (JNum x, JNum y) \<Rightarrow> \<not> js_neq x y | _ \<Rightarrow> a = b)"

definition views_nn :: "jval \<Rightarrow> jval" where
  \<comment> \<open>\<open>a.views ?? 0\<close>\<close>
  "views_nn a = (case opt_prop a VIEWS of None \<Rightarrow> JNum (JFin 0) | Some JNull \<Rightarrow> JNum (JFin 0) | Some v \<Rightarrow> v)"

definition ranking_cmp :: "(jval option \<Rightarrow> jnum) \<Rightarrow> jval \<Rightarrow> jval \<Rightarrow> jnum" where
  \<comment> \<open>\<open>ms v\<close> is \<open>+new Date(v)\<close>\<close>
  "ranking_cmp ms a b =
     (if \<not> js_strict_eq (views_nn a) (views_nn b)
      then jsub (js_ToNumber (views_nn b)) (js_ToNumber (views_nn a))
      else jsub (ms (opt_prop b CREATED)) (ms (opt_prop a CREATED)))"

definition VideoRanking :: "(jval option \<Rightarrow> jnum) \<Rightarrow> nat \<Rightarrow> jval \<Rightarrow> jval list" where
  \<comment> \<open>the videos shown for the answer \<open>data\<close>; reading a field of \<open>null\<close> (the answer, or an
      item the sort compares) is caught and shows none\<close>
  "VideoRanking ms maxItems data =
     (case get_prop data (U ''items'') of
        Inl _ \<Rightarrow> []
      | Inr v \<Rightarrow>
          (let items = safeArray v in
           if 2 \<le> length items \<and> JNull \<in> set items then []
           else take maxItems (sort_cmp (\<lambda>a b. cmp_lt (ranking_cmp ms a b)) items)))"

section \<open>Reviews\<close>

definition formatShortThai :: "jval option \<Rightarrow> ustr js" where
  \<comment> \<open>\<open>d/m/yy\<close> of a \<open>YYYY-MM-DD\<close> string; \<open>split\<close> of a non-string throws\<close>
  "formatShortThai v =
     (if \<not> truthy_opt v then Inr []
      else case the v of
        JStr s \<Rightarrow>
          (let ps = js_split 45 s in
           if length ps < 3 \<or> ps ! 0 = [] \<or> ps ! 1 = [] \<or> ps ! 2 = [] then Inr s
           else Inr (ps ! 2 @ [47] @ ps ! 1 @ [47] @ drop (length (ps ! 0) - 2) (ps ! 0)))
      | _ \<Rightarrow> Inl TypeError)"

definition resolveImg :: "jval option \<Rightarrow> ustr \<Rightarrow> ustr" where
  "resolveImg src origin =
     (if \<not> truthy_opt src then []
      else let s = js_trim (js_String (the src)) in
           if is_http_url s then s
           else if starts_with s (U ''/'') then origin @ s
           else origin @ 47 # dropWhile is_slash s)"

definition category_is :: "ustr \<Rightarrow> jval \<Rightarrow> bool js" where
  \<comment> \<open>\<open>String(x.category || "").toLowerCase() === c\<close>\<close>
  "category_is c x =
     js_bind (get_prop x (U ''category'')) (\<lambda>v. Inr (js_lower (js_String (or_default v (JStr []))) = c))"

definition review_groups :: "jval list \<Rightarrow> (jval list \<times> jval list) js" where
  \<comment> \<open>the Google and the Facebook reviews\<close>
  "review_groups items =
     js_bind (js_filter (category_is (U ''google'')) items) (\<lambda>g.
     js_bind (js_filter (category_is (U ''facebook'')) items) (\<lambda>f. Inr (g, f)))"

section \<open>Blog tag page\<close>

definition getAll_tag :: "(ustr \<Rightarrow> ustr \<Rightarrow> int) \<Rightarrow> doc \<Rightarrow> jval list js \<times> doc" where
  \<comment> \<open>\<open>getAllPosts()\<close> sorted again by \<open>String(b.date || "").localeCompare(String(a.date || ""))\<close>\<close>
  "getAll_tag lc d =
     (case getAllPosts d of
        (r, d1) \<Rightarrow> (js_bind r (\<lambda>xs. Inr (sort_cmp (\<lambda>a b. cmp_lt (JFin (of_int (lc (date_str b) (date_str a))))) xs)), d1))"

definition tag_page_match :: "ustr \<Rightarrow> jval \<Rightarrow> bool js" where
  \<comment> \<open>\<open>(a.tags || []).some((t) => String(t).trim().toLowerCase() === tag.trim().toLowerCase())\<close>;
      a truthy \<open>tags\<close> that is not an array has no \<open>some\<close>\<close>
  "tag_page_match tg a =
     js_bind (get_prop a TAGS) (\<lambda>v.
       case or_default v (JArr []) of
         JArr ts \<Rightarrow> Inr (list_ex (\<lambda>t. js_lower (js_trim (js_String t)) = js_lower (js_trim tg)) ts)
       | _ \<Rightarrow> Inl TypeError)"

definition TagPage :: "(ustr \<Rightarrow> ustr \<Rightarrow> int) \<Rightarrow> ustr \<Rightarrow> doc \<Rightarrow> jval list js \<times> doc" where
  \<comment> \<open>the posts listed for the route parameter \<open>rawTag\<close>, which arrives decoded\<close>
  "TagPage lc rawTag d =
     (case decode_uri rawTag of
        None \<Rightarrow> (Inl uri_error, d)
      | Some tg \<Rightarrow> (case getAll_tag lc d of (r, d1) \<Rightarrow> (js_bind r (js_filter (tag_page_match tg)), d1)))"


section \<open>Model predicates\<close>

definition tags_listable :: "jval \<Rightarrow> bool" where
  \<comment> \<open>\<open>a.tags || []\<close> is an array\<close>
  "tags_listable q \<longleftrightarrow> (case or_default (opt_prop q TAGS) (JArr []) of JArr _ \<Rightarrow> True | _ \<Rightarrow> False)"

definition views_val :: "jval \<Rightarrow> rat" where
  "views_val y = (case views_nn y of JNum (JFin v) \<Rightarrow> v | _ \<Rightarrow> 0)"

section \<open>Lemmas\<close>

lemma sorted_insort_cmp_on:
  assumes "\<forall>b \<in> set ys. (lt x b \<longrightarrow> k x \<le> k b) \<and> (\<not> lt x b \<longrightarrow> k b \<le> k x)"
    and "sorted (map k ys)"
  shows "sorted (map k (insort_cmp lt x ys))"
  using assms
proof (induction ys)
  case (Cons y ys)
  then show ?case by (cases "lt x y") (auto intro: order_trans)
qed simp

lemma sorted_sort_cmp_on:
  assumes "\<forall>a \<in> set xs. \<forall>b \<in> set xs. (lt a b \<longrightarrow> k a \<le> k b) \<and> (\<not> lt a b \<longrightarrow> k b \<le> k a)"
  shows "sorted (map k (sort_cmp lt xs))"
proof -
  have "set acc \<subseteq> set xs \<Longrightarrow> set ys \<subseteq> set xs \<Longrightarrow> sorted (map k acc) \<Longrightarrow>
        sorted (map k (foldl (\<lambda>acc x. insort_cmp lt x acc) acc ys))" for acc ys
  proof (induction ys arbitrary: acc)
    case (Cons y ys)
    have "sorted (map k (insort_cmp lt y acc))"
      using Cons.prems assms by (intro sorted_insort_cmp_on) auto
    then show ?case using Cons by simp
  qed simp
  then show ?thesis by (simp add: sort_cmp_def)
qed

lemma ranking_cmp_keys:
  assumes "views_nn a = JNum (JFin va)" and "views_nn b = JNum (JFin vb)"
  shows "(cmp_lt (ranking_cmp ms a b) \<longrightarrow> - views_val a \<le> - views_val b) \<and>
         (\<not> cmp_lt (ranking_cmp ms a b) \<longrightarrow> - views_val b \<le> - views_val a)"
  using assms by (auto simp: ranking_cmp_def views_val_def js_strict_eq_def js_neq_def jsub_def cmp_lt_def)

lemma tag_page_match_pure:
  "q \<noteq> JNull \<Longrightarrow> tags_listable q \<Longrightarrow>
   tag_page_match tg q = Inr (list_ex (\<lambda>t. js_lower (js_trim (js_String t)) = js_lower (js_trim tg)) (safeArray (opt_prop q TAGS)))"
  by (auto simp: tag_page_match_def tags_listable_def get_prop_nonnull safeArray_def or_default_def truthy_opt_def
           split: jval.splits option.splits if_splits)


lemma TagPage_bad_escape: "decode_uri rawTag = None \<Longrightarrow> TagPage lc rawTag d = (Inl uri_error, d)"
  by (simp add: TagPage_def)

section \<open>Properties of the list pages\<close>

text \<open>
  C33: The tag page composed with the posts store: when the store's posts are objects whose
  \<open>tags\<close> are arrays, every post carrying a tag \<open>t\<close> is listed on the page of the trimmed
  tag, the page the sitemap links for it, as long as decoding that text again leaves it unchanged.
\<close>

theorem TagPage_lists_tagged:
  assumes "getAllPosts d = (Inr ps, d1)" and "\<forall>q \<in> set ps. q \<noteq> JNull \<and> tags_listable q"
    and "p \<in> set ps" and "t \<in> set (safeArray (opt_prop p TAGS))"
    and "decode_uri (js_trim (js_String t)) = Some (js_trim (js_String t))"
  shows "\<exists>items. TagPage lc (js_trim (js_String t)) d = (Inr items, d1) \<and> p \<in> set items"
proof -
  let ?T = "js_trim (js_String t)"
  let ?xs = "sort_cmp (\<lambda>a b. cmp_lt (JFin (of_int (lc (date_str b) (date_str a))))) ps"
  have all: "getAll_tag lc d = (Inr ?xs, d1)" using assms(1) by (simp add: getAll_tag_def)
  have sx: "set ?xs = set ps" by (simp flip: set_mset_mset)
  let ?m = "\<lambda>q. list_ex (\<lambda>t'. js_lower (js_trim (js_String t')) = js_lower (js_trim ?T)) (safeArray (opt_prop q TAGS))"
  have "js_filter (tag_page_match ?T) ?xs = Inr (filter ?m ?xs)"
    using assms(2) sx by (intro js_filter_pure) (simp add: tag_page_match_pure)
  moreover have "p \<in> set (filter ?m ?xs)"
    using assms(3,4) sx by (auto simp: list_ex_iff)
  ultimately show ?thesis using all assms(5) by (simp add: TagPage_def)
qed

text \<open>
  \<open>VideoRanking\<close> shows at most \<open>maxItems\<close> videos, by descending view count when every
  view count is a number.
\<close>

theorem VideoRanking_top:
  assumes "\<forall>x \<in> set xs. \<exists>v. views_nn x = JNum (JFin v)"
  shows "length (VideoRanking ms n (JObj [(U ''items'', JArr xs)])) \<le> n \<and>
         sorted (map (\<lambda>y. - views_val y) (VideoRanking ms n (JObj [(U ''items'', JArr xs)])))"
proof -
  have "sorted (map (\<lambda>y. - views_val y) (sort_cmp (\<lambda>a b. cmp_lt (ranking_cmp ms a b)) xs))"
    using assms ranking_cmp_keys by (intro sorted_sort_cmp_on) blast
  then have "sorted (map (\<lambda>y. - views_val y) (take n (sort_cmp (\<lambda>a b. cmp_lt (ranking_cmp ms a b)) xs)))"
    by (simp add: take_map[symmetric] sorted_wrt_take)
  then show ?thesis by (simp add: VideoRanking_def safeArray_def Let_def)
qed

lemma TagPage_lists_tagged_witness:
  "\<exists>items. TagPage (\<lambda>_ _. 0) (js_trim (js_String (JStr (U ''seo'')))) (writeAll [JObj [(TAGS, JArr [JStr (U ''seo'')])]]) =
      (Inr items, writeAll [JObj [(TAGS, JArr [JStr (U ''seo'')])]]) \<and> JObj [(TAGS, JArr [JStr (U ''seo'')])] \<in> set items"
proof -
  let ?p = "JObj [(TAGS, JArr [JStr (U ''seo'')])]"
  have g: "getAllPosts (writeAll [?p]) = (Inr [?p], writeAll [?p])"
    by (simp add: getAllPosts_def readAll_writeAll)
  have l: "\<forall>q \<in> set [?p]. q \<noteq> JNull \<and> tags_listable q"
    by (simp add: tags_listable_def opt_prop_def or_default_def truthy_opt_def TAGS_def)
  have t: "JStr (U ''seo'') \<in> set (safeArray (opt_prop ?p TAGS))"
    by (simp add: safeArray_def opt_prop_def)
  have tr: "js_trim (js_String (JStr (U ''seo''))) = U ''seo''"
    by (simp add: js_trim_def is_js_ws_ascii)
  have dc: "decode_uri (js_trim (js_String (JStr (U ''seo'')))) = Some (js_trim (js_String (JStr (U ''seo''))))"
    unfolding tr by simp
  show ?thesis using TagPage_lists_tagged[OF g l _ t dc, of "\<lambda>_ _. 0"] by simp
qed

lemma VideoRanking_top_witness:
  "length (VideoRanking (\<lambda>_. JNaN) 1 (JObj [(U ''items'', JArr [JObj [(VIEWS, JNum (JFin 3))], JObj [(VIEWS, JNum (JFin 7))]])])) \<le> 1 \<and>
   sorted (map (\<lambda>y. - views_val y)
     (VideoRanking (\<lambda>_. JNaN) 1 (JObj [(U ''items'', JArr [JObj [(VIEWS, JNum (JFin 3))], JObj [(VIEWS, JNum (JFin 7))]])])))"
proof -
  have "\<forall>x \<in> set [JObj [(VIEWS, JNum (JFin 3))], JObj [(VIEWS, JNum (JFin 7))]]. \<exists>v. views_nn x = JNum (JFin v)"
    by (simp add: views_nn_def opt_prop_def)
  then show ?thesis using VideoRanking_top[of "[JObj [(VIEWS, JNum (JFin 3))], JObj [(VIEWS, JNum (JFin 7))]]" "\<lambda>_. JNaN" 1] by simp
qed

end
