(* ===== verification/VideoLd.thy ===== *)
theory VideoLd
  imports VideoDetail
begin

text \<open>
  The \<open>VideoObject\<close> JSON-LD of \<open>src/src/app/components/VideoLd.jsx\<close>, which the video page
  renders for its video: the absolute thumbnail, the embed URL, \<open>formatDuration\<close> (seconds to
  \<open>PT#H#M#S\<close>) and the object with its \<open>undefined\<close> fields dropped. \<open>new Date(s)\<close> with
  \<open>toISOString\<close> is a parameter.
\<close>

section \<open>formatDuration\<close>

definition js_fmod :: "rat \<Rightarrow> rat \<Rightarrow> rat" where
  \<comment> \<open>\<open>a % b\<close>: the remainder takes the sign of \<open>a\<close>\<close>
  "js_fmod a b = a - b * of_int (if a < 0 then - \<lfloor>- a / b\<rfloor> else \<lfloor>a / b\<rfloor>)"

definition formatDuration :: "jval option \<Rightarrow> ustr option" where
  \<comment> \<open>\<open>None\<close> is \<open>undefined\<close>; the arithmetic converts its argument with \<open>Number\<close>\<close>
  "formatDuration sec =
     (if \<not> truthy_opt sec then None
      else Some (U ''PT'' @
        (case js_ToNumber (the sec) of
           JFin x \<Rightarrow>
             (let h = \<lfloor>x / 3600\<rfloor>; m = \<lfloor>js_fmod x 3600 / 60\<rfloor>; s = js_fmod x 60 in
              (if 0 < h then jnum_to_string (JFin (of_int h)) @ U ''H'' else []) @
              (if 0 < m then jnum_to_string (JFin (of_int m)) @ U ''M'' else []) @
              (if 0 < s then jnum_to_string (JFin s) @ U ''S'' else []))
         | JInf True \<Rightarrow> U ''InfinityH''
         | _ \<Rightarrow> [])))"

definition dur_part :: "nat \<Rightarrow> nat \<Rightarrow> ustr" where
  \<comment> \<open>the part \<open>k\<close> followed by the unit letter \<open>c\<close> when \<open>k > 0\<close>\<close>
  "dur_part k c = (if 0 < k then to_radix 10 k @ [c] else [])"

definition dur_group :: "nat \<Rightarrow> ustr option" where
  \<comment> \<open>the group \<open>dur_match\<close> reads back from \<open>dur_part k\<close>\<close>
  "dur_group k = (if 0 < k then Some (to_radix 10 k) else None)"

section \<open>The JSON-LD object\<close>

record ld_env =
  site_url :: "ustr option"         \<comment> \<open>\<open>NEXT_PUBLIC_SITE_URL\<close>\<close>
  site_name :: "ustr option"        \<comment> \<open>\<open>NEXT_PUBLIC_SITE_NAME\<close>\<close>
  date_day :: "jval \<Rightarrow> ustr option"  \<comment> \<open>\<open>new Date(s).toISOString().split('T')[0]\<close>, \<open>None\<close> when invalid\<close>

definition ld_base :: "ld_env \<Rightarrow> ustr" where
  "ld_base E = (case site_url E of Some s \<Rightarrow> if s \<noteq> [] then s else U ''http://localhost:3000'' | None \<Rightarrow> U ''http://localhost:3000'')"

definition ld_thumb :: "ustr \<Rightarrow> jval \<Rightarrow> ustr js" where
  \<comment> \<open>\<open>video.thumbnail || "/og-default.jpg"\<close> made absolute; \<open>startsWith\<close> of a non-string throws\<close>
  "ld_thumb base video =
     (case or_default (opt_prop video (K ''thumbnail'')) (JStr (U ''/og-default.jpg'')) of
        JStr t \<Rightarrow> Inr (if starts_with t (U ''http'') then t
                      else base @ (if starts_with t (U ''/'') then t else 47 # t))
      | _ \<Rightarrow> Inl TypeError)"

definition ld_embed :: "jval \<Rightarrow> ustr" where
  "ld_embed video =
     (if truthy_opt (opt_prop video (K ''youtube'')) then
        (let s = js_trim (js_String (the (opt_prop video (K ''youtube'')))) in
         if starts_with s (U ''http'') then s else U ''https://www.youtube.com/watch?v='' @ s)
      else [])"

definition ld_keywords :: "jval \<Rightarrow> jval option js" where
  \<comment> \<open>\<open>video.keywords?.join(', ') || undefined\<close>: a value without \<open>join\<close> throws\<close>
  "ld_keywords video =
     (case opt_prop video (K ''keywords'') of
        None \<Rightarrow> Inr None
      | Some JNull \<Rightarrow> Inr None
      | Some (JArr xs) \<Rightarrow> Inr (let j = join_values (U '', '') xs in if j = [] then None else Some (JStr j))
      | Some _ \<Rightarrow> Inl TypeError)"

definition defined_fields :: "(ustr \<times> jval option) list \<Rightarrow> (ustr \<times> jval) list" where
  \<comment> \<open>the object literal with the \<open>undefined\<close> and \<open>null\<close> values deleted\<close>
  "defined_fields fs = [(k, the v). (k, v) \<leftarrow> fs, v \<noteq> None \<and> v \<noteq> Some JNull]"

definition video_ld :: "ld_env \<Rightarrow> jval \<Rightarrow> jval option js" where
  \<comment> \<open>the object \<open>VideoLd\<close> stringifies, \<open>None\<close> when it renders nothing\<close>
  "video_ld E video =
     (if \<not> truthy video then Inr None
      else
        let base = ld_base E; f = opt_prop video in
        js_bind (ld_thumb base video) (\<lambda>thumb.
        js_bind (ld_keywords video) (\<lambda>kw.
        Inr (Some (JObj (defined_fields
          [(K ''@context'', Some (JStr (U ''https://schema.org''))),
           (K ''@type'', Some (JStr (U ''VideoObject''))),
           (K ''name'', Some (or_default (f (K ''title'')) (JStr []))),
           (K ''description'', Some (or_default (f (K ''excerpt'')) (or_default (f (K ''title'')) (JStr [])))),
           (K ''thumbnailUrl'', Some (JStr thumb)),
           (K ''uploadDate'', if truthy_opt (f (K ''date'')) then map_option JStr (date_day E (the (f (K ''date''))))
                             else None),
           (K ''duration'', map_option JStr (formatDuration (f (K ''duration'')))),
           (K ''contentUrl'', Some (JStr (base @ U ''/videos/'' @ js_String_opt (f SLUG)))),
           (K ''embedUrl'', Some (JStr (ld_embed video))),
           (K ''transcript'', if truthy_opt (f (K ''transcript'')) then f (K ''transcript'') else None),
           (K ''keywords'', kw),
           (K ''author'', if truthy_opt (f (K ''author'')) then
                            Some (JObj [(K ''@type'', JStr (U ''Person'')), (K ''name'', the (f (K ''author'')))])
                          else None),
           (K ''publisher'', Some (JObj [(K ''@type'', JStr (U ''Organization'')),
                                        (K ''name'', JStr (case site_name E of Some n \<Rightarrow> if n \<noteq> [] then n else U ''My Site''
                                                                           | None \<Rightarrow> U ''My Site'')),
                                        (K ''logo'', JObj [(K ''@type'', JStr (U ''ImageObject'')),
                                                           (K ''url'', JStr (base @ U ''/logo.png''))])])),
           (K ''interactionStatistic'', if truthy_opt (f (K ''views'')) then
               Some (JObj [(K ''@type'', JStr (U ''InteractionCounter'')),
                           (K ''interactionType'', JObj [(K ''@type'', JStr (U ''WatchAction''))]),
                           (K ''userInteractionCount'', the (f (K ''views'')))])
             else None)]))))))"

section \<open>Lemmas\<close>

lemma rat_to_string_nat: "rat_to_string (of_nat k) = to_radix 10 k"
proof -
  have "quotient_of (of_nat k :: rat) = (int k, 1)"
    using quotient_of_int[of "int k"] by simp
  then show ?thesis by (simp add: rat_to_string_def int_to_string_def)
qed

lemma js_fmod_nat: "js_fmod (of_nat n) (of_nat k) = of_nat (n mod k)"
proof -
  have "\<lfloor>(of_nat n :: rat) / of_nat k\<rfloor> = int (n div k)" by (rule floor_divide_of_nat_eq)
  moreover have "(of_nat n :: rat) = of_nat k * of_nat (n div k) + of_nat (n mod k)"
    by (metis of_nat_add of_nat_mult div_mult_mod_eq mult.commute)
  ultimately show ?thesis by (simp add: js_fmod_def)
qed

lemma formatDuration_nat:
  assumes "0 < n"
  shows "formatDuration (Some (JNum (JFin (of_nat n)))) =
         Some (U ''PT'' @ dur_part (n div 3600) 72 @ dur_part ((n mod 3600) div 60) 77 @ dur_part (n mod 60) 83)"
proof -
  have h: "\<lfloor>(of_nat n :: rat) / 3600\<rfloor> = int (n div 3600)"
    using floor_divide_of_nat_eq[of n 3600] by simp
  have f: "js_fmod (of_nat n) 3600 = of_nat (n mod 3600)" "js_fmod (of_nat n) 60 = of_nat (n mod 60)"
    using js_fmod_nat[of n 3600] js_fmod_nat[of n 60] by simp_all
  have m: "\<lfloor>(of_nat (n mod 3600) :: rat) / 60\<rfloor> = int ((n mod 3600) div 60)"
    using floor_divide_of_nat_eq[of "n mod 3600" 60] by simp
  show ?thesis
    using assms
    by (simp add: formatDuration_def truthy_opt_def Let_def h f m dur_part_def rat_to_string_nat)
qed

lemma digits_then_radix_gen:
  assumes "\<not> is_digit y"
  shows "digits_then x (to_radix 10 k @ y # r) = (if y = x then (Some (to_radix 10 k), r) else (None, to_radix 10 k @ y # r))"
proof -
  have d: "list_all is_digit (to_radix 10 k)" "to_radix 10 k \<noteq> []" using to_radix_10_digits by auto
  then have "takeWhile is_digit (to_radix 10 k @ y # r) = to_radix 10 k"
    "dropWhile is_digit (to_radix 10 k @ y # r) = y # r"
    using assms by (simp_all add: list_all_iff takeWhile_append2 dropWhile_append2)
  then show ?thesis using d(2) by (simp add: digits_then_def)
qed

lemma digits_then_Nil: "digits_then x [] = (None, [])"
  by (simp add: digits_then_def)

lemma dur_match_parts:
  "dur_match (U ''PT'' @ dur_part h 72 @ dur_part m 77 @ dur_part s 83) = Some (dur_group h, dur_group m, dur_group s)"
proof -
  have nd: "\<not> is_digit 72" "\<not> is_digit 77" "\<not> is_digit 83" by (simp_all add: is_digit_def)
  show ?thesis
    by (cases "0 < h"; cases "0 < m"; cases "0 < s")
       (simp_all add: dur_match_def dur_part_def dur_group_def digits_then_radix_gen[OF nd(1)]
                      digits_then_radix_gen[OF nd(2)] digits_then_radix_gen[OF nd(3)] digits_then_Nil)
qed

lemma group_num_dur_group: "group_num (dur_group k) = JFin (of_nat k)"
  by (simp add: dur_group_def group_num_radix) (simp add: group_num_def)

lemma dur_parts_trim: "js_trim (U ''PT'' @ dur_part h 72 @ dur_part m 77 @ dur_part s 83) = U ''PT'' @ dur_part h 72 @ dur_part m 77 @ dur_part s 83"
proof (rule js_trim_id)
  have "set (dur_part k c) \<subseteq> insert c (set (to_radix 10 k))" for k c by (auto simp: dur_part_def)
  moreover have "\<forall>c \<in> set (to_radix 10 k). \<not> is_js_ws c" for k
    using to_radix_10_digits[of k] by (auto simp: list_all_iff dest: digit_not_ws)
  ultimately show "\<forall>c \<in> set (U ''PT'' @ dur_part h 72 @ dur_part m 77 @ dur_part s 83). \<not> is_js_ws c"
    by (fastforce simp: is_js_ws_ascii)
qed

lemma dur_sum: "(n :: nat) = n div 3600 * 3600 + n mod 3600 div 60 * 60 + n mod 60"
proof -
  have "n mod 3600 mod 60 = n mod 60" by (simp add: mod_mod_cancel)
  moreover have "n mod 3600 = n mod 3600 div 60 * 60 + n mod 3600 mod 60" by simp
  moreover have "n = n div 3600 * 3600 + n mod 3600" by simp
  ultimately show ?thesis by linarith
qed

lemma dur_not_number:
  assumes "dur_match s \<noteq> None"
  shows "js_number_of_string s = JNaN"
proof -
  have "take 2 s = U ''PT''" using assms by (auto simp: dur_match_def split: if_splits)
  then obtain r where s: "s = 80 # 84 # r" by (cases s; cases "tl s") auto
  have ws: "\<not> is_js_ws 80" "\<not> is_js_ws 84" by (simp_all add: is_js_ws_ascii)
  have t: "js_trim s = 80 # 84 # rev (dropWhile is_js_ws (rev r))"
    by (simp only: s js_trim_def dropWhile.simps ws if_False not_False_eq_True rev_dropWhile_rev_Cons)
  have "parse_unsigned_decimal (80 # 84 # rev (dropWhile is_js_ws (rev r))) = None"
    by (simp add: parse_unsigned_decimal_def is_digit_def)
  then show ?thesis
    by (simp add: js_number_of_string_def t sign_split_def)
qed

text \<open>
  C37: \<open>formatDuration\<close> and \<open>isoDurationToSeconds\<close> of the video page are inverse: the
  duration \<open>VideoLd\<close> prints for a positive whole number of seconds reads back as that number.
\<close>

theorem formatDuration_roundtrip:
  assumes "0 < n"
  shows "\<exists>d. formatDuration (Some (JNum (JFin (of_nat n)))) = Some d \<and>
             isoDurationToSeconds (Some (JStr d)) = JFin (of_nat n)"
proof -
  let ?d = "U ''PT'' @ dur_part (n div 3600) 72 @ dur_part (n mod 3600 div 60) 77 @ dur_part (n mod 60) 83"
  have ne: "?d \<noteq> []" by simp
  have "isoDurationToSeconds (Some (JStr ?d)) =
        JFin (of_nat (n div 3600) * 3600 + of_nat (n mod 3600 div 60) * 60 + of_nat (n mod 60))"
    using ne by (simp add: isoDurationToSeconds_def or_default_def truthy_opt_def dur_parts_trim[simplified]
                           dur_match_parts[simplified] group_num_dur_group)
  also have "\<dots> = JFin (of_nat n)"
    using arg_cong[OF dur_sum[of n], of "of_nat :: nat \<Rightarrow> rat"] by simp
  finally show ?thesis using formatDuration_nat[OF assms] by blast
qed

text \<open>
  C36: The video page hands \<open>VideoLd\<close> the stored duration, which it reads itself as an
  ISO duration; \<open>formatDuration\<close> expects seconds and prints every ISO duration as the
  empty duration \<open>PT\<close>.
\<close>

theorem formatDuration_iso_input:
  assumes "dur_match s \<noteq> None"
  shows "formatDuration (Some (JStr s)) = Some (U ''PT'')"
proof -
  have "s \<noteq> []" using assms by (auto simp: dur_match_def)
  then show ?thesis
    using dur_not_number[OF assms] by (simp add: formatDuration_def truthy_opt_def)
qed

lemma formatDuration_roundtrip_witness:
  "0 < (90 :: nat) \<and> (\<exists>d. formatDuration (Some (JNum (JFin (of_nat 90)))) = Some d \<and>
                          isoDurationToSeconds (Some (JStr d)) = JFin (of_nat 90))"
  using formatDuration_roundtrip[of 90] by simp

lemma formatDuration_iso_input_witness:
  "dur_match (U ''PT5M'') \<noteq> None \<and> formatDuration (Some (JStr (U ''PT5M''))) = Some (U ''PT'')"
proof -
  have "dur_match (U ''PT5M'') \<noteq> None"
    by (simp add: dur_match_def digits_then_def is_digit_def)
  then show ?thesis using formatDuration_iso_input[of "U ''PT5M''"] by simp
qed

end
