(* ===== verification/VideoPage.thy ===== *)
theory VideoPage
  imports VideoLd
begin

text \<open>
  The server page of a video, \<open>src/src/app/videos/[slug]/page.jsx\<close>, with the constants of
  \<open>src/src/app/seo.config.js\<close> it uses: the description, the canonical URL, the thumbnail,
  \<open>durationToISO\<close> (which reads \<open>m:s\<close> or \<open>h:m:s\<close>), and the three JSON-LD objects the page
  renders before handing the item to \<open>VideoDetailClient\<close>. \<open>getVideoBySlug\<close> (its store
  is not in the repository) and the current time are parameters.
\<close>

section \<open>Configuration\<close>

definition SITE :: ustr where "SITE = U ''https://myad-dev.com''"
definition BRAND :: ustr where "BRAND = U ''MyAdsDev''"
definition LOGO_URL :: ustr where "LOGO_URL = U ''https://myad-dev.com/images/logo.png''"

definition SITE_URL :: "ustr option \<Rightarrow> ustr" where
  \<comment> \<open>\<open>process.env.NEXT_PUBLIC_SITE_URL || SITE\<close>\<close>
  "SITE_URL e = (case e of Some s \<Rightarrow> if s \<noteq> [] then s else SITE | None \<Rightarrow> SITE)"

section \<open>Helpers\<close>

definition buildDescription :: "jval \<Rightarrow> ustr js" where
  \<comment> \<open>\<open>(v?.excerpt || v?.title || "").trim().replace(/\s+/g, " ")\<close>, cut to 159 units and an
      ellipsis beyond 160; \<open>trim\<close> of a non-string throws\<close>
  "buildDescription v =
     (case or_default (opt_prop v (K ''excerpt'')) (or_default (opt_prop v TITLE) (JStr [])) of
        JStr s \<Rightarrow>
          (let raw = replace_runs is_js_ws 32 (js_trim s) in
           Inr (if 160 < length raw then take 159 raw @ [8230] else raw))
      | _ \<Rightarrow> Inl TypeError)"

definition canonicalFor :: "ustr \<Rightarrow> jval option \<Rightarrow> ustr js" where
  "canonicalFor site slug =
     (case encode_uri (js_String_opt slug) of
        None \<Rightarrow> Inl uri_error
      | Some e \<Rightarrow> Inr (site @ U ''/videos/'' @ e))"

definition extractYoutubeId_page :: "(ustr \<Rightarrow> url_parts option) \<Rightarrow> jval \<Rightarrow> ustr" where
  \<comment> \<open>the page's own copy of the client's \<open>extractYoutubeId\<close>, line for line the same code\<close>
  "extractYoutubeId_page parse input = extractYoutubeId parse input"

definition durationToISO :: "jval option \<Rightarrow> ustr js" where
  \<comment> \<open>\<open>duration.split(":").map(Number)\<close> printed as \<open>PT#M#S\<close> or \<open>PT#H#M#S\<close>, else five minutes;
      \<open>split\<close> of a non-string throws\<close>
  "durationToISO d =
     (if \<not> truthy_opt d then Inr (U ''PT5M'')
      else case the d of
        JStr s \<Rightarrow>
          (let ps = map (\<lambda>p. jnum_to_string (js_number_of_string p)) (js_split 58 s) in
           if length ps = 2 then Inr (U ''PT'' @ ps ! 0 @ U ''M'' @ ps ! 1 @ U ''S'')
           else if length ps = 3 then Inr (U ''PT'' @ ps ! 0 @ U ''H'' @ ps ! 1 @ U ''M'' @ ps ! 2 @ U ''S'')
           else Inr (U ''PT5M''))
      | _ \<Rightarrow> Inl TypeError)"

definition page_thumbnail :: "ustr \<Rightarrow> jval \<Rightarrow> ustr js" where
  \<comment> \<open>\<open>v.thumbnail?.startsWith("http") ? v.thumbnail : `${SITE_URL}${v.thumbnail || default}`\<close>;
      a value that is not nullish and has no \<open>startsWith\<close> throws\<close>
  "page_thumbnail site v =
     (case opt_prop v (K ''thumbnail'') of
        None \<Rightarrow> Inr (site @ U ''/images/og-default.jpg'')
      | Some JNull \<Rightarrow> Inr (site @ U ''/images/og-default.jpg'')
      | Some (JStr t) \<Rightarrow>
          Inr (if starts_with t (U ''http'') then t
               else site @ (if t \<noteq> [] then t else U ''/images/og-default.jpg''))
      | Some _ \<Rightarrow> Inl TypeError)"

section \<open>The page\<close>

definition TH_HOME :: ustr where "TH_HOME = [3627, 3609, 3657, 3634, 3649, 3619, 3585]"
definition TH_VIDEO :: ustr where "TH_VIDEO = [3623, 3636, 3604, 3637, 3650, 3629]"

definition list_item :: "nat \<Rightarrow> jval \<Rightarrow> ustr \<Rightarrow> jval" where
  "list_item n name item =
     JObj [(K ''@type'', JStr (U ''ListItem'')), (K ''position'', JNum (JFin (of_nat n))),
           (K ''name'', name), (K ''item'', JStr item)]"

datatype video_page = NotFound | Page jval jval jval jval
  \<comment> \<open>the breadcrumb, \<open>VideoObject\<close> and \<open>VideoGallery\<close> JSON-LD, and the item the client gets\<close>

definition VideoDetailPage ::
  "ustr option \<Rightarrow> (ustr \<Rightarrow> url_parts option) \<Rightarrow> ustr \<Rightarrow> (ustr \<Rightarrow> jval option) \<Rightarrow> ustr \<Rightarrow> video_page js" where
  \<comment> \<open>\<open>getVideoBySlug\<close> is \<open>getV\<close>, \<open>now_s\<close> is \<open>new Date().toISOString()\<close>\<close>
  "VideoDetailPage env parse now_s getV slug =
     (case getV slug of
        None \<Rightarrow> Inr NotFound
      | Some v \<Rightarrow>
          if \<not> truthy v then Inr NotFound
          else
            let site = SITE_URL env; f = opt_prop v;
                ytId = extractYoutubeId_page parse (or_default (f (K ''youtube'')) (JStr []));
                embed = (if ytId \<noteq> [] then Some (U ''https://www.youtube.com/embed/'' @ ytId) else None) in
            js_bind (canonicalFor site (f SLUG)) (\<lambda>url.
            js_bind (page_thumbnail site v) (\<lambda>thumb.
            js_bind (durationToISO (f (K ''duration''))) (\<lambda>dur.
              let name = or_default (f TITLE) (JStr (U ''Video''));
                  crumbs = JObj [(K ''@context'', JStr (U ''https://schema.org'')), (K ''@type'', JStr (U ''BreadcrumbList'')),
                                 (K ''itemListElement'', JArr [list_item 1 (JStr TH_HOME) site,
                                                              list_item 2 (JStr TH_VIDEO) (site @ U ''/videos''),
                                                              list_item 3 name url])];
                  vld = JObj (defined_fields \<comment> \<open>\<open>JSON.stringify\<close> leaves out an undefined \<open>embedUrl\<close>\<close>
                          [(K ''@context'', Some (JStr (U ''https://schema.org''))),
                           (K ''@type'', Some (JStr (U ''VideoObject''))),
                           (K ''@id'', Some (JStr (url @ U ''#video''))),
                           (K ''name'', Some name),
                           (K ''description'', Some (or_default (f (K ''excerpt'')) (or_default (f TITLE)
                                                    (JStr (TH_VIDEO @ [3592, 3634, 3585] @ U '' MyAdsDev''))))),
                           (K ''thumbnailUrl'', Some (JArr [JStr thumb])),
                           (K ''uploadDate'', Some (or_default (f CREATED) (or_default (f DATE) (JStr now_s)))),
                           (K ''duration'', Some (JStr dur)),
                           (K ''contentUrl'', Some (JStr (case embed of Some e \<Rightarrow> e | None \<Rightarrow> url))),
                           (K ''embedUrl'', map_option JStr embed),
                           (K ''interactionStatistic'', Some (JObj [(K ''@type'', JStr (U ''InteractionCounter'')),
                               (K ''interactionType'', JObj [(K ''@type'', JStr (U ''WatchAction''))]),
                               (K ''userInteractionCount'', or_default (f VIEWS) (JNum (JFin 0)))])),
                           (K ''publisher'', Some (JObj [(K ''@type'', JStr (U ''Organization'')),
                               (K ''@id'', JStr (site @ U ''/#organization'')), (K ''name'', JStr BRAND),
                               (K ''logo'', JObj [(K ''@type'', JStr (U ''ImageObject'')),
                                                  (K ''url'', JStr (if starts_with LOGO_URL (U ''http'') then LOGO_URL else site @ LOGO_URL))])])),
                           (K ''mainEntityOfPage'', Some (JObj [(K ''@type'', JStr (U ''WebPage'')), (K ''@id'', JStr url)]))]);
                  page = JObj [(K ''@context'', JStr (U ''https://schema.org'')), (K ''@type'', JStr (U ''VideoGallery'')),
                               (K ''@id'', JStr url), (K ''name'', name), (K ''url'', JStr url),
                               (K ''description'', or_default (f (K ''excerpt'')) (or_default (f TITLE) (JStr []))),
                               (K ''primaryImageOfPage'', JObj [(K ''@type'', JStr (U ''ImageObject'')), (K ''url'', JStr thumb),
                                                              (K ''width'', JNum (JFin 1280)), (K ''height'', JNum (JFin 720))]),
                               (K ''isPartOf'', JObj [(K ''@type'', JStr (U ''WebSite'')), (K ''@id'', JStr (site @ U ''/#website'')),
                                                     (K ''name'', JStr BRAND)])]
              in Inr (Page crumbs vld page v)))))"

section \<open>Lemmas\<close>

lemma digits_no_colon: "list_all is_digit a \<Longrightarrow> 58 \<notin> set a"
  by (auto simp: list_all_iff is_digit_def)

lemma number_string_digits:
  "a \<noteq> [] \<Longrightarrow> list_all is_digit a \<Longrightarrow> jnum_to_string (js_number_of_string a) = to_radix 10 (digits_value 10 a)"
  by (simp add: js_number_of_digits rat_to_string_nat)

lemma durationToISO_ms:
  assumes "a \<noteq> []" "list_all is_digit a" "b \<noteq> []" "list_all is_digit b"
  shows "durationToISO (Some (JStr (a @ 58 # b))) =
         Inr (U ''PT'' @ to_radix 10 (digits_value 10 a) @ U ''M'' @ to_radix 10 (digits_value 10 b) @ U ''S'')"
proof -
  have "js_split 58 (a @ 58 # b) = [a, b]"
    using assms by (simp add: js_split_append_sep js_split_no_sep digits_no_colon)
  then show ?thesis
    using assms by (simp add: durationToISO_def truthy_opt_def number_string_digits)
qed

lemma ms_parts_trim:
  "js_trim (U ''PT'' @ to_radix 10 m @ U ''M'' @ to_radix 10 s @ U ''S'') = U ''PT'' @ to_radix 10 m @ U ''M'' @ to_radix 10 s @ U ''S''"
proof (rule js_trim_id)
  have "\<forall>c \<in> set (to_radix 10 k). \<not> is_js_ws c" for k
    using to_radix_10_digits[of k] by (auto simp: list_all_iff dest: digit_not_ws)
  then show "\<forall>c \<in> set (U ''PT'' @ to_radix 10 m @ U ''M'' @ to_radix 10 s @ U ''S''). \<not> is_js_ws c"
    by (auto simp: is_js_ws_ascii)
qed

section \<open>Properties of the video page\<close>

text \<open>
  C38: The server page and the client page agree on \<open>m:s\<close> durations: the ISO duration
  \<open>durationToISO\<close> writes for \<open>m:s\<close> in decimal digits reads back through the client's
  \<open>isoDurationToSeconds\<close> as \<open>60 m + s\<close> seconds.
\<close>

theorem durationToISO_read_back:
  assumes "a \<noteq> []" "list_all is_digit a" "b \<noteq> []" "list_all is_digit b"
  shows "\<exists>d. durationToISO (Some (JStr (a @ 58 # b))) = Inr d \<and>
             isoDurationToSeconds (Some (JStr d)) = JFin (of_nat (digits_value 10 a * 60 + digits_value 10 b))"
proof -
  let ?m = "digits_value 10 a" and ?s = "digits_value 10 b"
  let ?d = "U ''PT'' @ to_radix 10 ?m @ U ''M'' @ to_radix 10 ?s @ U ''S''"
  have nd: "\<not> is_digit 77" "\<not> is_digit 83" by (simp_all add: is_digit_def)
  have g0: "group_num None = JFin 0" by (simp add: group_num_def)
  have "dur_match ?d = Some (None, Some (to_radix 10 ?m), Some (to_radix 10 ?s))"
    using digits_then_radix_gen[OF nd(1), of 72 ?m] digits_then_radix_gen[OF nd(1), of 77 ?m]
          digits_then_radix_gen[OF nd(2), of 83 ?s "[]"]
    by (simp add: dur_match_def)
  then have "isoDurationToSeconds (Some (JStr ?d)) = JFin (of_nat ?m * 60 + of_nat ?s)"
    by (simp add: isoDurationToSeconds_def or_default_def truthy_opt_def ms_parts_trim[simplified]
                  group_num_radix g0)
  then show ?thesis using durationToISO_ms[OF assms] by simp
qed

lemma durationToISO_number: "n \<noteq> 0 \<Longrightarrow> durationToISO (Some (JNum (JFin n))) = Inl TypeError"
  by (simp add: durationToISO_def truthy_opt_def)

lemma durationToISO_read_back_witness:
  "\<exists>d. durationToISO (Some (JStr (U ''1:30''))) = Inr d \<and> isoDurationToSeconds (Some (JStr d)) = JFin 90"
proof -
  have "\<exists>d. durationToISO (Some (JStr (U ''1'' @ 58 # U ''30''))) = Inr d \<and>
            isoDurationToSeconds (Some (JStr d)) = JFin (of_nat (digits_value 10 (U ''1'') * 60 + digits_value 10 (U ''30'')))"
    by (rule durationToISO_read_back) (simp_all add: is_digit_def)
  then show ?thesis by (simp add: digits_value_def digit_val_def)
qed

end
