(* ===== verification/Toolfree.thy ===== *)
theory Toolfree
  imports Sitemap
begin

text \<open>
  The download modal of \<open>src/src/app/toolfree/ToolfreeClient.jsx\<close>: a click on one of
  the two download buttons opens the modal with a 30 second countdown, a one-second
  interval counts it down while the modal is open, and an effect starts the download
  (\<open>window.location.assign\<close>) and closes the modal when it reaches 0. The React state is
  the record \<open>tstate\<close>, with the class of \<open>document.body\<close>, the URLs assigned to
  \<open>window.location\<close> and the alerts shown; \<open>tstep\<close> is a handler (or an interval tick)
  followed by the effect, \<open>treach\<close> the reachable states, \<open>trun\<close> a run of events each
  enabled when it fires. \<open>triggerDownload\<close> is \<open>async\<close>, so its value is a promise.
\<close>

section \<open>Download URLs\<close>

definition DEFAULT_DOWNLOAD_HOST :: ustr where
  "DEFAULT_DOWNLOAD_HOST = U ''https://apipost.myad-dev.com''"

definition DOWNLOAD_HOST :: "ustr option \<Rightarrow> ustr" where
  \<comment> \<open>\<open>(process.env.NEXT_PUBLIC_DOWNLOAD_HOST || default).replace(/\/+$/, "")\<close>\<close>
  "DOWNLOAD_HOST e =
     SITE_BASE (case e of Some s \<Rightarrow> if s \<noteq> [] then s else DEFAULT_DOWNLOAD_HOST | None \<Rightarrow> DEFAULT_DOWNLOAD_HOST)"

definition USE_LOCAL :: bool where "USE_LOCAL = False"

definition buildCandidates :: "ustr \<Rightarrow> ustr \<Rightarrow> ustr list" where
  "buildCandidates host filename =
     (if USE_LOCAL then [47 # filename] else [host @ 47 # filename, host @ 47 # filename])"

datatype dl_type = Facebook | Google

definition files :: "ustr \<Rightarrow> dl_type \<Rightarrow> ustr list" where
  \<comment> \<open>the memoised \<open>{ facebook, google }\<close>; \<open>files[downloadType] || []\<close> always finds its key\<close>
  "files host t =
     (case t of Facebook \<Rightarrow> buildCandidates host (U ''facebook.zip'')
              | Google \<Rightarrow> buildCandidates host (U ''google.zip''))"

datatype promise = Resolved bool
  \<comment> \<open>the value of an \<open>async\<close> function: a \<open>Promise\<close> object settling to the returned value\<close>

definition triggerDownload :: "ustr list \<Rightarrow> ustr option \<times> promise" where
  \<comment> \<open>the URL assigned to \<open>window.location\<close>, if any, and the promise returned\<close>
  "triggerDownload urls =
     (case urls of
        [] \<Rightarrow> (None, Resolved False)
      | first # _ \<Rightarrow> if first = [] then (None, Resolved False) else (Some first, Resolved True))"

definition promise_truthy :: "promise \<Rightarrow> bool" where
  \<comment> \<open>\<open>!ok\<close> on a promise: it is an object, and every object is truthy\<close>
  "promise_truthy p = True"

section \<open>The page state and its handlers\<close>

record tstate =
  modalIsOpen :: bool
  timeLeft :: nat
  downloadType :: "dl_type option"
  bodyModalOpen :: bool      \<comment> \<open>\<open>document.body.classList\<close> holds \<open>modal-open\<close>\<close>
  assigned :: "ustr list"    \<comment> \<open>the URLs given to \<open>window.location.assign\<close>, in order\<close>
  alerts :: "ustr list"

definition tinit :: tstate where
  "tinit = \<lparr>modalIsOpen = False, timeLeft = 30, downloadType = None, bodyModalOpen = False,
            assigned = [], alerts = []\<rparr>"

definition openModal :: "dl_type \<Rightarrow> tstate \<Rightarrow> tstate" where
  "openModal t st = st\<lparr>downloadType := Some t, timeLeft := 30, modalIsOpen := True, bodyModalOpen := True\<rparr>"

definition closeModal :: "tstate \<Rightarrow> tstate" where
  "closeModal st = st\<lparr>modalIsOpen := False, downloadType := None, bodyModalOpen := False\<rparr>"

definition tick :: "tstate \<Rightarrow> tstate" where
  \<comment> \<open>the interval callback \<open>setTimeLeft((t) => (t > 0 ? t - 1 : 0))\<close>\<close>
  "tick st = st\<lparr>timeLeft := (if 0 < timeLeft st then timeLeft st - 1 else 0)\<rparr>"

definition NO_URL_MSG :: ustr where
  "NO_URL_MSG = [3652, 3617, 3656, 3614, 3610] @ U '' URL '' @ [3604, 3634, 3623, 3609, 3660, 3650, 3627, 3621, 3604]"

definition download_effect :: "(dl_type \<Rightarrow> ustr list) \<Rightarrow> tstate \<Rightarrow> tstate" where
  \<comment> \<open>the effect on \<open>[timeLeft, downloadType, files]\<close>\<close>
  "download_effect fs st =
     (case downloadType st of
        None \<Rightarrow> st
      | Some t \<Rightarrow>
          if timeLeft st \<noteq> 0 then st
          else
            let (a, ok) = triggerDownload (fs t);
                st1 = st\<lparr>assigned := assigned st @ (case a of Some u \<Rightarrow> [u] | None \<Rightarrow> [])\<rparr>;
                st2 = (if \<not> promise_truthy ok then st1\<lparr>alerts := alerts st1 @ [NO_URL_MSG]\<rparr> else st1)
            in closeModal st2)"

datatype tevent = ClickDownload dl_type | ClickClose | Tick

definition tenabled :: "tstate \<Rightarrow> tevent \<Rightarrow> bool" where
  \<comment> \<open>the buttons lie under the modal's backdrop while it is open; its close button and the
      interval exist only then\<close>
  "tenabled st ev = (case ev of ClickDownload _ \<Rightarrow> \<not> modalIsOpen st | ClickClose \<Rightarrow> modalIsOpen st
                              | Tick \<Rightarrow> modalIsOpen st)"

definition tstep :: "ustr \<Rightarrow> tstate \<Rightarrow> tevent \<Rightarrow> tstate" where
  "tstep host st ev =
     download_effect (files host)
       (case ev of ClickDownload t \<Rightarrow> openModal t st | ClickClose \<Rightarrow> closeModal st | Tick \<Rightarrow> tick st)"

inductive treach :: "ustr \<Rightarrow> tstate \<Rightarrow> bool" for host where
  treach_init: "treach host tinit"
| treach_step: "treach host st \<Longrightarrow> tenabled st ev \<Longrightarrow> treach host (tstep host st ev)"

fun trun :: "ustr \<Rightarrow> tstate \<Rightarrow> tevent list \<Rightarrow> tstate option" where
  "trun host st [] = Some st"
| "trun host st (ev # evs) = (if tenabled st ev then trun host (tstep host st ev) evs else None)"

definition file_name :: "dl_type \<Rightarrow> ustr" where
  "file_name t = (case t of Facebook \<Rightarrow> U ''facebook.zip'' | Google \<Rightarrow> U ''google.zip'')"

definition tinv :: "tstate \<Rightarrow> bool" where
  "tinv st \<longleftrightarrow> (modalIsOpen st \<longleftrightarrow> downloadType st \<noteq> None) \<and> bodyModalOpen st = modalIsOpen st
               \<and> timeLeft st \<le> 30 \<and> (modalIsOpen st \<longrightarrow> 0 < timeLeft st) \<and> alerts st = []"

section \<open>Lemmas\<close>

lemma files_first: "files host t = [host @ 47 # file_name t, host @ 47 # file_name t]"
  by (cases t) (simp_all add: files_def buildCandidates_def USE_LOCAL_def file_name_def)

lemma download_effect_no_alert: "alerts (download_effect fs st) = alerts st"
  by (simp add: download_effect_def promise_truthy_def closeModal_def split: option.split prod.split)

lemma download_effect_idle: "timeLeft st \<noteq> 0 \<Longrightarrow> download_effect fs st = st"
  by (simp add: download_effect_def split: option.split)

lemma download_effect_fire:
  "downloadType st = Some t \<Longrightarrow> timeLeft st = 0 \<Longrightarrow>
   download_effect (files host) st =
     st\<lparr>modalIsOpen := False, downloadType := None, bodyModalOpen := False,
        assigned := assigned st @ [host @ 47 # file_name t]\<rparr>"
  by (simp add: download_effect_def files_first triggerDownload_def promise_truthy_def closeModal_def)

lemma tstep_inv: "tinv st \<Longrightarrow> tenabled st ev \<Longrightarrow> tinv (tstep host st ev)"
  by (cases ev)
     (auto simp: tinv_def tenabled_def tstep_def openModal_def closeModal_def tick_def
                 download_effect_def promise_truthy_def split: option.split prod.split)

lemma treach_inv: "treach host st \<Longrightarrow> tinv st"
proof (induction rule: treach.induct)
  case treach_init
  then show ?case by (simp add: tinv_def tinit_def)
next
  case (treach_step st ev)
  then show ?case by (simp add: tstep_inv)
qed

lemma ticks_count:
  assumes "modalIsOpen st" "downloadType st = Some t" "timeLeft st = n + k" "0 < n"
  shows "trun host st (replicate k Tick @ evs) = trun host (st\<lparr>timeLeft := n\<rparr>) evs"
  using assms
proof (induction k arbitrary: st)
  case 0
  then have "st\<lparr>timeLeft := n\<rparr> = st" by (cases st) simp
  then show ?case by simp
next
  case (Suc k)
  have "tstep host st Tick = st\<lparr>timeLeft := n + k\<rparr>"
    using Suc.prems by (simp add: tstep_def tick_def download_effect_idle)
  then show ?case using Suc.prems Suc.IH[of "st\<lparr>timeLeft := n + k\<rparr>"] by (simp add: tenabled_def)
qed

lemma last_tick:
  "modalIsOpen st \<Longrightarrow> downloadType st = Some t \<Longrightarrow> timeLeft st = 1 \<Longrightarrow>
   tstep host st Tick =
     st\<lparr>timeLeft := 0, modalIsOpen := False, downloadType := None, bodyModalOpen := False,
        assigned := assigned st @ [host @ 47 # file_name t]\<rparr>"
  by (simp add: tstep_def tick_def download_effect_fire)

lemma click_opens:
  "\<not> modalIsOpen st \<Longrightarrow>
   tstep host st (ClickDownload t) =
     st\<lparr>downloadType := Some t, timeLeft := 30, modalIsOpen := True, bodyModalOpen := True\<rparr>"
  by (simp add: tstep_def openModal_def download_effect_idle)

section \<open>Properties\<close>

text \<open>
  C30: The invariant of the page. In every reachable state of the free tool page the
  modal is open exactly when a download type is chosen, the class of the body follows the
  modal, the countdown stays within 30 and is positive while the modal is open, and the
  missing-URL alert has never been shown.
\<close>
theorem toolfree_reachable_inv:
  assumes "treach host st"
  shows "(modalIsOpen st \<longleftrightarrow> downloadType st \<noteq> None) \<and> bodyModalOpen st = modalIsOpen st
         \<and> timeLeft st \<le> 30 \<and> (modalIsOpen st \<longrightarrow> 0 < timeLeft st) \<and> alerts st = []"
  using assms
proof (induction rule: treach.induct)
  case treach_init
  then show ?case by (simp add: tinit_def)
next
  case (treach_step st ev)
  then show ?case using tstep_inv[of st ev host] by (simp add: tinv_def)
qed

theorem toolfree_reachable_inv_witness:
  "modalIsOpen (tstep (DOWNLOAD_HOST None) tinit (ClickDownload Facebook))
   \<and> downloadType (tstep (DOWNLOAD_HOST None) tinit (ClickDownload Facebook)) = Some Facebook
   \<and> bodyModalOpen (tstep (DOWNLOAD_HOST None) tinit (ClickDownload Facebook))
   \<and> 0 < timeLeft (tstep (DOWNLOAD_HOST None) tinit (ClickDownload Facebook))
   \<and> timeLeft (tstep (DOWNLOAD_HOST None) tinit (ClickDownload Facebook)) \<le> 30
   \<and> alerts (tstep (DOWNLOAD_HOST None) tinit (ClickDownload Facebook)) = []"
proof -
  have r: "treach (DOWNLOAD_HOST None) (tstep (DOWNLOAD_HOST None) tinit (ClickDownload Facebook))"
    by (rule treach_step[OF treach_init]) (simp add: tenabled_def tinit_def)
  have o: "modalIsOpen (tstep (DOWNLOAD_HOST None) tinit (ClickDownload Facebook))
           \<and> downloadType (tstep (DOWNLOAD_HOST None) tinit (ClickDownload Facebook)) = Some Facebook"
    by (simp add: click_opens tinit_def)
  show ?thesis using toolfree_reachable_inv[OF r] o by auto
qed

text \<open>
  C31: The download starts exactly when the countdown ends. From every reachable state
  with the modal closed, a click on a download button followed by 30 interval ticks is a
  run of enabled events that assigns \<open>DOWNLOAD_HOST/<file>\<close> to \<open>window.location\<close> once
  and closes the modal again; after fewer than 30 ticks the modal is still open and
  nothing has been assigned.
\<close>
theorem download_after_countdown:
  assumes "treach host st" "\<not> modalIsOpen st"
  shows "trun host st (ClickDownload t # replicate 30 Tick) =
           Some (st\<lparr>timeLeft := 0, assigned := assigned st @ [host @ 47 # file_name t]\<rparr>)
         \<and> (\<forall>k < 30. \<exists>s. trun host st (ClickDownload t # replicate k Tick) = Some s
                          \<and> modalIsOpen s \<and> assigned s = assigned st)"
proof -
  have inv: "tinv st" using assms(1) by (rule treach_inv)
  define st1 where "st1 = st\<lparr>downloadType := Some t, timeLeft := 30, modalIsOpen := True, bodyModalOpen := True\<rparr>"
  have c: "trun host st (ClickDownload t # evs) = trun host st1 evs" for evs
    using assms(2) click_opens[of st host t] by (simp add: tenabled_def st1_def)
  have r29: "trun host st1 (replicate 29 Tick @ evs) = trun host (st1\<lparr>timeLeft := 1\<rparr>) evs" for evs
    by (rule ticks_count) (simp_all add: st1_def)
  have rp: "replicate 30 Tick = replicate 29 Tick @ [Tick]" by (simp add: numeral_eq_Suc)
  have "trun host st (ClickDownload t # replicate 30 Tick) = trun host (st1\<lparr>timeLeft := 1\<rparr>) [Tick]"
    unfolding c rp r29 ..
  also have "\<dots> = Some (st\<lparr>timeLeft := 0, assigned := assigned st @ [host @ 47 # file_name t]\<rparr>)"
    using assms(2) inv last_tick[of "st1\<lparr>timeLeft := 1\<rparr>" t host]
    by (simp add: tenabled_def st1_def tinv_def)
  finally have first: "trun host st (ClickDownload t # replicate 30 Tick) =
                         Some (st\<lparr>timeLeft := 0, assigned := assigned st @ [host @ 47 # file_name t]\<rparr>)" .
  have "\<exists>s. trun host st (ClickDownload t # replicate k Tick) = Some s \<and> modalIsOpen s \<and> assigned s = assigned st"
    if "k < 30" for k
  proof -
    have "trun host st1 (replicate k Tick @ []) = trun host (st1\<lparr>timeLeft := 30 - k\<rparr>) []"
      using that by (intro ticks_count) (simp_all add: st1_def)
    then show ?thesis using c[of "replicate k Tick"] by (simp add: st1_def)
  qed
  then show ?thesis using first by blast
qed

theorem download_after_countdown_witness:
  "trun (DOWNLOAD_HOST None) tinit (ClickDownload Facebook # replicate 30 Tick) =
     Some (tinit\<lparr>timeLeft := 0, assigned := [U ''https://apipost.myad-dev.com/facebook.zip'']\<rparr>)"
proof -
  have "treach (DOWNLOAD_HOST None) tinit" by (rule treach_init)
  moreover have "DOWNLOAD_HOST None @ 47 # file_name Facebook = U ''https://apipost.myad-dev.com/facebook.zip''"
    by (simp add: DOWNLOAD_HOST_def DEFAULT_DOWNLOAD_HOST_def SITE_BASE_def is_slash_def file_name_def)
  ultimately show ?thesis
    using download_after_countdown[of "DOWNLOAD_HOST None" tinit Facebook] by (simp add: tinit_def)
qed

text \<open>
  The alert of a missing URL is dead code: \<open>triggerDownload\<close> is \<open>async\<close>, so \<open>ok\<close> is a
  promise and \<open>!ok\<close> is false whatever the URL list, even an empty one; the effect never
  alerts and closes the modal without a download.
\<close>
lemma no_url_never_alerts:
  "downloadType st = Some t \<Longrightarrow> timeLeft st = 0 \<Longrightarrow>
   download_effect (\<lambda>_. []) st = closeModal st"
  by (simp add: download_effect_def triggerDownload_def promise_truthy_def closeModal_def)

end
