(* ===== verification/BlogPost.thy ===== *)
theory BlogPost
  imports VideoPage IndexPages
begin

text \<open>
  The page of one blog post: the server page \<open>src/src/app/blog/[slug]/page.jsx\<close>, which
  looks the post up with \<open>getPostBySlug\<close> of the posts store and renders three JSON-LD
  objects before handing the post to the client, and the client
  \<open>src/src/app/blog/[slug]/PostDetailClient.jsx\<close> with its related-posts list over the
  list \<open>/api/posts\<close> answered. \<open>new Date(x).getTime()\<close> is a parameter.
\<close>

section \<open>The server page\<close>

definition TH_ARTICLE :: ustr where "TH_ARTICLE = [3610, 3607, 3588, 3623, 3634, 3617]"
definition TH_WRITERS :: ustr where
  "TH_WRITERS = [3607, 3637, 3617, 3648, 3586, 3637, 3618, 3609] @ TH_ARTICLE"

definition canonicalFor_blog :: "ustr \<Rightarrow> jval option \<Rightarrow> ustr js" where
  \<comment> \<open>\<open>`${SITE_URL}/blog/${encodeURIComponent(slug)}`\<close>\<close>
  "canonicalFor_blog site slug =
     (case encode_uri (js_String_opt slug) of
        None \<Rightarrow> Inl uri_error
      | Some e \<Rightarrow> Inr (site @ U ''/blog/'' @ e))"

definition tags_keywords :: "jval \<Rightarrow> ustr js" where
  \<comment> \<open>\<open>(v.tags || []).join(", ")\<close>: a truthy value that is not an array has no \<open>join\<close>\<close>
  "tags_keywords v =
     (case or_default (opt_prop v TAGS) (JArr []) of
        JArr xs \<Rightarrow> Inr (join_values (U '', '') xs)
      | _ \<Rightarrow> Inl TypeError)"

datatype post_page = PostNotFound | PostPage jval jval jval jval
  \<comment> \<open>the breadcrumb, \<open>Article\<close> and \<open>WebPage\<close> JSON-LD, and the item the client gets\<close>

definition post_ld :: "ustr \<Rightarrow> ustr \<Rightarrow> jval \<Rightarrow> ustr \<Rightarrow> ustr \<Rightarrow> ustr \<Rightarrow> jval \<times> jval \<times> jval" where
  \<comment> \<open>the three objects, for the site, the current time, the post, its URL, thumbnail and keywords\<close>
  "post_ld site now_s v cu thumb kw =
     (let f = opt_prop v; name = or_default (f TITLE) (JStr TH_ARTICLE);
          descr = or_default (f (K ''excerpt'')) (or_default (f TITLE) (JStr []));
          crumbs = JObj [(K ''@context'', JStr (U ''https://schema.org'')), (K ''@type'', JStr (U ''BreadcrumbList'')),
                         (K ''itemListElement'', JArr [list_item 1 (JStr TH_HOME) site,
                                                      list_item 2 (JStr TH_ARTICLE) (site @ U ''/blog''),
                                                      list_item 3 name cu])];
          art = JObj [(K ''@context'', JStr (U ''https://schema.org'')), (K ''@type'', JStr (U ''Article'')),
                      (K ''@id'', JStr (cu @ U ''#article'')), (K ''headline'', name), (K ''description'', descr),
                      (K ''image'', JArr [JStr thumb]),
                      (K ''datePublished'', or_default (f CREATED) (or_default (f DATE) (JStr now_s))),
                      (K ''dateModified'', or_default (f UPDATED) (or_default (f DATE) (JStr now_s))),
                      (K ''author'', JObj [(K ''@type'', JStr (U ''Person'')),
                                          (K ''name'', or_default (f (K ''author'')) (JStr TH_WRITERS))]),
                      (K ''publisher'', JObj [(K ''@type'', JStr (U ''Organization'')),
                          (K ''@id'', JStr (site @ U ''/#organization'')), (K ''name'', JStr BRAND),
                          (K ''logo'', JObj [(K ''@type'', JStr (U ''ImageObject'')),
                                             (K ''url'', JStr (if starts_with LOGO_URL (U ''http'') then LOGO_URL else site @ LOGO_URL))])]),
                      (K ''mainEntityOfPage'', JObj [(K ''@type'', JStr (U ''WebPage'')), (K ''@id'', JStr cu)]),
                      (K ''keywords'', JStr kw)];
          web = JObj [(K ''@context'', JStr (U ''https://schema.org'')), (K ''@type'', JStr (U ''WebPage'')),
                      (K ''@id'', JStr cu), (K ''name'', name), (K ''url'', JStr cu), (K ''description'', descr),
                      (K ''primaryImageOfPage'', JObj [(K ''@type'', JStr (U ''ImageObject'')), (K ''url'', JStr thumb),
                                                     (K ''width'', JNum (JFin 1200)), (K ''height'', JNum (JFin 630))]),
                      (K ''isPartOf'', JObj [(K ''@type'', JStr (U ''WebSite'')), (K ''@id'', JStr (site @ U ''/#website'')),
                                            (K ''name'', JStr BRAND)])]
      in (crumbs, art, web))"

definition PostDetailPage :: "ustr option \<Rightarrow> ustr \<Rightarrow> ustr \<Rightarrow> doc \<Rightarrow> post_page js \<times> doc" where
  \<comment> \<open>the page for the decoded route parameter \<open>slug\<close> over the posts file; the
      thumbnail reads as on the video page (\<open>page_thumbnail\<close>, the same code)\<close>
  "PostDetailPage env now_s slug d =
     (case getPostBySlug (JStr slug) d of
        (Inl err, d1) \<Rightarrow> (Inl err, d1)
      | (Inr item, d1) \<Rightarrow>
          (if \<not> truthy_opt item then Inr PostNotFound
           else
             let v = the item; site = SITE_URL env in
             js_bind (canonicalFor_blog site (opt_prop v SLUG)) (\<lambda>cu.
             js_bind (page_thumbnail site v) (\<lambda>thumb.
             js_bind (tags_keywords v) (\<lambda>kw.
               case post_ld site now_s v cu thumb kw of
                 (crumbs, art, web) \<Rightarrow> Inr (PostPage crumbs art web v)))), d1))"

section \<open>The client\<close>

definition BASE_PUBLIC_URL_post :: ustr where
  "BASE_PUBLIC_URL_post = U ''https://myad-dev.com/public''"

definition resolveThumbnailUrl_post :: "jval option \<Rightarrow> ustr js" where
  \<comment> \<open>\<open>thumbnail.startsWith\<close> of a truthy value that is not a string throws\<close>
  "resolveThumbnailUrl_post thumbnail =
     (if \<not> truthy_opt thumbnail then Inr (U ''/default-thumb.jpg'')
      else case the thumbnail of
        JStr t \<Rightarrow> Inr (if starts_with t (U ''http://'') \<or> starts_with t (U ''https://'') then t
                       else BASE_PUBLIC_URL_post @ t)
      | _ \<Rightarrow> Inl TypeError)"

definition post_tag_href :: "jval \<Rightarrow> ustr js" where
  \<comment> \<open>\<open>`/blog?tag=${encodeURIComponent(t)}`\<close>\<close>
  "post_tag_href t = (case encode_uri (js_String t) of None \<Rightarrow> Inl uri_error | Some e \<Rightarrow> Inr (U ''/blog?tag='' @ e))"

definition array_or_empty :: "jval option \<Rightarrow> jval list" where
  \<comment> \<open>\<open>Array.isArray(v) ? v : []\<close>\<close>
  "array_or_empty v = (case v of Some (JArr xs) \<Rightarrow> xs | _ \<Rightarrow> [])"

datatype post_view = NoPost | PostView "ustr option" jval "ustr list" "jval list"
  \<comment> \<open>the image, the heading, the tag links and the keyword badges\<close>

definition TH_UNTITLED :: ustr where
  "TH_UNTITLED = [3652, 3617, 3656, 3617, 3637, 3594, 3639, 3656, 3629] @ TH_ARTICLE"

definition post_view_of :: "jval option \<Rightarrow> post_view js" where
  \<comment> \<open>the render of \<open>PostDetailClient\<close> up to the related list; \<open>!post || typeof post !== "object"\<close>
      gives the not-found view, an array is an object\<close>
  "post_view_of post =
     (case post of
        Some p \<Rightarrow>
          if truthy p \<and> (case p of JObj _ \<Rightarrow> True | JArr _ \<Rightarrow> True | _ \<Rightarrow> False) then
            (let f = opt_prop p in
             js_bind (if truthy_opt (f (K ''thumbnail''))
                      then map_sum id Some (resolveThumbnailUrl_post (f (K ''thumbnail''))) else Inr None) (\<lambda>thumb.
             js_bind (js_map post_tag_href (array_or_empty (f TAGS))) (\<lambda>hrefs.
               Inr (PostView thumb (or_default (f TITLE) (JStr TH_UNTITLED)) hrefs
                      (take 6 (array_or_empty (f (K ''keywords''))))))))
          else Inr NoPost
      | None \<Rightarrow> Inr NoPost)"

section \<open>Related posts\<close>

definition opt_strict_eq :: "jval option \<Rightarrow> jval option \<Rightarrow> bool" where
  \<comment> \<open>\<open>a === b\<close> where either side may be \<open>undefined\<close>\<close>
  "opt_strict_eq a b =
     (case (a, b) of (None, None) \<Rightarrow> True | (Some x, Some y) \<Rightarrow> js_strict_eq x y | _ \<Rightarrow> False)"

definition post_keep :: "jval option \<Rightarrow> jval \<Rightarrow> bool js" where
  \<comment> \<open>\<open>x.slug !== currentSlug\<close>: reading \<open>slug\<close> of \<open>null\<close> throws\<close>
  "post_keep cur x = js_bind (get_prop x SLUG) (\<lambda>s. Inr (\<not> opt_strict_eq s cur))"

definition post_overlap :: "ustr list \<Rightarrow> jval \<Rightarrow> nat js" where
  \<comment> \<open>\<open>(x.tags || []).reduce(...)\<close>: the tags whose lower-case form is in the set; a truthy
      value that is not an array has no \<open>reduce\<close>\<close>
  "post_overlap S x =
     (case or_default (opt_prop x TAGS) (JArr []) of
        JArr ts \<Rightarrow> Inr (length (filter (\<lambda>t. js_lower (js_String t) \<in> set S) ts))
      | _ \<Rightarrow> Inl TypeError)"

definition post_time :: "(jval \<Rightarrow> jnum) \<Rightarrow> jval \<Rightarrow> jnum" where
  \<comment> \<open>\<open>new Date(v.date || v.createdAt || 0).getTime()\<close>\<close>
  "post_time get_time v = get_time (or_default (opt_prop v DATE) (or_default (opt_prop v CREATED) (JNum (JFin 0))))"

definition post_cmp :: "(jval \<Rightarrow> jnum) \<Rightarrow> jval \<times> nat \<Rightarrow> jval \<times> nat \<Rightarrow> jnum" where
  \<comment> \<open>the comparator: by score, higher first, then by time, newer first\<close>
  "post_cmp get_time a b =
     (if snd b \<noteq> snd a then JFin (of_nat (snd b) - of_nat (snd a))
      else jsub (post_time get_time (fst b)) (post_time get_time (fst a)))"

definition related_posts :: "(jval \<Rightarrow> jnum) \<Rightarrow> jval option \<Rightarrow> jval option \<Rightarrow> jval list \<Rightarrow> jval list js" where
  \<comment> \<open>the memoised \<open>list\<close> of \<open>RelatedPosts\<close> for \<open>currentSlug\<close>, \<open>tags\<close> (default \<open>[]\<close>)
      and the items\<close>
  "related_posts get_time cur tags items =
     js_bind (tag_set (case tags of None \<Rightarrow> JArr [] | Some t \<Rightarrow> t)) (\<lambda>S.
     js_bind (js_filter (post_keep cur) items) (\<lambda>ks.
     js_bind (js_map (\<lambda>x. js_bind (post_overlap S x) (\<lambda>n. Inr (x, n))) ks) (\<lambda>sc.
       Inr (map fst (take 6 (sort_cmp (\<lambda>a b. cmp_lt (post_cmp get_time a b)) sc))))))"

definition PostDetailClient ::
  "(jval \<Rightarrow> jnum) \<Rightarrow> jval option \<Rightarrow> jval list \<Rightarrow> (post_view \<times> jval list) js" where
  \<comment> \<open>the client for \<open>post\<close> once \<open>/api/posts\<close> answered \<open>items\<close>; \<open>RelatedPosts\<close> gets
      \<open>currentSlug={p.slug}\<close> and \<open>tags={p.tags}\<close>\<close>
  "PostDetailClient get_time post items =
     js_bind (post_view_of post) (\<lambda>view.
       case view of
         NoPost \<Rightarrow> Inr (NoPost, [])
       | PostView _ _ _ _ \<Rightarrow>
           js_bind (related_posts get_time (opt_prop (the post) SLUG) (opt_prop (the post) TAGS) items)
             (\<lambda>rel. Inr (view, rel)))"

section \<open>Lemmas\<close>

lemma string_list_rt: "\<exists>ts. json_roundtrip (string_list v) = JArr ts"
  by (cases v) (simp_all add: string_list_def)

lemma post_item_rt:
  "opt_prop (json_roundtrip (post_item e f n)) SLUG = Some (JStr n)"
  "\<exists>th. opt_prop (json_roundtrip (post_item e f n)) (K ''thumbnail'') = Some (JStr th)"
  "\<exists>ts. opt_prop (json_roundtrip (post_item e f n)) TAGS = Some (JArr ts)"
  "truthy (json_roundtrip (post_item e f n))"
proof -
  obtain ts where "json_roundtrip (string_list (arg (f (U ''tags'')) (JArr []))) = JArr ts"
    using string_list_rt by blast
  then show "\<exists>ts. opt_prop (json_roundtrip (post_item e f n)) TAGS = Some (JArr ts)"
    by (simp add: post_item_def opt_prop_def TAGS_def SLUG_def TITLE_def)
qed (simp_all add: post_item_def opt_prop_def K_def SLUG_def TITLE_def)

lemma page_thumbnail_str: "opt_prop v (K ''thumbnail'') = Some (JStr th) \<Longrightarrow> \<exists>u. page_thumbnail site v = Inr u"
  by (simp add: page_thumbnail_def)

lemma post_ld_id:
  "opt_prop (fst (snd (post_ld site now_s v cu thumb kw))) (K ''@id'') = Some (JStr (cu @ U ''#article''))
   \<and> opt_prop (fst (snd (post_ld site now_s v cu thumb kw))) (K ''keywords'') = Some (JStr kw)"
  by (simp add: post_ld_def Let_def opt_prop_def K_def)

lemma related_posts_excludes:
  assumes "\<forall>x \<in> set items. \<exists>fs. x = JObj fs"
    and "\<forall>x \<in> set items. opt_prop x TAGS = None \<or> (\<exists>ts. opt_prop x TAGS = Some (JArr ts))"
  shows "\<exists>ys. related_posts gt cur (Some (JArr tg)) items = Inr ys \<and> length ys \<le> 6
              \<and> (\<forall>y \<in> set ys. y \<in> set items \<and> \<not> opt_strict_eq (opt_prop y SLUG) cur)"
proof -
  let ?S = "map (\<lambda>t. js_lower (js_String t)) tg"
  let ?q = "\<lambda>x. \<not> opt_strict_eq (opt_prop x SLUG) cur"
  let ?g = "\<lambda>x. (x, length (filter (\<lambda>t. js_lower (js_String t) \<in> set ?S) (array_or_empty (opt_prop x TAGS))))"
  have f: "js_filter (post_keep cur) items = Inr (filter ?q items)"
    using assms(1) by (intro js_filter_pure) (auto simp: post_keep_def opt_prop_def js_bind_def)
  have o: "post_overlap ?S x = Inr (snd (?g x))" if "x \<in> set items" for x
    using assms(2) that by (auto simp: post_overlap_def or_default_def truthy_opt_def array_or_empty_def)
  have m: "js_map (\<lambda>x. js_bind (post_overlap ?S x) (\<lambda>n. Inr (x, n))) (filter ?q items) = Inr (map ?g (filter ?q items))"
    using o by (intro js_map_pure) (simp add: js_bind_def)
  have ts: "tag_set (JArr tg) = Inr ?S" by (simp add: tag_set_def)
  let ?ys = "map fst (take 6 (sort_cmp (\<lambda>a b. cmp_lt (post_cmp gt a b)) (map ?g (filter ?q items))))"
  have r: "related_posts gt cur (Some (JArr tg)) items = Inr ?ys"
  proof -
    have jb: "js_bind (Inr a) h = h a" for a :: 'a and h :: "'a \<Rightarrow> jval list js" by (simp add: js_bind_def)
    show ?thesis by (simp only: related_posts_def option.case ts jb f m)
  qed
  have "y \<in> set items \<and> ?q y" if y: "y \<in> set ?ys" for y
  proof -
    let ?L = "sort_cmp (\<lambda>a b. cmp_lt (post_cmp gt a b)) (map ?g (filter ?q items))"
    obtain a where a: "y = fst a" "a \<in> set (take 6 ?L)"
      using y unfolding set_map by (rule imageE)
    have "set ?L = set (map ?g (filter ?q items))" by (simp only: set_mset_mset[symmetric] mset_sort_cmp)
    then have "a \<in> set (map ?g (filter ?q items))" using in_set_takeD[OF a(2)] by (simp only:)
    then obtain x where x: "a = ?g x" "x \<in> set (filter ?q items)" unfolding set_map by (rule imageE)
    have "y = x" using a(1) x(1) by simp
    then show ?thesis using x(2) by simp
  qed
  moreover have "length ?ys \<le> 6" by simp
  ultimately show ?thesis using r by blast
qed

lemma related_posts_null:
  "related_posts gt cur (Some (JArr tg)) (JNull # items) = Inl TypeError"
  by (simp add: related_posts_def tag_set_def post_keep_def js_bind_def)

section \<open>Properties\<close>

text \<open>
  C32: The page of an added post. Composed with the posts store: after
  \<open>addPostFullFirstWrite\<close> stores a post under a fresh slug without \<open>%\<close> that
  \<open>encodeURIComponent\<close> accepts, the post page for that slug renders the stored post, its
  \<open>Article\<close> is identified by \<open>SITE_URL/blog/<encoded slug>#article\<close> and its keywords are
  the post's tags joined by a comma.
\<close>
theorem added_post_page:
  assumes "readAll d = (xs, d1)" and "list_all is_obj xs"
    and "addPostFullFirstWrite e p d = (Inr (False, it), d')" and "37 \<notin> set (slug_str it)"
    and "encode_uri (slug_str it) = Some enc"
  shows "\<exists>crumbs art web.
           PostDetailPage env now_s (slug_str it) d' = (Inr (PostPage crumbs art web (json_roundtrip it)), d')
           \<and> opt_prop art (K ''@id'') = Some (JStr (SITE_URL env @ U ''/blog/'' @ enc @ U ''#article''))
           \<and> opt_prop art (K ''keywords'')
               = Some (JStr (join_values (U '', '') (array_or_empty (opt_prop (json_roundtrip it) TAGS))))"
proof -
  obtain f where it: "it = post_item e f (slug_str it)"
    using addPost_new_item[OF assms(1-3)] by blast
  define v where "v = json_roundtrip it"
  have get: "getPostBySlug (JStr (slug_str it)) d' = (Inr (Some v), d')"
    unfolding v_def by (rule addPost_found[OF assms(1-4)])
  have sl: "opt_prop v SLUG = Some (JStr (slug_str it))" and tr: "truthy v"
    using post_item_rt(1,4)[of e f "slug_str it"] it by (simp_all add: v_def)
  obtain ts where tg: "opt_prop v TAGS = Some (JArr ts)"
    using post_item_rt(3)[of e f "slug_str it"] it by (auto simp: v_def)
  obtain th where "opt_prop v (K ''thumbnail'') = Some (JStr th)"
    using post_item_rt(2)[of e f "slug_str it"] it by (auto simp: v_def)
  then obtain u where th: "page_thumbnail (SITE_URL env) v = Inr u" using page_thumbnail_str by blast
  have cf: "canonicalFor_blog (SITE_URL env) (opt_prop v SLUG) = Inr (SITE_URL env @ U ''/blog/'' @ enc)"
    using assms(5) by (simp add: canonicalFor_blog_def js_String_opt_def sl)
  have kw: "tags_keywords v = Inr (join_values (U '', '') ts)"
    by (simp add: tags_keywords_def or_default_def truthy_opt_def tg)
  obtain crumbs art web where ld:
    "post_ld (SITE_URL env) now_s v (SITE_URL env @ U ''/blog/'' @ enc) u (join_values (U '', '') ts) = (crumbs, art, web)"
    by (cases "post_ld (SITE_URL env) now_s v (SITE_URL env @ U ''/blog/'' @ enc) u (join_values (U '', '') ts)") auto
  have "PostDetailPage env now_s (slug_str it) d' = (Inr (PostPage crumbs art web v), d')"
    using get tr cf th kw ld by (simp add: PostDetailPage_def truthy_opt_def js_bind_def)
  moreover have "opt_prop art (K ''@id'') = Some (JStr (SITE_URL env @ U ''/blog/'' @ enc @ U ''#article''))
                 \<and> opt_prop art (K ''keywords'') = Some (JStr (join_values (U '', '') ts))"
    using post_ld_id[of "SITE_URL env" now_s v "SITE_URL env @ U ''/blog/'' @ enc" u "join_values (U '', '') ts"] ld
    by simp
  ultimately show ?thesis using tg by (auto simp: v_def array_or_empty_def)
qed

theorem added_post_page_witness:
  "\<exists>crumbs art web.
     PostDetailPage None (U ''2025-01-02'') (U ''b'')
       (writeAll [JObj [(SLUG, JStr (U ''a'')), (CREATED, JNum (JFin 1))],
                  post_item \<lparr>now = 7, ymd = (2025, 1, 2), nfkd = id, utc_ymd = (2025, 1, 2), uuid = U ''u''\<rparr>
                    (map_of [(SLUG, JStr (U ''b''))]) (U ''b'')]) =
       (Inr (PostPage crumbs art web
              (json_roundtrip (post_item \<lparr>now = 7, ymd = (2025, 1, 2), nfkd = id, utc_ymd = (2025, 1, 2), uuid = U ''u''\<rparr>
                                 (map_of [(SLUG, JStr (U ''b''))]) (U ''b'')))),
        writeAll [JObj [(SLUG, JStr (U ''a'')), (CREATED, JNum (JFin 1))],
                  post_item \<lparr>now = 7, ymd = (2025, 1, 2), nfkd = id, utc_ymd = (2025, 1, 2), uuid = U ''u''\<rparr>
                    (map_of [(SLUG, JStr (U ''b''))]) (U ''b'')])
     \<and> opt_prop art (K ''@id'') = Some (JStr (U ''https://myad-dev.com/blog/b#article''))"
proof -
  have s: "slug_str (post_item \<lparr>now = 7, ymd = (2025, 1, 2), nfkd = id, utc_ymd = (2025, 1, 2), uuid = U ''u''\<rparr>
                       (map_of [(SLUG, JStr (U ''b''))]) (U ''b'')) = U ''b''"
    by (simp add: slug_str_def)
  have p: "37 \<notin> set (slug_str (post_item \<lparr>now = 7, ymd = (2025, 1, 2), nfkd = id, utc_ymd = (2025, 1, 2), uuid = U ''u''\<rparr>
                       (map_of [(SLUG, JStr (U ''b''))]) (U ''b'')))"
    unfolding s by simp
  have e: "encode_uri (slug_str (post_item \<lparr>now = 7, ymd = (2025, 1, 2), nfkd = id, utc_ymd = (2025, 1, 2), uuid = U ''u''\<rparr>
                       (map_of [(SLUG, JStr (U ''b''))]) (U ''b''))) = Some (U ''b'')"
    unfolding s by (simp add: is_high_def is_low_def uri_unreserved_def)
  have l: "list_all is_obj [JObj [(SLUG, JStr (U ''a'')), (CREATED, JNum (JFin 1))]]" by simp
  obtain crumbs art web where
    a: "PostDetailPage None (U ''2025-01-02'')
          (slug_str (post_item \<lparr>now = 7, ymd = (2025, 1, 2), nfkd = id, utc_ymd = (2025, 1, 2), uuid = U ''u''\<rparr>
                       (map_of [(SLUG, JStr (U ''b''))]) (U ''b'')))
          (writeAll [JObj [(SLUG, JStr (U ''a'')), (CREATED, JNum (JFin 1))],
                     post_item \<lparr>now = 7, ymd = (2025, 1, 2), nfkd = id, utc_ymd = (2025, 1, 2), uuid = U ''u''\<rparr>
                       (map_of [(SLUG, JStr (U ''b''))]) (U ''b'')]) =
        (Inr (PostPage crumbs art web
               (json_roundtrip (post_item \<lparr>now = 7, ymd = (2025, 1, 2), nfkd = id, utc_ymd = (2025, 1, 2), uuid = U ''u''\<rparr>
                                  (map_of [(SLUG, JStr (U ''b''))]) (U ''b'')))),
         writeAll [JObj [(SLUG, JStr (U ''a'')), (CREATED, JNum (JFin 1))],
                   post_item \<lparr>now = 7, ymd = (2025, 1, 2), nfkd = id, utc_ymd = (2025, 1, 2), uuid = U ''u''\<rparr>
                     (map_of [(SLUG, JStr (U ''b''))]) (U ''b'')])"
    and b: "opt_prop art (K ''@id'') = Some (JStr (SITE_URL None @ U ''/blog/'' @ U ''b'' @ U ''#article''))"
    using added_post_page[OF sample_posts_read l sample_posts_add p e, of None "U ''2025-01-02''"] by blast
  have "SITE_URL None @ U ''/blog/'' @ U ''b'' @ U ''#article'' = U ''https://myad-dev.com/blog/b#article''"
    by (simp add: SITE_URL_def SITE_def)
  then have b': "opt_prop art (K ''@id'') = Some (JStr (U ''https://myad-dev.com/blog/b#article''))"
    using b by (simp only:)
  show ?thesis using a b' unfolding s by blast
qed

end
