(* ===== verification/ReviewDetail.thy ===== *)
theory ReviewDetail
  imports IndexPages VideoPage
begin

text \<open>
  The page of one review: the server page \<open>src/src/app/reviews/[slug]/page.jsx\<close> (its
  static parameters and the page with its JSON-LD) and the client
  \<open>src/src/app/reviews/[slug]/ReviewDetailClient.jsx\<close>. \<open>getReviewBySlug\<close> and
  \<open>getAllReviews\<close> belong to \<open>reviewsStore\<close>, which is not in the repository: the first is a
  parameter, the value (or throw) of the second an argument. \<open>toUpperCase\<close> is modelled on
  ASCII and Latin-1, as \<open>toLowerCase\<close> is; Thai has no case.
\<close>

section \<open>Configuration and helpers\<close>

definition env_or :: "ustr option \<Rightarrow> ustr \<Rightarrow> ustr" where
  \<comment> \<open>\<open>process.env.X || d\<close>\<close>
  "env_or e d = (case e of Some s \<Rightarrow> if s \<noteq> [] then s else d | None \<Rightarrow> d)"

definition SITE_review :: "ustr option \<Rightarrow> ustr option \<Rightarrow> ustr" where
  \<comment> \<open>\<open>NEXT_PUBLIC_SITE_URL || SITE_ORIGIN || "http://localhost:3000"\<close>\<close>
  "SITE_review pub origin = env_or pub (env_or origin (U ''http://localhost:3000''))"

definition canonicalFor_review :: "ustr \<Rightarrow> jval option \<Rightarrow> ustr js" where
  "canonicalFor_review site slug =
     (case encode_uri (js_String_opt slug) of
        None \<Rightarrow> Inl uri_error
      | Some e \<Rightarrow> Inr (site @ U ''/reviews/'' @ e))"

definition generateStaticParams :: "jval js \<Rightarrow> jval list" where
  \<comment> \<open>the value \<open>getAllReviews()\<close> gave, or its throw, which the \<open>catch\<close> turns into \<open>[]\<close>\<close>
  "generateStaticParams r =
     (case r of
        Inr (JArr items) \<Rightarrow> [JObj [(SLUG, the s)]. s \<leftarrow> map (\<lambda>x. opt_prop x SLUG) items, truthy_opt s]
      | _ \<Rightarrow> [])"

definition js_upper_unit :: "nat \<Rightarrow> ustr" where
  "js_upper_unit c =
     (if 97 \<le> c \<and> c \<le> 122 then [c - 32]
      else if 224 \<le> c \<and> c \<le> 254 \<and> c \<noteq> 247 then [c - 32]
      else if c = 255 then [376]
      else if c = 181 then [924]
      else if c = 223 then [83, 83]
      else [c])"

definition js_upper :: "ustr \<Rightarrow> ustr" where
  "js_upper s = concat (map js_upper_unit s)"

definition json_fields :: "(ustr \<times> jval option) list \<Rightarrow> (ustr \<times> jval) list" where
  \<comment> \<open>\<open>JSON.stringify\<close> of an object literal leaves out the \<open>undefined\<close> values\<close>
  "json_fields fs = [(k, the v). (k, v) \<leftarrow> fs, v \<noteq> None]"

section \<open>The server page\<close>

definition TH_REVIEWS :: ustr where "TH_REVIEWS = [3619, 3637, 3623, 3636, 3623, 3621, 3641, 3585, 3588, 3657, 3634]"
definition TH_REVIEW :: ustr where "TH_REVIEW = [3619, 3637, 3623, 3636, 3623]"

definition internalLinks :: "(ustr \<times> ustr) list" where
  "internalLinks =
     [(U ''/reviews#google'', [3604, 3641, 3619, 3637, 3623, 3636, 3623, 3627, 3617, 3623, 3604] @ U '' Google''),
      (U ''/reviews#facebook'', [3604, 3641, 3619, 3637, 3623, 3636, 3623, 3627, 3617, 3623, 3604] @ U '' Facebook''),
      (U ''/services/google-ads'', [3610, 3619, 3636, 3585, 3634, 3619, 3607, 3635, 3650, 3590, 3625, 3603, 3634] @ U '' Google Ads''),
      (U ''/services/facebook-ads'', [3610, 3619, 3636, 3585, 3634, 3619, 3607, 3635, 3650, 3590, 3625, 3603, 3634] @ U '' Facebook Ads''),
      (U ''/blog'', [3610, 3607, 3588, 3623, 3634, 3617, 3585, 3634, 3619, 3605, 3621, 3634, 3604, 3629, 3629, 3609, 3652, 3621, 3609, 3660]),
      (U ''/faq'', [3588, 3635, 3606, 3634, 3617, 3607, 3637, 3656, 3614, 3610, 3610, 3656, 3629, 3618] @ U '' (FAQ)''),
      (U ''/contact'', [3605, 3636, 3604, 3605, 3656, 3629, 3648, 3619, 3634])]"

datatype review_page = RNotFound | RPage jval jval
  \<comment> \<open>the JSON-LD array and the item the client gets\<close>

definition review_ld :: "ustr \<Rightarrow> jval \<Rightarrow> ustr \<Rightarrow> jval" where
  \<comment> \<open>the \<open>[BreadcrumbList, Review]\<close> array for the site, the item and the canonical URL\<close>
  "review_ld site item cu =
     (let f = opt_prop item in
      JArr [JObj [(K ''@context'', JStr (U ''https://schema.org'')), (K ''@type'', JStr (U ''BreadcrumbList'')),
                  (K ''itemListElement'', JArr [list_item 1 (JStr TH_HOME) site,
                                               list_item 2 (JStr TH_REVIEWS) (site @ U ''/reviews''),
                                               list_item 3 (or_default (f TITLE) (JStr TH_REVIEW)) cu])],
            JObj (json_fields
              [(K ''@context'', Some (JStr (U ''https://schema.org''))),
               (K ''@type'', Some (JStr (U ''Review''))),
               (K ''name'', Some (or_default (f TITLE) (JStr TH_REVIEWS))),
               (K ''datePublished'', f DATE),
               (K ''author'', if truthy_opt (f (K ''author''))
                              then Some (JObj [(K ''@type'', JStr (U ''Person'')), (K ''name'', the (f (K ''author'')))])
                              else None),
               (K ''reviewBody'', if truthy_opt (f (K ''excerpt'')) then f (K ''excerpt'') else f TITLE),
               (K ''url'', Some (JStr cu)),
               (K ''image'', if truthy_opt (f (K ''thumbnail'')) then Some (JArr [the (f (K ''thumbnail''))]) else None),
               (K ''about'', Some (JStr (js_upper (js_String (or_default (f (K ''category'')) (JStr [])))))),
               (K ''publisher'', Some (JObj [(K ''@type'', JStr (U ''Organization'')), (K ''name'', JStr (U ''myads.dev'')),
                                             (K ''url'', JStr site)]))])])"

definition ReviewDetailPage :: "ustr \<Rightarrow> (jval option \<Rightarrow> jval option) \<Rightarrow> jval option \<Rightarrow> review_page js" where
  \<comment> \<open>\<open>getReviewBySlug\<close> is \<open>getR\<close>; \<open>slug\<close> is the route parameter, \<open>undefined\<close> when absent\<close>
  "ReviewDetailPage site getR slug =
     (case getR slug of
        None \<Rightarrow> Inr RNotFound
      | Some item \<Rightarrow>
          if \<not> truthy item then Inr RNotFound
          else js_bind (canonicalFor_review site slug) (\<lambda>cu. Inr (RPage (review_ld site item cu) item)))"

section \<open>The client\<close>

definition BASE_PUBLIC_URL_review :: "ustr \<Rightarrow> ustr" where
  \<comment> \<open>\<open>SITE_ORIGIN ? SITE_ORIGIN.replace(/\/+$/, "") + "/public" : ""\<close>\<close>
  "BASE_PUBLIC_URL_review origin = (if origin \<noteq> [] then SITE_BASE origin @ U ''/public'' else [])"

definition PLACEHOLDER_SVG :: ustr where
  \<comment> \<open>the template literal of the placeholder image, with its line breaks and indentation\<close>
  "PLACEHOLDER_SVG =
     U ''<svg xmlns='' @ [39] @ U ''http://www.w3.org/2000/svg'' @ [39] @ U '' viewBox='' @ [39] @ U ''0 0 1200 630'' @ [39] @ U ''>'' @ [10] @
     U ''      <rect width='' @ [39] @ U ''1200'' @ [39] @ U '' height='' @ [39] @ U ''630'' @ [39] @ U '' fill='' @ [39] @ U ''#f0f2f5'' @ [39] @ U ''/>'' @ [10] @
     U ''      <text x='' @ [39] @ U ''50%'' @ [39] @ U '' y='' @ [39] @ U ''50%'' @ [39] @ U '' dominant-baseline='' @ [39] @ U ''middle'' @ [39] @
     U '' text-anchor='' @ [39] @ U ''middle'' @ [39, 10] @
     U ''            font-family='' @ [39] @ U ''Arial, sans-serif'' @ [39] @ U '' font-size='' @ [39] @ U ''36'' @ [39] @ U '' fill='' @ [39] @ U ''#99a1aa'' @ [39] @ U ''>'' @ [10] @
     U ''        '' @ [3652, 3617, 3656, 3617, 3637, 3619, 3641, 3611, 3616, 3634, 3614, 10] @
     U ''      </text>'' @ [10] @ U ''    </svg>''"

definition PLACEHOLDER :: ustr where
  \<comment> \<open>\<open>"data:image/svg+xml;utf8," + encodeURIComponent(svg)\<close>; the text has no lone surrogate\<close>
  "PLACEHOLDER = U ''data:image/svg+xml;utf8,'' @ (case encode_uri PLACEHOLDER_SVG of Some e \<Rightarrow> e | None \<Rightarrow> [])"

definition resolveImg_review :: "ustr \<Rightarrow> jval option \<Rightarrow> ustr" where
  "resolveImg_review base src =
     (if \<not> truthy_opt src then PLACEHOLDER
      else let s = js_trim (js_String (the src)) in
           if is_http_url s then s
           else if base \<noteq> [] then (if starts_with s (U ''/'') then base @ s else base @ 47 # dropWhile is_slash s)
           else s)"

record review_view =
  rv_title :: jval             \<comment> \<open>the heading\<close>
  rv_date :: ustr              \<comment> \<open>\<open>formatShortThai(r?.date || "")\<close>\<close>
  rv_author :: jval
  rv_category :: ustr          \<comment> \<open>\<open>String(r?.category || "").toUpperCase()\<close>, shown twice\<close>
  rv_img :: ustr
  rv_alt :: jval
  rv_links :: "(ustr \<times> ustr) list"
  rv_side_date :: ustr         \<comment> \<open>\<open>formatShortThai(r.date)\<close> in the side card\<close>
  rv_side_author :: "jval option"

definition TH_NO_TITLE_REVIEW :: ustr where
  "TH_NO_TITLE_REVIEW = [3652, 3617, 3656, 3617, 3637, 3594, 3639, 3656, 3629] @ TH_REVIEW"
definition TH_REVIEW_TEAM :: ustr where "TH_REVIEW_TEAM = [3607, 3637, 3617] @ TH_REVIEW"

definition ReviewDetailClient ::
  "ustr \<Rightarrow> jval option \<Rightarrow> (ustr \<times> ustr) list option \<Rightarrow> review_view option js" where
  \<comment> \<open>the render for \<open>SITE_ORIGIN\<close>, the review and the links (default \<open>[]\<close>); \<open>None\<close> is the
      not-found view of a falsy value or one that is not an object\<close>
  "ReviewDetailClient origin review links =
     (case review of
        Some r \<Rightarrow>
          if truthy r \<and> (case r of JObj _ \<Rightarrow> True | JArr _ \<Rightarrow> True | _ \<Rightarrow> False) then
            (let f = opt_prop r in
             js_bind (formatShortThai (Some (or_default (f DATE) (JStr [])))) (\<lambda>d1.
             js_bind (formatShortThai (f DATE)) (\<lambda>d2.
               Inr (Some \<lparr>rv_title = or_default (f TITLE) (JStr TH_NO_TITLE_REVIEW), rv_date = d1,
                          rv_author = or_default (f (K ''author'')) (JStr TH_REVIEW_TEAM),
                          rv_category = js_upper (js_String (or_default (f (K ''category'')) (JStr []))),
                          rv_img = (if truthy_opt (f (K ''thumbnail''))
                                    then resolveImg_review (BASE_PUBLIC_URL_review origin) (f (K ''thumbnail''))
                                    else PLACEHOLDER),
                          rv_alt = or_default (f TITLE) (JStr TH_REVIEWS),
                          rv_links = (case links of Some ls \<Rightarrow> ls | None \<Rightarrow> []),
                          rv_side_date = d2,
                          rv_side_author = (if truthy_opt (f (K ''author'')) then f (K ''author'') else None)\<rparr>))))
          else Inr None
      | None \<Rightarrow> Inr None)"

section \<open>Lemmas\<close>

lemma generateStaticParams_slugs:
  "set (generateStaticParams (Inr (JArr items))) =
     (\<lambda>s. JObj [(SLUG, s)]) ` {s. \<exists>x \<in> set items. opt_prop x SLUG = Some s \<and> truthy s}"
  by (auto simp: generateStaticParams_def truthy_opt_def split: option.splits)

lemma generateStaticParams_throw: "generateStaticParams (Inl err) = []"
  by (simp add: generateStaticParams_def)

lemma js_upper_ascii_example: "js_upper (U ''google'') = U ''GOOGLE''"
  by (simp add: js_upper_def js_upper_unit_def)

lemma ReviewDetailPage_url:
  assumes "getR slug = Some item" and "truthy item" and "encode_uri (js_String_opt slug) = Some e"
  shows "ReviewDetailPage site getR slug = Inr (RPage (review_ld site item (site @ U ''/reviews/'' @ e)) item)"
  using assms by (simp add: ReviewDetailPage_def canonicalFor_review_def js_bind_def)

lemma ReviewDetailClient_number_date:
  "ReviewDetailClient origin (Some (JObj [(DATE, JNum (JFin 5))])) links = Inl TypeError"
  by (simp add: ReviewDetailClient_def formatShortThai_def opt_prop_def or_default_def truthy_opt_def js_bind_def)

end
