(* ===== verification/PublicPages.thy ===== *)
theory PublicPages
  imports IndexPages
begin

text \<open>
  Two client components that render lists the API answered: the public videos page
  \<open>src/src/app/videos/page.jsx\<close> (\<open>PublicVideosPage\<close>, the list of \<open>/api/videos\<close> filtered by
  the \<open>?tag=\<close> of the URL) and the latest-content sections
  \<open>src/src/app/components/Rbvdo.jsx\<close> (\<open>LatestContentSections\<close>, the first three videos,
  reviews and posts). A page is the list of cards it renders; a throw is the render failing.
\<close>

section \<open>The public videos page\<close>

definition hasThumbnail :: "jval \<Rightarrow> bool" where
  \<comment> \<open>\<open>!!String(v?.thumbnail || "").trim()\<close>\<close>
  "hasThumbnail v \<longleftrightarrow> js_trim (js_String (or_default (opt_prop v (K ''thumbnail'')) (JStr []))) \<noteq> []"

definition fallbackThumb :: ustr where "fallbackThumb = U ''/default-thumb.jpg''"

definition has_tag_pub :: "ustr \<Rightarrow> jval \<Rightarrow> bool js" where
  \<comment> \<open>\<open>Array.isArray(v.tags) && v.tags.some((t) => String(t).toLowerCase() === q)\<close>\<close>
  "has_tag_pub q v =
     js_bind (get_prop v TAGS) (\<lambda>ts.
       Inr (case ts of Some (JArr xs) \<Rightarrow> list_ex (\<lambda>t. js_lower (js_String t) = q) xs | _ \<Rightarrow> False))"

definition public_filtered :: "ustr \<Rightarrow> jval list \<Rightarrow> jval list js" where
  \<comment> \<open>the memoised \<open>filtered\<close> for the tag of the URL\<close>
  "public_filtered tg videos = (if tg = [] then Inr videos else js_filter (has_tag_pub (js_lower tg)) videos)"

datatype pub_card = PubCard bool jval jval jval "jval option" ustr
  \<comment> \<open>thumbnail shown, image source, \<open>title\<close> attribute, heading, excerpt, link\<close>

definition TH_NO_VIDEO_TITLE :: ustr where
  "TH_NO_VIDEO_TITLE = [3652, 3617, 3656, 3617, 3637, 3594, 3639, 3656, 3629, 3623, 3636, 3604, 3637, 3650, 3629]"

definition pub_card_of :: "jval \<Rightarrow> pub_card js" where
  \<comment> \<open>one card; its \<open>key\<close> reads \<open>v.slug\<close>, which throws on \<open>null\<close>\<close>
  "pub_card_of v =
     js_bind (get_prop v SLUG) (\<lambda>s.
       let f = opt_prop v; show = hasThumbnail v in
       Inr (PubCard show (if show then the (f (K ''thumbnail'')) else JStr fallbackThumb)
              (or_default (f TITLE) (JStr [])) (or_default (f TITLE) (JStr TH_NO_VIDEO_TITLE))
              (if truthy_opt (f (K ''excerpt'')) then f (K ''excerpt'') else None)
              (U ''/videos/'' @ js_String_opt s)))"

definition PublicVideosPage :: "ustr \<Rightarrow> jval list \<Rightarrow> pub_card list js" where
  \<comment> \<open>the cards for the tag \<open>searchParams.get("tag") || ""\<close> and the list \<open>/api/videos\<close> gave\<close>
  "PublicVideosPage tg videos = js_bind (public_filtered tg videos) (js_map pub_card_of)"

section \<open>The latest-content sections\<close>

definition latest_of :: "jval option \<Rightarrow> jval list js" where
  \<comment> \<open>\<open>setX(d.items || [])\<close> then \<open>x.slice(0, 3)\<close> in the render: \<open>None\<close> is a request that
      failed, and a \<open>null\<close> answer throws inside the promise chain; both leave \<open>[]\<close>. A truthy
      value that is not an array has no \<open>slice\<close> or \<open>map\<close>, and the render throws\<close>
  "latest_of a =
     (case a of
        None \<Rightarrow> Inr []
      | Some d \<Rightarrow>
          (case get_prop d (U ''items'') of
             Inl _ \<Rightarrow> Inr []
           | Inr it \<Rightarrow> (case or_default it (JArr []) of JArr xs \<Rightarrow> Inr (take 3 xs) | _ \<Rightarrow> Inl TypeError)))"

datatype latest_card = LatestCard "jval option" "jval option" "jval option" ustr
  \<comment> \<open>image source, title, text and link of an \<open>article\<close>\<close>

definition latest_card_of :: "ustr \<Rightarrow> jval \<Rightarrow> latest_card js" where
  "latest_card_of prefix x =
     js_bind (get_prop x (K ''thumbnail'')) (\<lambda>th.
       Inr (LatestCard th (opt_prop x TITLE) (opt_prop x (K ''excerpt'')) (prefix @ js_String_opt (opt_prop x SLUG))))"

definition LatestContentSections ::
  "jval option \<Rightarrow> jval option \<Rightarrow> jval option \<Rightarrow> (latest_card list \<times> latest_card list \<times> latest_card list) js" where
  \<comment> \<open>the answers of \<open>/api/videos\<close>, \<open>/api/posts\<close> and \<open>/api/reviews\<close>; the sections render
      videos, reviews, posts\<close>
  "LatestContentSections av ap ar =
     js_bind (latest_of av) (\<lambda>vs. js_bind (latest_of ap) (\<lambda>ps. js_bind (latest_of ar) (\<lambda>rs.
     js_bind (js_map (latest_card_of (U ''/videos/'')) vs) (\<lambda>cv.
     js_bind (js_map (latest_card_of (U ''/reviews/'')) rs) (\<lambda>cr.
     js_bind (js_map (latest_card_of (U ''/blog/'')) ps) (\<lambda>cp. Inr (cv, cr, cp)))))))"

section \<open>Lemmas\<close>

lemma public_filtered_all: "public_filtered [] videos = Inr videos"
  by (simp add: public_filtered_def)

lemma public_filtered_objs:
  assumes "\<forall>v \<in> set videos. \<exists>fs. v = JObj fs" and "tg \<noteq> []"
  shows "public_filtered tg videos =
           Inr (filter (\<lambda>v. case opt_prop v TAGS of Some (JArr xs) \<Rightarrow> list_ex (\<lambda>t. js_lower (js_String t) = js_lower tg) xs
                                                 | _ \<Rightarrow> False) videos)"
  using assms by (auto simp: public_filtered_def has_tag_pub_def opt_prop_def js_bind_def intro!: js_filter_pure)

lemma PublicVideosPage_null: "PublicVideosPage [] (JNull # videos) = Inl TypeError"
  by (simp add: PublicVideosPage_def public_filtered_def pub_card_of_def js_bind_def)

lemma latest_of_take: "latest_of (Some (JObj [(U ''items'', JArr xs)])) = Inr (take 3 xs)"
  by (simp add: latest_of_def or_default_def truthy_opt_def)

lemma latest_of_string_throws:
  "s \<noteq> [] \<Longrightarrow> latest_of (Some (JObj [(U ''items'', JStr s)])) = Inl TypeError"
  by (simp add: latest_of_def or_default_def truthy_opt_def)

end
