(* ===== verification/Spec2Isabelle.thy ===== *)
theory Spec2Isabelle
  imports Routes IndexPages VideoPage Toolfree BlogPost ReviewDetail PublicPages
begin

text \<open>
  \<^bold>\<open>A verification development of the MyAdsDevz content pipeline.\<close>

  The repository is a Next.js marketing site. Its components with behaviour worth proving
  are the text utilities, the JSON-file content stores, the transcript and chapter
  generator of the video admin page, the video JSON-LD built from the chapters, the
  admin pages for videos and posts that drive them, the HTTP routes and the
  authentication in front of the stores, the XML sitemap, and the values the public pages
  compute from the stores (the list pages, the post, review and video pages and their
  JSON-LD),
  and the download modal of the free tool page. The rest
  renders markup.

  \<^bold>\<open>How the parts interact.\<close> The video admin page (\<open>src/src/app/admin/vdo/page.jsx\<close>)
  turns a raw transcript into transcript HTML and chapters \<open>{ t, label }\<close>; the video page
  renders them with \<open>src/src/app/components/JsonLdVideo.jsx\<close> as Schema.org \<open>Clip\<close>s. The
  posts admin page (\<open>src/src/app/admin/page.jsx\<close>) sends its forms to an admin API, and the
  blog routes (\<open>src/src/app/api/blog/...\<close>) call the stores
  \<open>src/src/lib/blogStore.js\<close> and \<open>src/src/lib/postsStore.js\<close>; a store reads the whole
  JSON file, changes the item list and writes the whole list back. The sitemap route and
  the blog tag page read the posts store through \<open>getAllPosts\<close>; the video page
  (\<open>videos/[slug]/page.jsx\<close>, then \<open>VideoDetailClient.jsx\<close> and \<open>VideoLd.jsx\<close>) reads
  one stored video, whose \<open>duration\<close> the three files each read in their own way.

  \<^bold>\<open>Theories and what they show.\<close>
  \<^item> \<open>Prelude\<close>: strings as lists of UTF-16 code units (\<open>ustr = nat list\<close>: HOL's
    \<open>char\<close> has 256 values and the site stores Thai text), the whitespace class, \<open>trim\<close>,
    \<open>split\<close>, \<open>join\<close>, \<open>split(/\s+/)\<close>, \<open>toLowerCase\<close>, \<open>toString(10)\<close>, the scanners
    that model the regular-expression replacements, and the list lemmas the components
    share (split after join, the ends of a trimmed string).
  \<^item> \<open>JsValue\<close>: JSON values (\<open>jval\<close>), IEEE numbers as \<open>jnum\<close> (NaN, the infinities and
    rationals: every number the sources compute is one of these), \<open>Number(s)\<close>,
    \<open>String(v)\<close>, truthiness, property reads that throw on \<open>null\<close>, and errors as values
    (\<open>'a js = js_error + 'a\<close>) with the array methods whose callbacks may throw.
  \<^item> \<open>Text\<close>: \<open>slugify\<close> of \<open>lib/slugify.js\<close> and of \<open>lib/text.js\<close>, \<open>todayStr\<close>,
    \<open>toArray\<close>: the exact range of the first and its idempotence, the shape of the second.
  \<^item> \<open>JsonFile\<close>: the file state (\<open>doc\<close>: missing, unparsable or a document), the
    request environment (clock, local date, NFKD), the slug invariant shared by the
    stores, and the stable insertion sort that models \<open>Array.prototype.sort\<close> with its
    permutation, order and stability lemmas.
  \<^item> \<open>BlogStore\<close>: every exported operation of \<open>blogStore.js\<close> on the file state, with
    its early returns and throws. Proved: create and update keep the invariant exactly
    when the slug they give is fresh; create/get round trip; update merges shallowly;
    remove then get finds nothing; an update of a missing slug writes nothing; whenever the
    base slug and its time-suffixed form are both taken, a create duplicates a slug (the
    suffix is not re-checked); an unparsable file throws. Lemmas: removing a missing slug
    writes nothing.
  \<^item> \<open>Uri\<close>: the engine builtins \<open>encodeURIComponent\<close> and \<open>decodeURIComponent\<close> after
    ECMA-262 (UTF-8 over UTF-16), a library the components call; they are not repository
    code and carry no map entry. Lemmas: decoding undoes encoding, and encoding throws
    exactly on lone surrogates.
  \<^item> \<open>PostsStore\<close>: \<open>postsStore.js\<close>, where an unparsable file is healed before any throw,
    so each operation returns its result together with the file it leaves. Proved:
    first-write-wins adds keep the trimmed-slug invariant; add/get round trip; delete
    removes exactly its slug; when no \<open>createdAt\<close> is NaN, \<open>getAllPosts\<close> is the stable
    newest-first sort. Lemmas:
    deleting a missing slug throws, and the lookup's flaws (case-insensitive fallback after
    delete, double decoding).
  \<^item> \<open>Transcript\<close>: the pure helpers of the video admin page (lines 39-186). The line
    regular expression is modelled as its backtracking matcher (\<open>tc_candidates\<close> lists the
    splits in the order tried) and proved equal to a deterministic reading
    (\<open>tc_parse\<close>); \<open>secondsToTimecode\<close>/\<open>timecodeToSeconds\<close> round trip. Lemmas:
    \<open>escapeHtml\<close> is injective and free of markup characters; chapters are de-duplicated,
    keep their first label and match the specification's example; labels are bounded.
  \<^item> \<open>VideoJsonLd\<close>: \<open>JsonLdVideo.jsx\<close> up to the object given to \<open>JSON.stringify\<close>.
    Proved: when no offset is NaN, the clips are ordered and do not overlap; composed with
    the generator, every
    generated chapter becomes exactly one clip (its timecode always parses, its label is
    already trimmed); the specification's two-chapter example.
  \<^item> \<open>VideoAdmin\<close>: \<open>AdminVideosPage\<close> of \<open>vdo/page.jsx\<close> (lines 188-1004): the React state
    as the record \<open>vstate\<close>, \<open>cleanVideoForSave\<close>, the derived values (the filtered list,
    the previews) and every handler the JSX wires, as events of a step function grouped as
    the JSX groups its controls (\<open>vstep\<close>); \<open>enabled\<close> says which controls are rendered,
    \<open>vreach\<close> is reachability. A handler returns the request it sends; the server's
    answers are events allowed at any time. Proved: the list view always holds the empty
    form; with auto chapters on, save sends the generated chapters, and so drops a chapter
    the preview still shows. Lemmas: a blank title sends nothing.
  \<^item> \<open>PostsAdmin\<close>: \<open>AdminPosts\<close> of \<open>admin/page.jsx\<close>: the thumbnail helpers, the state as
    the record \<open>pstate\<close>, and every handler split at its \<open>await\<close>s: the first half returns
    the request with a continuation (\<open>pcont\<close>) holding what the closure captured, the
    second half (\<open>on_reply\<close>) runs on the answer. A session is a state with its list of
    pending requests; \<open>preach\<close> lets the user fire any rendered, enabled control
    (\<open>penabled\<close>, on a render that does not throw) and the server answer any pending
    request, in any order. Proved by rule induction: \<open>saving\<close> implies a pending submit,
    and at most two answers to it clear \<open>saving\<close> (liveness); the form never breaks the
    render. Proved of the handlers: an edit DELETEs then POSTs the submitted form whatever
    the DELETE answered; thumbnails round-trip between path and URL; the FAQ arrows swap
    neighbours. Shown by reachable traces: two saves can be in flight at once, and an
    upload reverts the fields typed while it ran.
  \<^item> \<open>Auth\<close>: \<open>isAdmin\<close> of \<open>lib/auth.js\<close> (bearer secret, Basic credentials, cookie flag),
    the login and course enrolment routes and the page middleware; the three regular
    expressions of \<open>isAdmin\<close> are backtracking matchers. Proved: a cookie \<open>admin=1\<close> passes
    the gate whatever the secrets. Lemmas: a bearer header with the secret passes it (the
    greedy capture is the secret); login sets the flag exactly for \<open>ADMIN_PASSWORD\<close>.
  \<^item> \<open>Routes\<close>: the blog routes over \<open>BlogStore\<close>, the posts item route over
    \<open>PostsStore\<close>, the reviews and videos item routes (their stores are parameters) and the
    sitemap list. The token splitter \<open>s.split(re)\<close> is \<open>re_split\<close> (a \<open>function\<close> with a
    measure, over the match length of the pattern). Proved: the token lists of an update
    are non-empty, trimmed and case-insensitively distinct; a created article loses the
    keywords, image and reading time the route computed; composing the two slug functions
    with the store, an update to \<open>___\<close> leaves an item no route can reach. Lemmas:
    deleting an unknown slug answers ok.
  \<^item> \<open>Sitemap\<close>: \<open>sitemap.xml/route.js\<close>: \<open>absUrl\<close>, \<open>isoDate\<close>, \<open>toFixed\<close> (exact
    half-up rounding of the rational value), \<open>sortByRankOrViews\<close> with its comparator,
    \<open>computePriority\<close>, the \<open>url\<close> printer and \<open>GET\<close> over \<open>getAllPosts\<close> and the store
    parameters. Proved: every printable post, video, review and tag gets its \<open><loc>\<close>;
    composed with the posts store, one \<open>null\<close> post hides every post (the route's
    \<open>catch\<close> swallows the sort's \<open>TypeError\<close>); priorities stay in [0.3, 1]. Lemmas: the
    sort ranks ranked items first, \<open>+x.toFixed(f)\<close> is within half a unit.
  \<^item> \<open>VideoDetail\<close>: \<open>VideoDetailClient.jsx\<close>: \<open>extractYoutubeId\<close>, \<open>resolveThumbUrl\<close>,
    \<open>isoDurationToSeconds\<close>, \<open>RelatedList\<close>'s scoring and order, and the head values.
    Proved: an extracted id is empty or eleven id characters (type); the related list
    holds at most six other videos by descending tag overlap.
  \<^item> \<open>VideoLd\<close>: \<open>VideoLd.jsx\<close> with \<open>formatDuration\<close> and JavaScript's \<open>%\<close>. Proved:
    \<open>formatDuration\<close> round trips through the client's reader, and prints the stored ISO
    duration as the empty \<open>PT\<close>.
  \<^item> \<open>IndexPages\<close>: the blog and videos indexes, \<open>VideoRanking\<close>, the reviews list and
    the blog tag page. Proved: composed with the posts store and the sitemap's tag links,
    every tagged post is on its tag page when decoding twice is harmless. Lemmas: the
    ranking shows at most \<open>maxItems\<close> videos by descending views; a tag with \<open>%\<close> breaks
    its page.
  \<^item> \<open>VideoPage\<close>: \<open>videos/[slug]/page.jsx\<close> and \<open>seo.config.js\<close>: the description,
    canonical URL, \<open>durationToISO\<close> and the three JSON-LD objects. Proved: for \<open>m:s\<close>, the
    ISO duration it writes reads back in the client as \<open>60 m + s\<close> (composition).
  \<^item> \<open>BlogPost\<close>: \<open>blog/[slug]/page.jsx\<close> over \<open>getPostBySlug\<close> with its three JSON-LD
    objects, and \<open>PostDetailClient.jsx\<close> with \<open>RelatedPosts\<close>. Proved, composed with the
    store: a post \<open>addPostFullFirstWrite\<close> adds is rendered at \<open>SITE_URL/blog/<slug>\<close>.
    Lemmas: the related list leaves out the current post; a \<open>null\<close> item breaks it.
  \<^item> \<open>Toolfree\<close>: the download modal of \<open>toolfree/ToolfreeClient.jsx\<close> as a state
    machine (\<open>tstate\<close>, \<open>tstep\<close>, reachability \<open>treach\<close>, runs \<open>trun\<close>); the
    interval is a \<open>Tick\<close> event and each event is followed by the download effect. Proved
    by rule induction: the invariant of every reachable state, including that the
    missing-URL alert never shows (\<open>ok\<close> is a promise); and that a click and 30 ticks
    start exactly one download and close the modal (liveness).
  \<^item> \<open>ReviewDetail\<close>: \<open>reviews/[slug]/page.jsx\<close> (\<open>generateStaticParams\<close>, the page and
    its JSON-LD array) and \<open>ReviewDetailClient.jsx\<close>. Lemmas: the static parameters are the
    truthy slugs, or none when the store throws; the JSON-LD URL is the canonical URL of
    the route's slug; a numeric date breaks the render.
  \<^item> \<open>PublicPages\<close>: the public videos page \<open>videos/page.jsx\<close> and the latest sections
    of \<open>components/Rbvdo.jsx\<close> as the cards they render. Lemmas: without a tag every video
    is shown, with one exactly the videos carrying it; a \<open>null\<close> video or a string
    \<open>items\<close> breaks the render.
  \<^item> This theory: the slug examples of the specification.

  \<^bold>\<open>Choices.\<close> No loop of the modelled code can run forever: every loop is a structural
  recursion or a \<open>function\<close> with a measure, so no fuel is needed. Sorting with a
  comparator that is inconsistent on NaN is implementation-defined (V8 may leave such a
  list unsorted); the model ranks NaN as 0 only to stay total, and every claim about a
  sort order assumes that no key is NaN, where every stable sort, V8's included, agrees. \<open>toLowerCase\<close> is modelled on ASCII and Latin-1, the Unicode letter classes on
  ASCII, Latin-1 and Thai (a parameter elsewhere), NFKD is a parameter.

  \<^bold>\<open>Not modelled.\<close> File I/O itself (the stores are functions of the file state),
  JSON text parsing and printing (a write followed by a read is \<open>json_roundtrip\<close>), the
  React runtime beyond what the admin pages and the download modal need (a \<open>set\<close> call is a record update; the
  render is modelled where it can throw and as the guard of the controls), the admin
  API routes and the upload endpoint the admin pages call, and the modules
  \<open>@/lib/simpleAuth\<close>, \<open>reviewsStore\<close> and \<open>videosStore\<close> (not in the repository: the server
  is left open, the others are parameters), \<open>Buffer\<close>'s base64 decoding (a parameter),
  \<open>getVideoBySlug\<close>, the \<open>Date\<close> library (with \<open>getTime\<close>), \<open>localeCompare\<close> and the platform's URL
  parser (parameters), \<open>generateMetadata\<close> and the JSX of the public pages beyond the
  values they compute, the home page, the layout, the footer, the static service, policy
  and FAQ pages and the analytics tags, which render markup only.
\<close>

section \<open>Slug examples from the specification\<close>

text \<open>
  \<open>slugify\<close> of \<open>lib/text.js\<close> has no fallback: a title made only of punctuation
  gives the empty slug (the specification promises a non-empty default token).
\<close>

theorem slugify_text_punctuation_empty: "slugify_text id (U ''!!!'') = []"
  by (simp add: slug_eval)

text \<open>
  The Thai title "sawatdi lok" (U+0E2A U+0E27 U+0E31 U+0E2A U+0E14 U+0E35, a space,
  U+0E42 U+0E25 U+0E01) becomes the two Thai words joined by one hyphen.
\<close>

theorem slugify_text_thai_title:
  "slugify_text id [3626, 3623, 3633, 3626, 3604, 3637, 32, 3650, 3621, 3585] =
     [3626, 3623, 3633, 3626, 3604, 3637, 45, 3650, 3621, 3585]"
  by (simp add: slug_eval)

end
